(* ===== verification/Prelude.thy ===== *)
theory Prelude
  imports Main "HOL-Library.Char_ord" "HOL-Library.List_Lexorder" "HOL-Library.Product_Lexorder"
begin

text \<open>
  Shared vocabulary of the development: the exceptions the Python code raises, a
  state-and-exception monad for the code that mutates a store and may raise, its
  weakest-precondition and preservation calculus, and models of the Python text operations the
  sources use. A Python \<open>str\<close> is the \<open>string\<close> of the bytes of its UTF-8 encoding (its characters,
  in the ASCII range), a \<open>bytes\<close> value is a \<open>string\<close> of bytes, an \<open>int\<close> is an \<open>int\<close>, and an aware \<open>datetime\<close> is the \<open>int\<close> number
  of microseconds since the epoch in UTC.
\<close>

type_synonym instant = int
type_synonym bytes = string

text \<open>The exceptions of the modelled sources, with the message the source passes.\<close>

datatype exn =
    Value_Error string
  | Type_Error string
  | Key_Error string
  | Index_Error string
  | Runtime_Error string
  | Assertion_Error string
  | Configuration_Error string
  | Manifest_Error string
  | Manifest_Conflict_Error string
  | Invalid_Manifest_Transition string
  | Processing_Manifest_Error string
  | Storage_Backend_Error string
  | Immutable_Collision_Error string
  | Object_Not_Found string
  | Conditional_Write_Conflict string
  | Retry_Exhausted_Error string
  | Operational_Error string
  | Integrity_Error string
  | Timeout_Error string
  | Connection_Error string
  | OS_Error string
  | Kafka_Exception string
  | Unicode_Decode_Error string
  | Json_Decode_Error string
  | Overflow_Error string
  | Zero_Division_Error string
  | Attribute_Error string
  | Invalid_Operation string
  | Contract_Error string
  | Discovery_Error string string
  | Connect_Api_Error string
  | Csv_Error string
  | Silver_Normalization_Error string string
  | Bronze_Read_Error string string

primrec exn_name :: "exn \<Rightarrow> string" where
  "exn_name (Value_Error m) = ''ValueError''"
| "exn_name (Type_Error m) = ''TypeError''"
| "exn_name (Key_Error m) = ''KeyError''"
| "exn_name (Index_Error m) = ''IndexError''"
| "exn_name (Runtime_Error m) = ''RuntimeError''"
| "exn_name (Assertion_Error m) = ''AssertionError''"
| "exn_name (Configuration_Error m) = ''ConfigurationError''"
| "exn_name (Manifest_Error m) = ''ManifestError''"
| "exn_name (Manifest_Conflict_Error m) = ''ManifestConflictError''"
| "exn_name (Invalid_Manifest_Transition m) = ''InvalidManifestTransition''"
| "exn_name (Processing_Manifest_Error m) = ''ProcessingManifestError''"
| "exn_name (Storage_Backend_Error m) = ''StorageBackendError''"
| "exn_name (Immutable_Collision_Error m) = ''ImmutableCollisionError''"
| "exn_name (Object_Not_Found m) = ''_ObjectNotFound''"
| "exn_name (Conditional_Write_Conflict m) = ''_ConditionalWriteConflict''"
| "exn_name (Retry_Exhausted_Error m) = ''RetryExhaustedError''"
| "exn_name (Operational_Error m) = ''OperationalError''"
| "exn_name (Integrity_Error m) = ''IntegrityError''"
| "exn_name (Timeout_Error m) = ''TimeoutError''"
| "exn_name (Connection_Error m) = ''ConnectionError''"
| "exn_name (OS_Error m) = ''OSError''"
| "exn_name (Kafka_Exception m) = ''KafkaException''"
| "exn_name (Unicode_Decode_Error m) = ''UnicodeDecodeError''"
| "exn_name (Json_Decode_Error m) = ''JSONDecodeError''"
| "exn_name (Overflow_Error m) = ''OverflowError''"
| "exn_name (Zero_Division_Error m) = ''ZeroDivisionError''"
| "exn_name (Attribute_Error m) = ''AttributeError''"
| "exn_name (Invalid_Operation m) = ''InvalidOperation''"
| "exn_name (Contract_Error m) = ''ContractError''"
| "exn_name (Discovery_Error c m) = ''DiscoveryError''"
| "exn_name (Connect_Api_Error m) = ''ConnectApiError''"
| "exn_name (Csv_Error m) = ''Error''"
| "exn_name (Silver_Normalization_Error c m) = ''SilverNormalizationError''"
| "exn_name (Bronze_Read_Error c m) = ''BronzeReadError''"

primrec exn_message :: "exn \<Rightarrow> string" where
  "exn_message (Value_Error m) = m"
| "exn_message (Type_Error m) = m"
| "exn_message (Key_Error m) = m"
| "exn_message (Index_Error m) = m"
| "exn_message (Runtime_Error m) = m"
| "exn_message (Assertion_Error m) = m"
| "exn_message (Configuration_Error m) = m"
| "exn_message (Manifest_Error m) = m"
| "exn_message (Manifest_Conflict_Error m) = m"
| "exn_message (Invalid_Manifest_Transition m) = m"
| "exn_message (Processing_Manifest_Error m) = m"
| "exn_message (Storage_Backend_Error m) = m"
| "exn_message (Immutable_Collision_Error m) = m"
| "exn_message (Object_Not_Found m) = m"
| "exn_message (Conditional_Write_Conflict m) = m"
| "exn_message (Retry_Exhausted_Error m) = m"
| "exn_message (Operational_Error m) = m"
| "exn_message (Integrity_Error m) = m"
| "exn_message (Timeout_Error m) = m"
| "exn_message (Connection_Error m) = m"
| "exn_message (OS_Error m) = m"
| "exn_message (Kafka_Exception m) = m"
| "exn_message (Unicode_Decode_Error m) = m"
| "exn_message (Json_Decode_Error m) = m"
| "exn_message (Overflow_Error m) = m"
| "exn_message (Zero_Division_Error m) = m"
| "exn_message (Attribute_Error m) = m"
| "exn_message (Invalid_Operation m) = m"
| "exn_message (Contract_Error m) = m"
| "exn_message (Discovery_Error c m) = m"
| "exn_message (Connect_Api_Error m) = m"
| "exn_message (Csv_Error m) = m"
| "exn_message (Silver_Normalization_Error c m) = m"
| "exn_message (Bronze_Read_Error c m) = m"

text \<open>The subclasses of \<open>ValueError\<close>.\<close>

fun is_value_error :: "exn \<Rightarrow> bool" where
  "is_value_error (Value_Error m) = True"
| "is_value_error (Configuration_Error m) = True"
| "is_value_error (Unicode_Decode_Error m) = True"
| "is_value_error (Json_Decode_Error m) = True"
| "is_value_error (Contract_Error m) = True"
| "is_value_error (Discovery_Error c m) = True"
| "is_value_error (Silver_Normalization_Error c m) = True"
| "is_value_error (Bronze_Read_Error c m) = True"
| "is_value_error e = False"

section \<open>Pure results\<close>

type_synonym 'a result = "exn + 'a"

definition bindR :: "'a result \<Rightarrow> ('a \<Rightarrow> 'b result) \<Rightarrow> 'b result" where
  "bindR m f = (case m of Inl e \<Rightarrow> Inl e | Inr x \<Rightarrow> f x)"

text \<open>A guard: raise unless the condition holds.\<close>

definition requireR :: "bool \<Rightarrow> exn \<Rightarrow> unit result" where
  "requireR b e = (if b then Inr () else Inl e)"

text \<open>A computation raises only exceptions of a given kind.\<close>

definition raises :: "(exn \<Rightarrow> bool) \<Rightarrow> 'a result \<Rightarrow> bool" where
  "raises P r \<longleftrightarrow> (case r of Inl e \<Rightarrow> P e | Inr x \<Rightarrow> True)"

section \<open>State and exceptions\<close>

text \<open>
  An exception does not undo the writes made before it, so an effectful operation returns the
  exception or the value together with the state it leaves behind.
\<close>

type_synonym ('s, 'a) eff = "'s \<Rightarrow> (exn + 'a) \<times> 's"

definition returnE :: "'a \<Rightarrow> ('s, 'a) eff" where
  "returnE x s = (Inr x, s)"

definition raiseE :: "exn \<Rightarrow> ('s, 'a) eff" where
  "raiseE e s = (Inl e, s)"

definition bindE :: "('s, 'a) eff \<Rightarrow> ('a \<Rightarrow> ('s, 'b) eff) \<Rightarrow> ('s, 'b) eff" where
  "bindE m f s = (case m s of (Inl e, t) \<Rightarrow> (Inl e, t) | (Inr x, t) \<Rightarrow> f x t)"

definition seqE :: "('s, 'a) eff \<Rightarrow> ('s, 'b) eff \<Rightarrow> ('s, 'b) eff" where
  "seqE m k = bindE m (\<lambda>_. k)"

text \<open>Python's \<open>try: m except Exception as e: h e\<close>.\<close>

definition catchE :: "('s, 'a) eff \<Rightarrow> (exn \<Rightarrow> ('s, 'a) eff) \<Rightarrow> ('s, 'a) eff" where
  "catchE m h s = (case m s of (Inl e, t) \<Rightarrow> h e t | (Inr x, t) \<Rightarrow> (Inr x, t))"

text \<open>Python's \<open>try: m finally: k\<close>, for a \<open>k\<close> that cannot raise.\<close>

definition finallyE :: "('s, 'a) eff \<Rightarrow> ('s \<Rightarrow> 's) \<Rightarrow> ('s, 'a) eff" where
  "finallyE m k s = (case m s of (r, t) \<Rightarrow> (r, k t))"

definition getE :: "('s \<Rightarrow> 'a) \<Rightarrow> ('s, 'a) eff" where
  "getE f s = (Inr (f s), s)"

definition modifyE :: "('s \<Rightarrow> 's) \<Rightarrow> ('s, unit) eff" where
  "modifyE f s = (Inr (), f s)"

definition liftE :: "'a result \<Rightarrow> ('s, 'a) eff" where
  "liftE r s = (r, s)"

text \<open>A Python \<open>for\<close> loop over a sequence, stopped by the first exception.\<close>

fun forE :: "'a list \<Rightarrow> ('a \<Rightarrow> ('s, unit) eff) \<Rightarrow> ('s, unit) eff" where
  "forE [] body = returnE ()"
| "forE (x # xs) body = seqE (body x) (forE xs body)"

subsection \<open>Weakest preconditions\<close>

definition wp :: "('s, 'a) eff \<Rightarrow> ('a \<Rightarrow> 's \<Rightarrow> bool) \<Rightarrow> (exn \<Rightarrow> 's \<Rightarrow> bool) \<Rightarrow> 's \<Rightarrow> bool" where
  "wp m Q E s = (case m s of (Inl e, t) \<Rightarrow> E e t | (Inr x, t) \<Rightarrow> Q x t)"

text \<open>An operation keeps a predicate on the state whether it returns or raises.\<close>

definition preserves :: "('s \<Rightarrow> bool) \<Rightarrow> ('s, 'a) eff \<Rightarrow> bool" where
  "preserves I m \<longleftrightarrow> (\<forall>s. I s \<longrightarrow> I (snd (m s)))"

section \<open>Python text\<close>

fun digit_char :: "nat \<Rightarrow> char" where
  "digit_char n = char_of (48 + n)"

function show_nat :: "nat \<Rightarrow> string" where
  "show_nat n = (if n < 10 then [digit_char n] else show_nat (n div 10) @ [digit_char (n mod 10)])"
  by pat_completeness auto
termination
  by (relation "measure id") auto

declare show_nat.simps [simp del]

definition show_int :: "int \<Rightarrow> string" where
  "show_int i = (if i < 0 then CHR ''-'' # show_nat (nat (- i)) else show_nat (nat i))"

text \<open>\<open>str.split(sep)\<close> for a one-character separator.\<close>

fun split_on :: "char \<Rightarrow> string \<Rightarrow> string list" where
  "split_on c [] = [[]]"
| "split_on c (x # xs) =
     (if x = c then [] # split_on c xs
      else (case split_on c xs of [] \<Rightarrow> [[x]] | p # ps \<Rightarrow> (x # p) # ps))"

fun join_with :: "string \<Rightarrow> string list \<Rightarrow> string" where
  "join_with sep [] = []"
| "join_with sep [x] = x"
| "join_with sep (x # y # ys) = x @ sep @ join_with sep (y # ys)"

definition starts_with :: "string \<Rightarrow> string \<Rightarrow> bool" where
  "starts_with p s \<longleftrightarrow> take (length p) s = p"

definition ends_with :: "string \<Rightarrow> string \<Rightarrow> bool" where
  "ends_with p s \<longleftrightarrow> length p \<le> length s \<and> drop (length s - length p) s = p"

definition remove_prefix :: "string \<Rightarrow> string \<Rightarrow> string" where
  "remove_prefix p s = (if starts_with p s then drop (length p) s else s)"

fun contains :: "string \<Rightarrow> string \<Rightarrow> bool" where
  "contains p [] \<longleftrightarrow> p = []"
| "contains p (x # xs) \<longleftrightarrow> starts_with p (x # xs) \<or> contains p xs"

text \<open>The ASCII characters that \<open>str.strip()\<close> removes; other white space is kept.\<close>

definition is_space :: "char \<Rightarrow> bool" where
  "is_space c \<longleftrightarrow> (let n = of_char c :: nat in
     9 \<le> n \<and> n \<le> 13 \<or> 28 \<le> n \<and> n \<le> 32)"

definition py_strip :: "string \<Rightarrow> string" where
  "py_strip s = rev (dropWhile is_space (rev (dropWhile is_space s)))"

definition replace_char :: "char \<Rightarrow> char \<Rightarrow> string \<Rightarrow> string" where
  "replace_char a b = map (\<lambda>c. if c = a then b else c)"

text \<open>\<open>str.lower()\<close> and \<open>str.upper()\<close> on ASCII text.\<close>

definition lower_char :: "char \<Rightarrow> char" where
  "lower_char c = (let n = of_char c :: nat in if 65 \<le> n \<and> n \<le> 90 then char_of (n + 32) else c)"

definition to_lower :: "string \<Rightarrow> string" where
  "to_lower = map lower_char"

definition upper_char :: "char \<Rightarrow> char" where
  "upper_char c = (let n = of_char c :: nat in if 97 \<le> n \<and> n \<le> 122 then char_of (n - 32) else c)"

definition to_upper :: "string \<Rightarrow> string" where
  "to_upper = map upper_char"

text \<open>\<open>str.strip(c)\<close> for one character.\<close>

definition strip_char :: "char \<Rightarrow> string \<Rightarrow> string" where
  "strip_char c s = rev (dropWhile (\<lambda>d. d = c) (rev (dropWhile (\<lambda>d. d = c) s)))"

definition is_alnum :: "char \<Rightarrow> bool" where
  "is_alnum c \<longleftrightarrow> (let n = of_char c :: nat in
     48 \<le> n \<and> n \<le> 57 \<or> 65 \<le> n \<and> n \<le> 90 \<or> 97 \<le> n \<and> n \<le> 122)"

definition is_hex :: "char \<Rightarrow> bool" where
  "is_hex c \<longleftrightarrow> (let n = of_char c :: nat in 48 \<le> n \<and> n \<le> 57 \<or> 97 \<le> n \<and> n \<le> 102)"

text \<open>The regular expression \<open>[A-Za-z0-9][A-Za-z0-9._-]{0,n}\<close> matched against the whole text.\<close>

definition safe_token :: "nat \<Rightarrow> string \<Rightarrow> bool" where
  "safe_token n s \<longleftrightarrow> (case s of [] \<Rightarrow> False
     | c # cs \<Rightarrow> is_alnum c \<and> length cs \<le> n
         \<and> list_all (\<lambda>d. is_alnum d \<or> d = CHR ''.'' \<or> d = CHR ''_'' \<or> d = CHR ''-'') cs)"

section \<open>Collections of facts\<close>

named_theorems preserves_rules \<open>structural rules for \<open>preserves\<close>\<close>
named_theorems wp_rules \<open>equations of \<open>wp\<close>\<close>
named_theorems raises_rules \<open>structural rules for \<open>raises\<close>\<close>

lemma bindR_Inr [simp]: "bindR (Inr x) f = f x"
  by (simp add: bindR_def)

lemma bindR_Inl [simp]: "bindR (Inl e) f = Inl e"
  by (simp add: bindR_def)

lemma bindR_weak_cong: "m = m' \<Longrightarrow> bindR m f = bindR m' f"
  by simp

lemma bindR_eq_Inr: "bindR m f = Inr y \<longleftrightarrow> (\<exists>x. m = Inr x \<and> f x = Inr y)"
  by (cases m) auto

lemma bindR_InrE:
  assumes "bindR m f = Inr y"
  obtains x where "m = Inr x" "f x = Inr y"
  using assms by (auto simp: bindR_eq_Inr)

lemma raises_Inr [raises_rules, simp]: "raises P (Inr x)"
  by (simp add: raises_def)

lemma raises_Inl [simp]: "raises P (Inl e) = P e"
  by (simp add: raises_def)

lemma raises_bindR [raises_rules]: "raises P m \<Longrightarrow> (\<And>x. m = Inr x \<Longrightarrow> raises P (f x)) \<Longrightarrow> raises P (bindR m f)"
  by (cases m) simp_all

lemma raises_if [raises_rules]: "(b \<Longrightarrow> raises P m) \<Longrightarrow> (\<not> b \<Longrightarrow> raises P k) \<Longrightarrow> raises P (if b then m else k)"
  by simp

lemma raises_list [raises_rules]: "raises P m \<Longrightarrow> (\<And>x xs. raises P (f x xs)) \<Longrightarrow> raises P (case v of [] \<Rightarrow> m | x # xs \<Rightarrow> f x xs)"
  by (cases v) simp_all

lemma raises_option [raises_rules]: "raises P m \<Longrightarrow> (\<And>x. raises P (f x)) \<Longrightarrow> raises P (case v of None \<Rightarrow> m | Some x \<Rightarrow> f x)"
  by (cases v) simp_all

lemma raises_prod [raises_rules]: "(\<And>x y. raises P (f x y)) \<Longrightarrow> raises P (case v of (x, y) \<Rightarrow> f x y)"
  by (cases v) simp

lemma raises_Let [raises_rules]: "raises P (f v) \<Longrightarrow> raises P (let x = v in f x)"
  by simp

lemma raisesD: "raises P r \<Longrightarrow> r = Inl e \<Longrightarrow> P e"
  by simp

lemma requireR_Inr [simp]: "requireR b e = Inr u \<longleftrightarrow> b"
  by (simp add: requireR_def)

lemma requireR_Inl [simp]: "requireR b e = Inl e' \<longleftrightarrow> \<not> b \<and> e' = e"
  by (auto simp: requireR_def)

lemma bindE_Inr: "m s = (Inr x, t) \<Longrightarrow> bindE m f s = f x t"
  by (simp add: bindE_def)

lemma bindE_Inl: "m s = (Inl e, t) \<Longrightarrow> bindE m f s = (Inl e, t)"
  by (simp add: bindE_def)

lemma seqE_Inr: "m s = (Inr x, t) \<Longrightarrow> seqE m k s = k t"
  by (simp add: seqE_def bindE_def)

lemma seqE_Inl: "m s = (Inl e, t) \<Longrightarrow> seqE m k s = (Inl e, t)"
  by (simp add: seqE_def bindE_def)

lemma catchE_Inr: "m s = (Inr x, t) \<Longrightarrow> catchE m h s = (Inr x, t)"
  by (simp add: catchE_def)

lemma catchE_Inl: "m s = (Inl e, t) \<Longrightarrow> catchE m h s = h e t"
  by (simp add: catchE_def)

lemmas run_eqs = bindE_Inr bindE_Inl seqE_Inr seqE_Inl catchE_Inr catchE_Inl

lemma wp_returnE [wp_rules]: "wp (returnE x) Q E s = Q x s"
  by (simp add: wp_def returnE_def)

lemma wp_raiseE [wp_rules]: "wp (raiseE e) Q E s = E e s"
  by (simp add: wp_def raiseE_def)

lemma wp_bindE [wp_rules]: "wp (bindE m f) Q E s = wp m (\<lambda>x. wp (f x) Q E) E s"
  by (auto simp: wp_def bindE_def split: prod.splits sum.splits)

lemma wp_seqE [wp_rules]: "wp (seqE m k) Q E s = wp m (\<lambda>_. wp k Q E) E s"
  by (simp add: seqE_def wp_bindE)

lemma wp_catchE [wp_rules]: "wp (catchE m h) Q E s = wp m Q (\<lambda>e. wp (h e) Q E) s"
  by (auto simp: wp_def catchE_def split: prod.splits sum.splits)

lemma wp_finallyE [wp_rules]:
  "wp (finallyE m k) Q E s = wp m (\<lambda>x t. Q x (k t)) (\<lambda>e t. E e (k t)) s"
  by (auto simp: wp_def finallyE_def split: prod.splits sum.splits)

lemma wp_getE [wp_rules]: "wp (getE f) Q E s = Q (f s) s"
  by (simp add: wp_def getE_def)

lemma wp_modifyE [wp_rules]: "wp (modifyE f) Q E s = Q () (f s)"
  by (simp add: wp_def modifyE_def)

lemma wp_liftE [wp_rules]:
  "wp (liftE r) Q E s = (case r of Inl e \<Rightarrow> E e s | Inr x \<Rightarrow> Q x s)"
  by (simp add: wp_def liftE_def split: sum.splits)

lemma wp_if [wp_rules]:
  "wp (if b then m else k) Q E s = (if b then wp m Q E s else wp k Q E s)"
  by simp

lemma wp_mono:
  assumes "wp m Q E s"
    and "\<And>x t. Q x t \<Longrightarrow> Q' x t" and "\<And>e t. E e t \<Longrightarrow> E' e t"
  shows "wp m Q' E' s"
  using assms by (auto simp: wp_def split: prod.splits sum.splits)

lemma wp_True [simp]: "wp m (\<lambda>_ _. True) (\<lambda>_ _. True) s"
  by (auto simp: wp_def split: prod.splits sum.splits)

lemma wp_conj:
  "wp m (\<lambda>x t. Q x t \<and> Q' x t) (\<lambda>e t. E e t \<and> E' e t) s \<longleftrightarrow> wp m Q E s \<and> wp m Q' E' s"
  by (auto simp: wp_def split: prod.splits sum.splits)

lemma wp_result: "wp m Q E s \<Longrightarrow> m s = (Inr x, t) \<Longrightarrow> Q x t"
  by (simp add: wp_def)

lemma wp_error: "wp m Q E s \<Longrightarrow> m s = (Inl e, t) \<Longrightarrow> E e t"
  by (simp add: wp_def)

lemma wp_I:
  assumes "\<And>x t. m s = (Inr x, t) \<Longrightarrow> Q x t" and "\<And>e t. m s = (Inl e, t) \<Longrightarrow> E e t"
  shows "wp m Q E s"
  using assms by (auto simp: wp_def split: prod.splits sum.splits)

lemma preservesD: "preserves I m \<Longrightarrow> I s \<Longrightarrow> I (snd (m s))"
  by (simp add: preserves_def)

lemma preserves_iff_wp: "preserves I m \<longleftrightarrow> (\<forall>s. I s \<longrightarrow> wp m (\<lambda>_. I) (\<lambda>_. I) s)"
proof -
  have "wp m (\<lambda>_. I) (\<lambda>_. I) s \<longleftrightarrow> I (snd (m s))" for s
    by (cases "m s") (auto simp: wp_def split: sum.splits)
  then show ?thesis by (simp add: preserves_def)
qed

lemma preserves_returnE [preserves_rules]: "preserves I (returnE x)"
  by (simp add: preserves_def returnE_def)

lemma preserves_raiseE [preserves_rules]: "preserves I (raiseE e)"
  by (simp add: preserves_def raiseE_def)

lemma preserves_getE [preserves_rules]: "preserves I (getE f)"
  by (simp add: preserves_def getE_def)

lemma preserves_liftE [preserves_rules]: "preserves I (liftE r)"
  by (simp add: preserves_def liftE_def)

lemma preserves_bindE [preserves_rules]:
  assumes "preserves I m" and "\<And>x. preserves I (f x)"
  shows "preserves I (bindE m f)"
  using assms by (simp add: preserves_iff_wp wp_bindE) (blast intro: wp_mono)

lemma preserves_seqE [preserves_rules]:
  "preserves I m \<Longrightarrow> preserves I k \<Longrightarrow> preserves I (seqE m k)"
  unfolding seqE_def by (rule preserves_bindE)

lemma preserves_catchE [preserves_rules]:
  assumes "preserves I m" and "\<And>e. preserves I (h e)"
  shows "preserves I (catchE m h)"
  using assms by (simp add: preserves_iff_wp wp_catchE) (blast intro: wp_mono)

lemma preserves_modifyE [preserves_rules]:
  "(\<And>s. I s \<Longrightarrow> I (f s)) \<Longrightarrow> preserves I (modifyE f)"
  by (simp add: preserves_def modifyE_def)

lemma preserves_finallyE [preserves_rules]:
  assumes "preserves I m" and "\<And>s. I s \<Longrightarrow> I (k s)"
  shows "preserves I (finallyE m k)"
  using assms by (simp add: preserves_iff_wp wp_finallyE) (blast intro: wp_mono)

lemma preserves_if [preserves_rules]:
  "(b \<Longrightarrow> preserves I m) \<Longrightarrow> (\<not> b \<Longrightarrow> preserves I k) \<Longrightarrow> preserves I (if b then m else k)"
  by simp

lemma preserves_option [preserves_rules]:
  "preserves I m \<Longrightarrow> (\<And>x. preserves I (f x)) \<Longrightarrow>
    preserves I (case v of None \<Rightarrow> m | Some x \<Rightarrow> f x)"
  by (cases v) auto

lemma preserves_prod [preserves_rules]: "(\<And>a b. preserves I (f a b)) \<Longrightarrow> preserves I (case p of (a, b) \<Rightarrow> f a b)"
  by (cases p) simp

lemma preserves_Let [preserves_rules]: "(\<And>x. preserves I (f x)) \<Longrightarrow> preserves I (let x = v in f x)"
  by simp

lemma preserves_bool [preserves_rules]:
  "preserves I m \<Longrightarrow> preserves I k \<Longrightarrow> preserves I (case b of True \<Rightarrow> m | False \<Rightarrow> k)"
  by (cases b) auto

lemma preserves_conj: "preserves I m \<Longrightarrow> preserves K m \<Longrightarrow> preserves (\<lambda>s. I s \<and> K s) m"
  by (simp add: preserves_def)

lemma preserves_forE [preserves_rules]:
  "(\<And>x. preserves I (body x)) \<Longrightarrow> preserves I (forE xs body)"
  by (induction xs) (auto intro: preserves_rules)

lemma find_append: "find P (xs @ ys) = (case find P xs of None \<Rightarrow> find P ys | Some x \<Rightarrow> Some x)"
  by (induction xs) auto

lemma length_replace_char [simp]: "length (replace_char a b s) = length s"
  by (simp add: replace_char_def)

lemma replace_char_gone: "a \<noteq> b \<Longrightarrow> a \<notin> set (replace_char a b s)"
  by (auto simp: replace_char_def)

lemma show_nat_nonempty [simp]: "show_nat n \<noteq> []"
  by (subst show_nat.simps) simp

lemma split_on_nonempty [simp]: "split_on c s \<noteq> []"
  by (cases s) (auto split: list.splits)

lemma set_join_with: "set (join_with sep ps) \<subseteq> set sep \<union> \<Union> (set ` set ps)"
  by (induction sep ps rule: join_with.induct) auto

lemma split_on_parts: "p \<in> set (split_on c s) \<Longrightarrow> c \<notin> set p"
  by (induction s arbitrary: p) (auto split: if_splits list.splits)

lemma split_on_append: "c \<notin> set p \<Longrightarrow> split_on c (p @ c # s) = p # split_on c s"
  by (induction p) auto

lemma split_on_id: "c \<notin> set p \<Longrightarrow> split_on c p = [p]"
  by (induction p) auto

lemma split_on_join:
  "ps \<noteq> [] \<Longrightarrow> \<forall>p \<in> set ps. c \<notin> set p \<Longrightarrow> split_on c (join_with [c] ps) = ps"
  by (induction "[c]" ps rule: join_with.induct) (auto simp: split_on_id split_on_append)

end
