(* ===== verification/Sha256.thy ===== *)
theory Sha256
  imports Prelude "HOL-Library.Word"
begin

text \<open>
  The secure hash of the Python standard library (\<open>hashlib.sha256\<close>) as the sources use it:
  every identity of the platform (event, batch, part and object checksums) is the lowercase hex
  digest of a byte string. The compression function is written out over 32-bit words, so no
  property of the hash is assumed anywhere; the facts the components rely on are the length and
  the alphabet of a digest.
\<close>

unbundle bit_operations_syntax

type_synonym u32 = "32 word"

text \<open>The round constants and the initial hash value, in decimal.\<close>

definition sha_k :: "u32 list" where
  "sha_k =
    [1116352408, 1899447441, 3049323471, 3921009573, 961987163, 1508970993,
     2453635748, 2870763221, 3624381080, 310598401, 607225278, 1426881987,
     1925078388, 2162078206, 2614888103, 3248222580, 3835390401, 4022224774,
     264347078, 604807628, 770255983, 1249150122, 1555081692, 1996064986,
     2554220882, 2821834349, 2952996808, 3210313671, 3336571891, 3584528711,
     113926993, 338241895, 666307205, 773529912, 1294757372, 1396182291,
     1695183700, 1986661051, 2177026350, 2456956037, 2730485921, 2820302411,
     3259730800, 3345764771, 3516065817, 3600352804, 4094571909, 275423344,
     430227734, 506948616, 659060556, 883997877, 958139571, 1322822218,
     1537002063, 1747873779, 1955562222, 2024104815, 2227730452, 2361852424,
     2428436474, 2756734187, 3204031479, 3329325298]"

definition sha_h0 :: "u32 list" where
  "sha_h0 = [1779033703, 3144134277, 1013904242, 2773480762, 1359893119, 2600822924, 528734635, 1541459225]"

definition small_sigma0 :: "u32 \<Rightarrow> u32" where
  "small_sigma0 x = word_rotr 7 x XOR word_rotr 18 x XOR drop_bit 3 x"

definition small_sigma1 :: "u32 \<Rightarrow> u32" where
  "small_sigma1 x = word_rotr 17 x XOR word_rotr 19 x XOR drop_bit 10 x"

definition big_sigma0 :: "u32 \<Rightarrow> u32" where
  "big_sigma0 x = word_rotr 2 x XOR word_rotr 13 x XOR word_rotr 22 x"

definition big_sigma1 :: "u32 \<Rightarrow> u32" where
  "big_sigma1 x = word_rotr 6 x XOR word_rotr 11 x XOR word_rotr 25 x"

definition sha_ch :: "u32 \<Rightarrow> u32 \<Rightarrow> u32 \<Rightarrow> u32" where
  "sha_ch x y z = (x AND y) XOR (NOT x AND z)"

definition sha_maj :: "u32 \<Rightarrow> u32 \<Rightarrow> u32 \<Rightarrow> u32" where
  "sha_maj x y z = (x AND y) XOR (x AND z) XOR (y AND z)"

text \<open>The message schedule, grown from the sixteen words of a block.\<close>

fun sha_schedule :: "nat \<Rightarrow> u32 list \<Rightarrow> u32 list" where
  "sha_schedule 0 w = w"
| "sha_schedule (Suc n) w =
     (let t = length w
      in sha_schedule n
           (w @ [small_sigma1 (w ! (t - 2)) + w ! (t - 7) + small_sigma0 (w ! (t - 15)) + w ! (t - 16)]))"

type_synonym sha_state = "u32 \<times> u32 \<times> u32 \<times> u32 \<times> u32 \<times> u32 \<times> u32 \<times> u32"

fun sha_round :: "u32 \<times> u32 \<Rightarrow> sha_state \<Rightarrow> sha_state" where
  "sha_round (k, w) (a, b, c, d, e, f, g, h) =
     (let t1 = h + big_sigma1 e + sha_ch e f g + k + w;
          t2 = big_sigma0 a + sha_maj a b c
      in (t1 + t2, a, b, c, d + t1, e, f, g))"

fun sha_add :: "sha_state \<Rightarrow> sha_state \<Rightarrow> sha_state" where
  "sha_add (a, b, c, d, e, f, g, h) (a', b', c', d', e', f', g', h') =
     (a + a', b + b', c + c', d + d', e + e', f + f', g + g', h + h')"

definition sha_block :: "sha_state \<Rightarrow> u32 list \<Rightarrow> sha_state" where
  "sha_block s block = sha_add s (fold sha_round (zip sha_k (sha_schedule 48 block)) s)"

definition sha_init :: sha_state where
  "sha_init = (sha_h0 ! 0, sha_h0 ! 1, sha_h0 ! 2, sha_h0 ! 3,
               sha_h0 ! 4, sha_h0 ! 5, sha_h0 ! 6, sha_h0 ! 7)"

fun be_word :: "nat list \<Rightarrow> u32" where
  "be_word bs = of_nat (foldl (\<lambda>acc b. acc * 256 + b) 0 bs)"

fun be_bytes :: "nat \<Rightarrow> nat \<Rightarrow> nat list" where
  "be_bytes 0 n = []"
| "be_bytes (Suc k) n = be_bytes k (n div 256) @ [n mod 256]"

definition sha_pad :: "nat list \<Rightarrow> nat list" where
  "sha_pad m = (let l = length m
                in m @ [128] @ replicate ((119 - l mod 64) mod 64) 0 @ be_bytes 8 (8 * l))"

fun chunks :: "nat \<Rightarrow> nat \<Rightarrow> 'a list \<Rightarrow> 'a list list" where
  "chunks 0 k xs = []"
| "chunks (Suc n) k xs = (if xs = [] then [] else take k xs # chunks n k (drop k xs))"

definition sha_blocks :: "nat list \<Rightarrow> u32 list list" where
  "sha_blocks m = (let p = sha_pad m
                   in map (map be_word) (map (chunks 16 4) (chunks (length p) 64 p)))"

definition sha_digest :: "nat list \<Rightarrow> sha_state" where
  "sha_digest m = foldl sha_block sha_init (sha_blocks m)"

fun hex_digit :: "nat \<Rightarrow> char" where
  "hex_digit n = (if n < 10 then char_of (48 + n) else char_of (87 + n))"

fun hex_of :: "nat \<Rightarrow> nat \<Rightarrow> string" where
  "hex_of 0 n = []"
| "hex_of (Suc k) n = hex_of k (n div 16) @ [hex_digit (n mod 16)]"

fun state_words :: "sha_state \<Rightarrow> u32 list" where
  "state_words (a, b, c, d, e, f, g, h) = [a, b, c, d, e, f, g, h]"

definition sha256_hex :: "bytes \<Rightarrow> string" where
  "sha256_hex data = concat (map (\<lambda>w. hex_of 8 (unat w)) (state_words (sha_digest (map of_char data))))"

lemma length_hex_of [simp]: "length (hex_of k n) = k"
  by (induction k arbitrary: n) simp_all

lemma is_hex_hex_digit: "n < 16 \<Longrightarrow> is_hex (hex_digit n)"
  by (auto simp: is_hex_def Let_def)

lemma list_all_is_hex_hex_of: "list_all is_hex (hex_of k n)"
  by (induction k arbitrary: n) (simp_all add: is_hex_hex_digit del: hex_digit.simps)

text \<open>A digest is always 64 lowercase hexadecimal characters.\<close>

lemma length_sha256_hex [simp]: "length (sha256_hex data) = 64"
  by (cases "sha_digest (map of_char data)" rule: state_words.cases) (simp add: sha256_hex_def)

lemma sha256_hex_nonempty [simp]: "sha256_hex data \<noteq> []"
  using length_sha256_hex [of data] by force

lemma is_hex_sha256_hex: "list_all is_hex (sha256_hex data)"
  by (cases "sha_digest (map of_char data)" rule: state_words.cases) (simp add: sha256_hex_def list_all_is_hex_hex_of)

section \<open>Hashing a stream\<close>

text \<open>
  A \<open>hashlib\<close> hash object: the state after the full blocks fed so far, the rest of the last block
  and the number of bytes fed. \<open>hexdigest\<close> pads that rest.
\<close>

definition message_blocks :: "nat list \<Rightarrow> u32 list list" where
  "message_blocks p = map (map be_word) (map (chunks 16 4) (chunks (length p) 64 p))"

record sha_object =
  hs_state :: sha_state
  hs_rest :: "nat list"
  hs_count :: nat

definition sha_new :: sha_object where
  "sha_new = \<lparr>hs_state = sha_init, hs_rest = [], hs_count = 0\<rparr>"

definition sha_update :: "sha_object \<Rightarrow> bytes \<Rightarrow> sha_object" where
  "sha_update h chunk =
     (let data = hs_rest h @ map of_char chunk; k = length data div 64 * 64 in
      \<lparr>hs_state = foldl sha_block (hs_state h) (message_blocks (take k data)), hs_rest = drop k data,
       hs_count = hs_count h + length chunk\<rparr>)"

definition sha_hexdigest :: "sha_object \<Rightarrow> string" where
  "sha_hexdigest h =
     (let n = hs_count h;
          final = foldl sha_block (hs_state h)
            (message_blocks (hs_rest h @ [128] @ replicate ((119 - n mod 64) mod 64) 0 @ be_bytes 8 (8 * n))) in
      concat (map (\<lambda>w. hex_of 8 (unat w)) (state_words final)))"

text \<open>\<open>while chunk := source.read(chunk_size): digest.update(chunk)\<close>.\<close>

function sha_feed :: "nat \<Rightarrow> bytes \<Rightarrow> sha_object \<Rightarrow> sha_object" where
  "sha_feed n data h = (let chunk = take n data in if chunk = [] then h else sha_feed n (drop n data) (sha_update h chunk))"
  by auto
termination by (relation "measure (\<lambda>(n, data, h). length data)") (auto simp: take_eq_Nil)

declare sha_feed.simps [simp del]

definition sha256_file :: "nat \<Rightarrow> bytes \<Rightarrow> string" where
  "sha256_file chunk_size data = sha_hexdigest (sha_feed chunk_size data sha_new)"

text \<open>What an object stands for: the bytes fed so far.\<close>

definition fed :: "nat list \<Rightarrow> sha_object \<Rightarrow> bool" where
  "fed m h \<longleftrightarrow> (\<exists>whole rest. m = whole @ rest \<and> length whole mod 64 = 0 \<and> hs_rest h = rest
     \<and> hs_state h = foldl sha_block sha_init (message_blocks whole) \<and> hs_count h = length m)"

lemma chunks_fuel: "0 < k \<Longrightarrow> length xs \<le> n \<Longrightarrow> length xs \<le> m \<Longrightarrow> chunks n k xs = chunks m k xs"
proof (induction n arbitrary: xs m)
  case (Suc n)
  then show ?case by (cases m) auto
next
  case 0
  then show ?case by (cases m) auto
qed

lemma message_blocks_append:
  "length xs mod 64 = 0 \<Longrightarrow> message_blocks (xs @ ys) = message_blocks xs @ message_blocks ys"
proof (induction "length xs" arbitrary: xs rule: less_induct)
  case less
  show ?case
  proof (cases "xs = []")
    case True
    then show ?thesis by (simp add: message_blocks_def)
  next
    case False
    then have l: "64 \<le> length xs" using less.prems by (metis length_0_conv linorder_not_less mod_less)
    let ?t = "drop 64 xs"
    have step: "message_blocks p = map be_word (chunks 16 4 (take 64 p)) # message_blocks (drop 64 p)" if "p \<noteq> []" for p
    proof -
      obtain a q where p: "p = a # q" using \<open>p \<noteq> []\<close> by (cases p) auto
      have "chunks (length q) 64 (drop 64 p) = chunks (length (drop 64 p)) 64 (drop 64 p)"
        by (rule chunks_fuel) (simp_all add: p)
      then show ?thesis by (simp add: message_blocks_def p del: chunks.simps) (simp add: p)
    qed
    have "message_blocks (?t @ ys) = message_blocks ?t @ message_blocks ys"
      by (rule less.hyps) (use less.prems l in \<open>auto simp: mod_if le_mod_geq\<close>)
    then show ?thesis using step [OF False] step [of "xs @ ys"] False l by simp
  qed
qed

lemma fed_new: "fed [] sha_new"
  by (simp add: fed_def sha_new_def message_blocks_def)

lemma fed_update: "fed m h \<Longrightarrow> fed (m @ map of_char chunk) (sha_update h chunk)"
proof -
  assume "fed m h"
  then obtain whole rest where m: "m = whole @ rest" "length whole mod 64 = 0" "hs_rest h = rest"
    "hs_state h = foldl sha_block sha_init (message_blocks whole)" "hs_count h = length m"
    by (auto simp: fed_def)
  define data where "data = rest @ map of_char chunk"
  define k where "k = length data div 64 * 64"
  have k: "k \<le> length data" "k mod 64 = 0" unfolding k_def by simp_all
  have h: "sha_update h chunk = \<lparr>hs_state = foldl sha_block (hs_state h) (message_blocks (take k data)), hs_rest = drop k data,
      hs_count = length m + length chunk\<rparr>"
    using m(3,5) by (simp add: sha_update_def data_def k_def Let_def)
  have len: "length (whole @ take k data) mod 64 = 0" using m(2) k by auto
  have state: "hs_state (sha_update h chunk) = foldl sha_block sha_init (message_blocks (whole @ take k data))"
    by (simp add: h m(4) message_blocks_append [OF m(2)])
  have split: "m @ map of_char chunk = (whole @ take k data) @ drop k data"
    unfolding append.assoc append_take_drop_id by (simp add: m(1) data_def)
  show ?thesis unfolding fed_def
    by (rule exI, rule exI, rule conjI [OF split conjI [OF len conjI [OF _ conjI [OF state]]]]) (simp_all add: h)
qed

lemma sha_feed_fed: "0 < n \<Longrightarrow> fed m h \<Longrightarrow> fed (m @ map of_char data) (sha_feed n data h)"
proof (induction n data h arbitrary: m rule: sha_feed.induct)
  case (1 n data h)
  show ?case
  proof (cases "take n data = []")
    case False
    from "1.IH" [OF refl False "1.prems"(1) fed_update [OF "1.prems"(2)]] False show ?thesis
      by (simp add: sha_feed.simps [of n data] Let_def flip: map_append)
  next
    case True
    then have "data = []" using "1.prems" by auto
    with "1.prems" show ?thesis by (simp add: sha_feed.simps)
  qed
qed

lemma fed_digest: "fed (map of_char data) h \<Longrightarrow> sha_hexdigest h = sha256_hex data"
proof -
  assume "fed (map of_char data) h"
  then obtain whole rest where m: "map of_char data = whole @ rest" "length whole mod 64 = 0" "hs_rest h = rest"
    "hs_state h = foldl sha_block sha_init (message_blocks whole)" "hs_count h = length data"
    by (auto simp: fed_def)
  have "sha_blocks (whole @ rest) = message_blocks (sha_pad (whole @ rest))"
    by (simp add: sha_blocks_def message_blocks_def Let_def)
  also have "\<dots> = message_blocks whole @ message_blocks (rest @ [128] @ replicate ((119 - length data mod 64) mod 64) 0
      @ be_bytes 8 (8 * length data))"
    using message_blocks_append [OF m(2)] m(1) by (metis append.assoc length_map sha_pad_def)
  finally show ?thesis
    using m by (simp add: sha_hexdigest_def sha256_hex_def sha_digest_def Let_def)
qed

lemma sha256_file_hex: "0 < n \<Longrightarrow> sha256_file n data = sha256_hex data"
  unfolding sha256_file_def using sha_feed_fed [OF _ fed_new, of n data] by (intro fed_digest) simp

text \<open>
  C36. Streaming checksums: reading a file in chunks of any positive size and feeding each chunk to the
  hash terminates with exactly the digest of the whole content.
\<close>

theorem sha256_file_streams: "sha256_file (Suc n) data = sha256_hex data"
  by (simp add: sha256_file_hex)

end
