(* ===== verification/Py_Time.thy ===== *)
theory Py_Time
  imports Prelude
begin

text \<open>
  The textual form of UTC timestamps: \<open>utc_isoformat\<close> of the CDC consumer and \<open>utc_iso\<close> of the
  Silver models both produce \<open>datetime.isoformat()\<close> with \<open>+00:00\<close> replaced by \<open>Z\<close>. The
  manifests store this text and order by it, so its order matters: \<open>isoformat\<close> omits the
  fraction when the microseconds are zero.
\<close>

definition civil_from_days :: "int \<Rightarrow> int \<times> int \<times> int" where
  "civil_from_days days =
     (let z = days + 719468; era = z div 146097; doe = z mod 146097;
          yoe = (doe - doe div 1460 + doe div 36524 - doe div 146096) div 365;
          doy = doe - (365 * yoe + yoe div 4 - yoe div 100);
          mp = (5 * doy + 2) div 153;
          d = doy - (153 * mp + 2) div 5 + 1;
          m = (if mp < 10 then mp + 3 else mp - 9)
      in (yoe + era * 400 + (if m \<le> 2 then 1 else 0), m, d))"

definition pad_int :: "nat \<Rightarrow> int \<Rightarrow> string" where
  "pad_int k i = (let s = show_nat (nat i) in replicate (k - length s) (CHR ''0'') @ s)"

definition micros_per_second :: int where
  "micros_per_second = 1000000"

definition iso_date_of_days :: "int \<Rightarrow> string" where
  "iso_date_of_days days =
     (case civil_from_days days of (y, m, d) \<Rightarrow>
        pad_int 4 y @ ''-'' @ pad_int 2 m @ ''-'' @ pad_int 2 d)"

text \<open>The calendar date of an instant, as \<open>datetime.date().isoformat()\<close> prints it.\<close>

definition iso_date :: "instant \<Rightarrow> string" where
  "iso_date t = iso_date_of_days (t div (86400 * micros_per_second))"

definition iso_seconds :: "int \<Rightarrow> string" where
  "iso_seconds secs =
     (let sod = secs mod 86400
      in iso_date_of_days (secs div 86400) @ ''T'' @ pad_int 2 (sod div 3600) @ '':''
         @ pad_int 2 (sod mod 3600 div 60) @ '':'' @ pad_int 2 (sod mod 60))"

definition utc_isoformat :: "instant \<Rightarrow> string" where
  "utc_isoformat t =
     iso_seconds (t div micros_per_second)
     @ (let us = t mod micros_per_second in if us = 0 then [] else CHR ''.'' # pad_int 6 us)
     @ ''Z''"

section \<open>Times from numbers\<close>

text \<open>Integer division rounded to the nearest integer, ties to the even one.\<close>

definition half_even_div :: "int \<Rightarrow> int \<Rightarrow> int" where
  "half_even_div a b = (let q = a div b; r = a mod b in if b < 2 * r \<or> 2 * r = b \<and> odd q then q + 1 else q)"

text \<open>\<open>n.bit_length()\<close> of a number that is not negative, up to 54.\<close>

definition bit_length :: "int \<Rightarrow> nat" where
  "bit_length n = length (takeWhile (\<lambda>k. 2 ^ k \<le> n) [0..<54])"

text \<open>The years 1 to 9999 that a \<open>datetime\<close> can hold.\<close>

definition instant_in_range :: "instant \<Rightarrow> bool" where
  "instant_in_range t \<longleftrightarrow> - 62135596800 * micros_per_second \<le> t \<and> t < 253402300800 * micros_per_second"

text \<open>
  \<open>datetime.fromtimestamp(n / d, tz=UTC)\<close>: the quotient is rounded to a binary64 number with 53
  significant bits, and that to whole microseconds, both to even. Quotients of more than 53 bits
  are far outside the range of years.
\<close>

definition from_timestamp :: "int \<Rightarrow> int \<Rightarrow> instant result" where
  "from_timestamp n d =
     (let m = \<bar>n\<bar>; bits = bit_length (m div d);
          us = (if bits = 0 then half_even_div (m * 1000000) d
                else half_even_div (half_even_div (m * 2 ^ (53 - bits)) d * 1000000) (2 ^ (53 - bits)));
          t = (if n < 0 then - us else us)
      in if bits \<le> 53 \<and> instant_in_range t then Inr t else Inl (Value_Error ''year is out of range''))"

text \<open>
  Rounding through binary64 is exact for whole milliseconds and microseconds less than \<open>2^33\<close>
  seconds from the epoch, that is until the year 2242.
\<close>

lemma half_even_div_bound:
  assumes "0 < b"
  shows "\<bar>2 * (half_even_div a b * b - a)\<bar> \<le> b"
proof -
  have e: "a = a div b * b + a mod b" and r: "0 \<le> a mod b" "a mod b < b" using assms by simp_all
  define q where "q = a div b"
  define r where "r = a mod b"
  have a: "a = q * b + r" "0 \<le> r" "r < b" using e r unfolding q_def r_def by simp_all
  have "half_even_div a b = (if b < 2 * r \<or> 2 * r = b \<and> odd q then q + 1 else q)"
    by (simp add: half_even_div_def Let_def q_def r_def)
  then show ?thesis using a by (auto simp: algebra_simps)
qed

lemma half_even_div_near:
  assumes "\<bar>2 * (a - x * b)\<bar> < b"
  shows "half_even_div a b = x"
proof -
  have b: "0 < b" using assms by simp
  have "\<bar>2 * (half_even_div a b * b - x * b)\<bar> < 2 * b"
    using assms half_even_div_bound [OF b, of a] by (simp add: abs_if split: if_splits)
  then have "\<bar>half_even_div a b - x\<bar> * b < 1 * b"
    using b by (simp add: abs_mult left_diff_distrib [symmetric])
  then show ?thesis using b by (simp only: mult_less_cancel_right) simp
qed

lemma bit_length_le: "q < 2 ^ k \<Longrightarrow> k < 54 \<Longrightarrow> bit_length q \<le> k"
proof (rule ccontr)
  assume q: "q < 2 ^ k" and k: "k < 54" and "\<not> bit_length q \<le> k"
  then have "k < length (takeWhile (\<lambda>k. 2 ^ k \<le> q) [0..<54])" by (simp add: bit_length_def)
  then have "2 ^ k \<le> q"
    using nth_mem set_takeWhileD takeWhile_nth k by (metis (mono_tags, lifting) add_0 nth_upt)
  with q show False by simp
qed

lemma from_timestamp_exact:
  assumes "d * c = 1000000" and "0 < d" and "\<bar>n\<bar> < d * 2 ^ 33"
  shows "from_timestamp n d = Inr (n * c)"
proof -
  define m where "m = \<bar>n\<bar>"
  define L where "L = bit_length (m div d)"
  have m: "0 \<le> m" "m < d * 2 ^ 33" using assms(3) by (simp_all add: m_def)
  have q: "m div d < 2 ^ 33"
    using m(2) assms(2) by (metis div_mult_mod_eq linorder_not_le mult.commute mult_left_mono not_less pos_mod_sign add_increasing2 less_le_not_le zero_less_imp_eq_int)
  then have L: "L \<le> 33" unfolding L_def by (intro bit_length_le) simp_all
  have c: "0 < c" using assms(1,2) by (metis mult_pos_neg not_less_iff_gr_or_eq mult_zero_right zero_less_numeral less_asym)
  define us where "us = (if L = 0 then half_even_div (m * 1000000) d
     else half_even_div (half_even_div (m * 2 ^ (53 - L)) d * 1000000) (2 ^ (53 - L)))"
  have us: "us = m * c"
  proof (cases "L = 0")
    case True
    then show ?thesis unfolding us_def using assms(2)
      by (simp add: assms(1) [symmetric]) (rule half_even_div_near, simp add: algebra_simps)
  next
    case False
    define k where "k = 53 - L"
    define M where "M = half_even_div (m * 2 ^ k) d"
    have k: "(1000000 :: int) < 2 ^ k"
    proof -
      have "(1000000 :: int) < 2 ^ 20" by simp
      also have "\<dots> \<le> 2 ^ k" using L unfolding k_def by (intro power_increasing) simp_all
      finally show ?thesis .
    qed
    have "\<bar>2 * (M * d - m * 2 ^ k)\<bar> \<le> d" unfolding M_def by (rule half_even_div_bound [OF assms(2)])
    then have "c * \<bar>2 * (M * d - m * 2 ^ k)\<bar> \<le> c * d" using c by (intro mult_left_mono) simp_all
    moreover have "\<bar>2 * (M * 1000000 - m * c * 2 ^ k)\<bar> = c * \<bar>2 * (M * d - m * 2 ^ k)\<bar>"
    proof -
      have "2 * (M * 1000000 - m * c * 2 ^ k) = c * (2 * (M * d - m * 2 ^ k))"
        by (simp add: assms(1) [symmetric] algebra_simps)
      then show ?thesis using c by (simp only: abs_mult)
    qed
    ultimately have "\<bar>2 * (M * 1000000 - m * c * 2 ^ k)\<bar> < 2 ^ k"
      using k assms(1) by (simp add: mult.commute)
    then have "half_even_div (M * 1000000) (2 ^ k) = m * c" by (rule half_even_div_near)
    then show ?thesis using False by (simp add: us_def M_def k_def)
  qed
  have "(if n < 0 then - us else us) = n * c" by (simp add: us m_def abs_if)
  moreover have "instant_in_range (n * c)"
  proof -
    have "\<bar>n\<bar> * c < d * 2 ^ 33 * c" using assms(3) c by (rule mult_strict_right_mono)
    also have "\<dots> = 2 ^ 33 * (d * c)" by (simp only: ac_simps)
    finally have "\<bar>n * c\<bar> < 2 ^ 33 * 1000000" using c assms(1) by (simp add: abs_mult)
    then show ?thesis by (simp add: instant_in_range_def micros_per_second_def abs_less_iff)
  qed
  ultimately show ?thesis
    using L unfolding from_timestamp_def Let_def m_def [symmetric] L_def [symmetric] us_def [symmetric] by simp
qed

section \<open>Times from text\<close>

text \<open>
  \<open>date.fromisoformat\<close> and \<open>datetime.fromisoformat\<close> as CPython 3.11 and 3.12 parse them: calendar
  and week dates, basic and extended, a time of up to three components with a fraction, and an
  offset. A date is a number of days since the epoch.
\<close>

definition days_from_civil :: "int \<Rightarrow> int \<Rightarrow> int \<Rightarrow> int" where
  "days_from_civil y m d =
     (let y1 = (if m \<le> 2 then y - 1 else y); era = y1 div 400; yoe = y1 mod 400;
          doy = (153 * (if m > 2 then m - 3 else m + 9) + 2) div 5 + d - 1;
          doe = yoe * 365 + yoe div 4 - yoe div 100 + doy
      in era * 146097 + doe - 719468)"

definition leap_year :: "int \<Rightarrow> bool" where
  "leap_year y \<longleftrightarrow> y mod 4 = 0 \<and> (y mod 100 \<noteq> 0 \<or> y mod 400 = 0)"

definition days_in_month :: "int \<Rightarrow> int \<Rightarrow> int" where
  "days_in_month y m =
     (if m = 2 then (if leap_year y then 29 else 28)
      else if m \<in> {4, 6, 9, 11} then 30 else 31)"

definition ascii_digit :: "char \<Rightarrow> bool" where
  "ascii_digit c \<longleftrightarrow> 48 \<le> (of_char c :: nat) \<and> (of_char c :: nat) \<le> 57"

definition digits_value :: "nat \<Rightarrow> string \<Rightarrow> int option" where
  "digits_value n ds =
     (if length ds = n \<and> list_all ascii_digit ds
      then Some (foldl (\<lambda>a c. 10 * a + int (of_char c - 48)) 0 ds) else None)"

definition civil_days :: "int \<Rightarrow> int \<Rightarrow> int \<Rightarrow> int option" where
  "civil_days y m d = (if 1 \<le> y \<and> y \<le> 9999 \<and> 1 \<le> m \<and> m \<le> 12 \<and> 1 \<le> d \<and> d \<le> days_in_month y m
     then Some (days_from_civil y m d) else None)"

definition week_days :: "int \<Rightarrow> int \<Rightarrow> int \<Rightarrow> int option" where
  "week_days y w d =
     (let jan1 = days_from_civil y 1 1; weekday = (jan1 + 3) mod 7;
          monday = jan1 - weekday + (if 3 < weekday then 7 else 0); day = monday + (w - 1) * 7 + d - 1
      in if 1 \<le> y \<and> y \<le> 9999 \<and> 1 \<le> d \<and> d \<le> 7
            \<and> (1 \<le> w \<and> w \<le> 52 \<or> w = 53 \<and> (weekday = 3 \<or> weekday = 2 \<and> leap_year y))
            \<and> days_from_civil 1 1 1 \<le> day \<and> day \<le> days_from_civil 9999 12 31
         then Some day else None)"

text \<open>The separator that extended formats have between the fields.\<close>

definition after_dash :: "bool \<Rightarrow> string \<Rightarrow> string option" where
  "after_dash sep s = (if \<not> sep then Some s else if take 1 s = ''-'' then Some (drop 1 s) else None)"

definition iso_date_fields :: "string \<Rightarrow> int option" where
  "iso_date_fields s =
     (let sep = (take 1 (drop 4 s) = ''-''); rest = (if sep then drop 5 s else drop 4 s) in
      case digits_value 4 (take 4 s) of
        None \<Rightarrow> None
      | Some y \<Rightarrow>
          if take 1 rest = ''W''
          then (case digits_value 2 (take 2 (drop 1 rest)) of
              None \<Rightarrow> None
            | Some w \<Rightarrow>
                if drop 3 rest = [] then week_days y w 1
                else (case after_dash sep (drop 3 rest) of
                    None \<Rightarrow> None
                  | Some t \<Rightarrow> (case digits_value 1 (take 1 t) of None \<Rightarrow> None | Some d \<Rightarrow> week_days y w d)))
          else (case digits_value 2 (take 2 rest) of
              None \<Rightarrow> None
            | Some m \<Rightarrow>
                (case after_dash sep (drop 2 rest) of
                   None \<Rightarrow> None
                 | Some t \<Rightarrow> (case digits_value 2 (take 2 t) of None \<Rightarrow> None | Some d \<Rightarrow> civil_days y m d))))"

definition date_fromisoformat :: "string \<Rightarrow> int result" where
  "date_fromisoformat s =
     (case (if length s \<in> {7, 8, 10} then iso_date_fields s else None) of
        Some d \<Rightarrow> Inr d
      | None \<Rightarrow> Inl (Value_Error (''Invalid isoformat string: '' @ s)))"

text \<open>Where the date of a \<open>datetime\<close> text ends; the text has at least seven characters.\<close>

definition separator_location :: "string \<Rightarrow> nat option" where
  "separator_location s =
     (if length s = 7 then Some 7
      else if s ! 4 = CHR ''-''
      then if s ! 5 = CHR ''W''
           then if 8 < length s \<and> s ! 8 = CHR ''-''
                then if length s = 9 then None
                     else if 10 < length s \<and> ascii_digit (s ! 10) then Some 8 else Some 10
                else Some 8
           else Some 10
      else if s ! 4 = CHR ''W''
      then (let i = 7 + length (takeWhile ascii_digit (drop 7 s)) in
            Some (if i < 9 then i else if even i then 7 else 8))
      else Some 8)"

text \<open>A fraction in microseconds, and whether text is left after its digits.\<close>

definition iso_fraction :: "string \<Rightarrow> (int \<times> bool) option" where
  "iso_fraction s =
     (let k = min 6 (length s) in
      map_option (\<lambda>v. (v * 10 ^ (6 - k), \<not> list_all ascii_digit (drop k s))) (digits_value k (take k s)))"

text \<open>
  Components of two digits from the \<open>i\<close>-th on, then a fraction: seconds, microseconds, and whether
  text is left. The separator of the first pair decides the format.
\<close>

definition unit_seconds :: "nat \<Rightarrow> int" where
  "unit_seconds i = (if i = 0 then 3600 else if i = 1 then 60 else 1)"

function iso_clock :: "nat \<Rightarrow> bool \<Rightarrow> string \<Rightarrow> (int list \<times> int \<times> bool) option" where
  "iso_clock i sep0 s =
     (case digits_value 2 (take 2 s) of
        None \<Rightarrow> None
      | Some v \<Rightarrow>
          (let rest = drop 2 s; sep = (if i = 0 then take 1 rest = '':'' else sep0) in
           if length rest \<le> 1 then Some ([v], 0, rest \<noteq> [])
           else if sep \<and> hd rest \<noteq> CHR '':'' \<and> hd rest \<noteq> CHR ''.'' \<and> hd rest \<noteq> CHR '','' then None
           else (let mark = (hd rest = CHR ''.'' \<or> hd rest = CHR '','');
                     next = (if sep \<or> mark then drop 1 rest else rest) in
                 if mark \<or> 2 \<le> i
                 then map_option (\<lambda>(us, left). ([v], us, left)) (iso_fraction next)
                 else map_option (\<lambda>(vs, us, left). (v # vs, us, left)) (iso_clock (Suc i) sep next))))"
  by pat_completeness auto
termination
  by (relation "measure (\<lambda>(i, _, _). 3 - i)") auto

definition clock_seconds :: "int list \<Rightarrow> int" where
  "clock_seconds vs = sum_list (map2 (\<lambda>i v. unit_seconds i * v) [0..<length vs] vs)"

definition clock_valid :: "int list \<Rightarrow> bool" where
  "clock_valid vs \<longleftrightarrow> list_all2 (\<lambda>i v. v < (if i = 0 then 24 else 60)) [0..<length vs] vs"

text \<open>The offset of a time zone in microseconds; a fraction alone counts as none.\<close>

definition iso_offset :: "string \<Rightarrow> int option" where
  "iso_offset s =
     (case iso_clock 0 False s of
        Some (vs, us, False) \<Rightarrow>
          (let secs = clock_seconds vs; off = (if secs = 0 then 0 else secs * micros_per_second + us)
           in if off < 86400 * micros_per_second then Some off else None)
      | _ \<Rightarrow> None)"

text \<open>A parsed time: local microseconds of the day and the offset, when there is one.\<close>

definition iso_time_fields :: "string \<Rightarrow> (int \<times> int option) option" where
  "iso_time_fields s =
     (let body = takeWhile (\<lambda>c. c \<noteq> CHR ''+'' \<and> c \<noteq> CHR ''-'' \<and> c \<noteq> CHR ''Z'') s; zone = drop (length body) s in
      case iso_clock 0 False body of
        None \<Rightarrow> None
      | Some (vs, us, left) \<Rightarrow>
          if \<not> clock_valid vs \<or> zone = [] \<and> left then None
          else (let t = clock_seconds vs * micros_per_second + us in
                case zone of
                  [] \<Rightarrow> Some (t, None)
                | c # z \<Rightarrow>
                    if c = CHR ''Z'' then (if z = [] then Some (t, Some 0) else None)
                    else map_option (\<lambda>off. (t, Some (if c = CHR ''-'' then - off else off))) (iso_offset z)))"

text \<open>A \<open>datetime\<close>: its local time in microseconds since the epoch, and its offset from UTC.\<close>

datatype pydatetime = Naive int | Aware int int

definition iso_datetime :: "string \<Rightarrow> pydatetime option" where
  "iso_datetime s =
     (if length s < 7 then None
      else (case separator_location s of
          None \<Rightarrow> None
        | Some k \<Rightarrow>
            (case (if k \<in> {7, 8, 10} then iso_date_fields (take k s) else None) of
               None \<Rightarrow> None
             | Some d \<Rightarrow>
                 (let midnight = d * 86400 * micros_per_second in
                  if length s \<le> k then Some (Naive midnight)
                  else (case iso_time_fields (drop (Suc k) s) of
                      None \<Rightarrow> None
                    | Some (t, None) \<Rightarrow> Some (Naive (midnight + t))
                    | Some (t, Some off) \<Rightarrow> Some (Aware (midnight + t) off))))))"

definition datetime_fromisoformat :: "string \<Rightarrow> pydatetime result" where
  "datetime_fromisoformat s =
     (case iso_datetime s of
        Some d \<Rightarrow> Inr d
      | None \<Rightarrow> Inl (Value_Error (''Invalid isoformat string: '' @ s)))"

text \<open>\<open>text.replace("Z", "+00:00")\<close>.\<close>

definition replace_zulu :: "string \<Rightarrow> string" where
  "replace_zulu s = concat (map (\<lambda>c. if c = CHR ''Z'' then ''+00:00'' else [c]) s)"

text \<open>\<open>value.astimezone(UTC)\<close> of an aware time.\<close>

definition astimezone_utc :: "int \<Rightarrow> int \<Rightarrow> instant result" where
  "astimezone_utc local off =
     (if instant_in_range (local - off) then Inr (local - off) else Inl (Overflow_Error ''date value out of range''))"

text \<open>
  \<open>datetime.fromisoformat(text.replace("Z", "+00:00"))\<close> of a stored timestamp, as the instant it
  denotes; a text without an offset, which no writer of the sources produces, is refused here.
\<close>

definition parse_utc :: "string \<Rightarrow> instant result" where
  "parse_utc text =
     bindR (datetime_fromisoformat (replace_zulu text)) (\<lambda>d. case d of
       Naive _ \<Rightarrow> Inl (Value_Error (''Invalid isoformat string: '' @ text))
     | Aware local off \<Rightarrow> astimezone_utc local off)"

section \<open>Order of the stored text\<close>

lemma append_less_append: "(ys :: string) < zs \<Longrightarrow> xs @ ys < xs @ zs"
  by (induction xs) simp_all

text \<open>
  A whole second is printed after every later instant of the same second in text order: the
  order of the stored text is not the order of time.
\<close>

lemma utc_isoformat_text_order:
  assumes "t mod micros_per_second = 0" and "0 < u" and "u < micros_per_second"
  shows "utc_isoformat (t + u) < utc_isoformat t"
proof -
  have pos: "0 < micros_per_second" by (simp add: micros_per_second_def)
  have dm: "(t + u) div micros_per_second = t div micros_per_second"
    "(t + u) mod micros_per_second = u"
  proof -
    have "t = micros_per_second * (t div micros_per_second)"
      using assms(1) by (simp add: minus_mod_eq_mult_div [symmetric])
    then obtain q where q: "t = micros_per_second * q" by blast
    show "(t + u) div micros_per_second = t div micros_per_second"
      using assms pos by (simp add: q div_add1_eq)
    show "(t + u) mod micros_per_second = u"
      using assms by (simp add: q)
  qed
  have "CHR ''.'' # pad_int 6 u @ ''Z'' < ''Z''" by (simp add: less_char_def)
  then have "iso_seconds (t div micros_per_second) @ CHR ''.'' # pad_int 6 u @ ''Z''
      < iso_seconds (t div micros_per_second) @ ''Z''"
    by (rule append_less_append)
  with assms show ?thesis by (simp add: utc_isoformat_def dm)
qed

end
