(* ===== verification/Cdc_Models.thy ===== *)
theory Cdc_Models
  imports Sha256 Py_Time "HOL-Library.Multiset"
begin

text \<open>
  The typed records of \<open>ingestion/cdc_consumer/models.py\<close>: Kafka coordinates, Bronze events,
  poison evidence, batches and manifest rows, with the deterministic identities and
  \<open>build_batch\<close>, the only constructor of a batch. Record fields carry a short prefix of the
  class (\<open>be_\<close> for \<open>BronzeEvent\<close>, \<open>cb_\<close> for \<open>CdcBatch\<close>, and so on).
\<close>

datatype BatchStatus = COLLECTING | SERIALIZING | UPLOADING | UPLOADED | COMMITTED | FAILED

datatype ParseKind = EVENT | HEARTBEAT | POISON

datatype TopicPartitionKey = TopicPartitionKey (tp_topic: string) (tp_partition: int)

instantiation TopicPartitionKey :: linorder
begin

definition less_eq_TopicPartitionKey :: "TopicPartitionKey \<Rightarrow> TopicPartitionKey \<Rightarrow> bool" where
  "less_eq_TopicPartitionKey a b \<longleftrightarrow> (tp_topic a, tp_partition a) \<le> (tp_topic b, tp_partition b)"

definition less_TopicPartitionKey :: "TopicPartitionKey \<Rightarrow> TopicPartitionKey \<Rightarrow> bool" where
  "less_TopicPartitionKey a b \<longleftrightarrow> (tp_topic a, tp_partition a) < (tp_topic b, tp_partition b)"

instance
  by standard
    (auto simp: less_eq_TopicPartitionKey_def less_TopicPartitionKey_def TopicPartitionKey.expand)

end

record RawKafkaMessage =
  rm_topic :: string
  rm_partition :: int
  rm_offset :: int
  rm_key :: "bytes option"
  rm_value :: "bytes option"
  rm_timestamp_ms :: "int option"

definition raw_topic_partition :: "RawKafkaMessage \<Rightarrow> TopicPartitionKey" where
  "raw_topic_partition m = TopicPartitionKey (rm_topic m) (rm_partition m)"

record BronzeEvent =
  be_event_id :: string
  be_entity_name :: string
  be_operation :: string
  be_is_snapshot :: bool
  be_is_deleted :: bool
  be_is_tombstone :: bool
  be_event_key_json :: "string option"
  be_before_json :: "string option"
  be_after_json :: "string option"
  be_source_metadata_json :: "string option"
  be_source_lsn :: "int option"
  be_source_tx_id :: "int option"
  be_source_ts_ms :: "int option"
  be_connector_ts_ms :: "int option"
  be_kafka_topic :: string
  be_kafka_partition :: int
  be_kafka_offset :: int
  be_kafka_message_ts_ms :: "int option"
  be_ingested_at :: instant
  be_event_date :: string
  be_schema_version :: string
  be_raw_event_json :: "string option"

definition event_topic_partition :: "BronzeEvent \<Rightarrow> TopicPartitionKey" where
  "event_topic_partition e = TopicPartitionKey (be_kafka_topic e) (be_kafka_partition e)"

record PoisonEvent =
  pe_event_id :: string
  pe_error_code :: string
  pe_error_message :: string
  pe_original_topic :: string
  pe_original_partition :: int
  pe_original_offset :: int
  pe_original_key :: "string option"
  pe_raw_value :: "string option"
  pe_failed_at :: instant
  pe_retry_count :: int
  pe_encoding :: string

record ParsedMessage =
  pm_kind :: ParseKind
  pm_raw :: RawKafkaMessage
  pm_event :: "BronzeEvent option"
  pm_poison :: "PoisonEvent option"

record CdcBatch =
  cb_batch_id :: string
  cb_topic :: string
  cb_partition :: int
  cb_offset_start :: int
  cb_offset_end :: int
  cb_entity_name :: string
  cb_event_date :: string
  cb_schema_version :: string
  cb_events :: "BronzeEvent list"

definition next_offset :: "CdcBatch \<Rightarrow> int" where
  "next_offset b = cb_offset_end b + 1"

definition record_count :: "CdcBatch \<Rightarrow> int" where
  "record_count b = int (length (cb_events b))"

definition contains_snapshot :: "CdcBatch \<Rightarrow> bool" where
  "contains_snapshot b = list_ex be_is_snapshot (cb_events b)"

definition contains_delete :: "CdcBatch \<Rightarrow> bool" where
  "contains_delete b = list_ex (\<lambda>e. be_is_deleted e \<and> \<not> be_is_tombstone e) (cb_events b)"

definition contains_tombstone :: "CdcBatch \<Rightarrow> bool" where
  "contains_tombstone b = list_ex be_is_tombstone (cb_events b)"

record BatchManifestRecord =
  mr_batch_id :: string
  mr_consumer_group :: string
  mr_topic :: string
  mr_partition :: int
  mr_offset_start :: int
  mr_offset_end :: int
  mr_status :: BatchStatus
  mr_record_count :: int
  mr_schema_version :: string
  mr_checksum_sha256 :: "string option"
  mr_object_uri :: "string option"
  mr_created_at :: instant
  mr_upload_started_at :: "instant option"
  mr_uploaded_at :: "instant option"
  mr_committed_at :: "instant option"
  mr_error_code :: "string option"
  mr_error_message :: "string option"
  mr_retry_count :: int

record ConsumerRunResult =
  polled_count :: int
  event_count :: int
  poison_count :: int
  heartbeat_count :: int
  batch_count :: int
  committed_count :: int
  result_dry_run :: bool

definition deterministic_event_id :: "string \<Rightarrow> int \<Rightarrow> int \<Rightarrow> string" where
  "deterministic_event_id topic part offset =
     sha256_hex (topic @ '':'' @ show_int part @ '':'' @ show_int offset)"

definition deterministic_batch_id :: "string \<Rightarrow> int \<Rightarrow> int \<Rightarrow> int \<Rightarrow> string \<Rightarrow> string" where
  "deterministic_batch_id topic part offset_start offset_end schema_version =
     sha256_hex (topic @ '':'' @ show_int part @ '':'' @ show_int offset_start @ '':''
                 @ show_int offset_end @ '':'' @ schema_version)"

text \<open>\<open>tuple(range(start, start + n))\<close>.\<close>

definition offset_range :: "int \<Rightarrow> nat \<Rightarrow> int list" where
  "offset_range start n = map (\<lambda>i. start + int i) [0..<n]"

text \<open>The constructor call at the end of \<open>build_batch\<close>, over the ordered events.\<close>

definition batch_of :: "BronzeEvent list \<Rightarrow> CdcBatch" where
  "batch_of ordered =
     (let first = hd ordered in
      \<lparr>cb_batch_id = deterministic_batch_id (be_kafka_topic first) (be_kafka_partition first)
          (be_kafka_offset (hd ordered)) (be_kafka_offset (last ordered)) (be_schema_version first),
       cb_topic = be_kafka_topic first,
       cb_partition = be_kafka_partition first,
       cb_offset_start = be_kafka_offset (hd ordered),
       cb_offset_end = be_kafka_offset (last ordered),
       cb_entity_name = be_entity_name first,
       cb_event_date = be_event_date first,
       cb_schema_version = be_schema_version first,
       cb_events = ordered\<rparr>)"

definition build_batch :: "BronzeEvent list \<Rightarrow> CdcBatch result" where
  "build_batch events =
     (if events = [] then Inl (Value_Error ''A CDC batch requires at least one event'')
      else let ordered = sort_key be_kafka_offset events; first = hd ordered in
        if map be_kafka_offset ordered \<noteq> offset_range (be_kafka_offset first) (length ordered)
        then Inl (Value_Error ''CDC batch offsets must form one contiguous range'')
        else if list_ex (\<lambda>e. event_topic_partition e \<noteq> event_topic_partition first) ordered
        then Inl (Value_Error ''CDC batch must contain exactly one topic-partition'')
        else if list_ex (\<lambda>e. be_entity_name e \<noteq> be_entity_name first) ordered
        then Inl (Value_Error ''CDC batch must contain exactly one entity'')
        else if list_ex (\<lambda>e. be_event_date e \<noteq> be_event_date first) ordered
        then Inl (Value_Error ''CDC batch must contain exactly one event date'')
        else if list_ex (\<lambda>e. be_schema_version e \<noteq> be_schema_version first) ordered
        then Inl (Value_Error ''CDC batch must contain exactly one schema version'')
        else Inr (batch_of ordered))"

definition batch_topic_partition :: "CdcBatch \<Rightarrow> TopicPartitionKey" where
  "batch_topic_partition b = TopicPartitionKey (cb_topic b) (cb_partition b)"

text \<open>What every batch promises: one contiguous range of one partition, and its identity.\<close>

definition wf_batch :: "CdcBatch \<Rightarrow> bool" where
  "wf_batch b \<longleftrightarrow>
     cb_events b \<noteq> []
     \<and> map be_kafka_offset (cb_events b) = offset_range (cb_offset_start b) (length (cb_events b))
     \<and> cb_offset_end b = cb_offset_start b + record_count b - 1
     \<and> (\<forall>e \<in> set (cb_events b).
          event_topic_partition e = batch_topic_partition b
          \<and> be_entity_name e = cb_entity_name b
          \<and> be_event_date e = cb_event_date b
          \<and> be_schema_version e = cb_schema_version b)
     \<and> cb_batch_id b = deterministic_batch_id (cb_topic b) (cb_partition b)
          (cb_offset_start b) (cb_offset_end b) (cb_schema_version b)"

text \<open>One event directly continues another: the condition under which a batch may grow.\<close>

definition extends :: "BronzeEvent \<Rightarrow> BronzeEvent \<Rightarrow> bool" where
  "extends p e \<longleftrightarrow> be_kafka_offset e = be_kafka_offset p + 1 \<and> be_entity_name e = be_entity_name p
     \<and> be_event_date e = be_event_date p \<and> be_schema_version e = be_schema_version p"

text \<open>An event of a fixed topic at a given offset and partition, for concrete instances.\<close>

definition sample_event :: "int \<Rightarrow> int \<Rightarrow> BronzeEvent" where
  "sample_event part offset =
     \<lparr>be_event_id = ''e'', be_entity_name = ''customers'', be_operation = ''c'',
      be_is_snapshot = False, be_is_deleted = False, be_is_tombstone = False,
      be_event_key_json = None, be_before_json = None, be_after_json = None,
      be_source_metadata_json = None, be_source_lsn = None, be_source_tx_id = None,
      be_source_ts_ms = None, be_connector_ts_ms = None,
      be_kafka_topic = ''t'', be_kafka_partition = part, be_kafka_offset = offset,
      be_kafka_message_ts_ms = None, be_ingested_at = 0, be_event_date = ''2026-01-01'',
      be_schema_version = ''v1'', be_raw_event_json = None\<rparr>"

section \<open>Facts about batches\<close>

lemma length_offset_range [simp]: "length (offset_range s n) = n"
  by (simp add: offset_range_def)

lemma offset_range_Suc: "offset_range s (Suc n) = s # offset_range (s + 1) n"
  by (simp add: offset_range_def upt_conv_Cons map_Suc_upt [symmetric] o_def algebra_simps
      del: upt_Suc)

lemma sorted_offset_range: "sorted (offset_range s n)"
  by (auto simp: offset_range_def sorted_iff_nth_mono)

lemma distinct_offset_range: "distinct (offset_range s n)"
  by (auto simp: offset_range_def distinct_map inj_on_def)

lemma last_offset_range: "0 < n \<Longrightarrow> last (offset_range s n) = s + int n - 1"
  by (cases n) (simp_all add: offset_range_def)

lemma hd_offset_range: "0 < n \<Longrightarrow> hd (offset_range s n) = s"
  by (cases n) (simp_all add: offset_range_Suc)

lemma offset_range_inter:
  "o1 \<in> set (offset_range s n) \<longleftrightarrow> s \<le> o1 \<and> o1 < s + int n"
  by (auto simp: offset_range_def image_iff intro!: bexI [of _ "nat (o1 - s)"])

lemma successively_extends_offsets:
  assumes "successively extends xs" and "xs \<noteq> []"
  shows "map be_kafka_offset xs = offset_range (be_kafka_offset (hd xs)) (length xs)"
  using assms
proof (induction xs rule: induct_list012)
  case (3 x y zs)
  then have "map be_kafka_offset (y # zs)
      = offset_range (be_kafka_offset y) (length (y # zs))" and "be_kafka_offset y = be_kafka_offset x + 1"
    by (simp_all add: extends_def)
  then show ?case by (simp add: offset_range_Suc)
qed (simp_all add: offset_range_Suc offset_range_def)

lemma successively_extends_attributes:
  assumes "successively extends xs" and "e \<in> set xs"
  shows "be_entity_name e = be_entity_name (hd xs) \<and> be_event_date e = be_event_date (hd xs)
    \<and> be_schema_version e = be_schema_version (hd xs)"
  using assms
proof (induction xs rule: induct_list012)
  case (3 x y zs)
  then have "be_entity_name y = be_entity_name x" "be_event_date y = be_event_date x"
    "be_schema_version y = be_schema_version x"
    by (simp_all add: extends_def)
  with 3 show ?case by auto
qed auto

lemma sort_key_id: "sorted (map f xs) \<Longrightarrow> sort_key f xs = xs"
  by (rule sort_key_id_if_sorted)

text \<open>The acceptance condition of \<open>build_batch\<close> on the ordered events.\<close>

definition uniform_range :: "BronzeEvent list \<Rightarrow> bool" where
  "uniform_range xs \<longleftrightarrow> xs \<noteq> []
     \<and> map be_kafka_offset xs = offset_range (be_kafka_offset (hd xs)) (length xs)
     \<and> (\<forall>e \<in> set xs. event_topic_partition e = event_topic_partition (hd xs)
          \<and> be_entity_name e = be_entity_name (hd xs) \<and> be_event_date e = be_event_date (hd xs)
          \<and> be_schema_version e = be_schema_version (hd xs))"

lemma sort_key_nonempty: "sort_key f xs \<noteq> [] \<longleftrightarrow> xs \<noteq> []"
  by (metis length_0_conv length_sort)

lemma build_batch_iff:
  "build_batch events = Inr b \<longleftrightarrow>
     uniform_range (sort_key be_kafka_offset events) \<and> b = batch_of (sort_key be_kafka_offset events)"
  unfolding build_batch_def uniform_range_def Let_def sort_key_nonempty list_ex_iff
  by (cases "events = []") (simp, simp, blast)

lemma batch_of_wf: "uniform_range xs \<Longrightarrow> wf_batch (batch_of xs)"
proof -
  assume u: "uniform_range xs"
  then have "be_kafka_offset (last xs) = be_kafka_offset (hd xs) + int (length xs) - 1"
    unfolding uniform_range_def by (metis last_map last_offset_range length_greater_0_conv)
  then have fields: "cb_events (batch_of xs) = xs"
    "cb_offset_start (batch_of xs) = be_kafka_offset (hd xs)"
    "cb_offset_end (batch_of xs) = cb_offset_start (batch_of xs) + record_count (batch_of xs) - 1"
    "batch_topic_partition (batch_of xs) = event_topic_partition (hd xs)"
    "cb_entity_name (batch_of xs) = be_entity_name (hd xs)"
    "cb_event_date (batch_of xs) = be_event_date (hd xs)"
    "cb_schema_version (batch_of xs) = be_schema_version (hd xs)"
    "cb_batch_id (batch_of xs) = deterministic_batch_id (cb_topic (batch_of xs))
       (cb_partition (batch_of xs)) (cb_offset_start (batch_of xs)) (cb_offset_end (batch_of xs))
       (cb_schema_version (batch_of xs))"
    by (simp_all add: batch_of_def record_count_def Let_def batch_topic_partition_def
        event_topic_partition_def)
  show ?thesis
    unfolding wf_batch_def fields(1,2,4-8) using u fields(3) unfolding uniform_range_def fields(2)
    by blast
qed

lemma build_batch_wf: "build_batch events = Inr b \<Longrightarrow> wf_batch b"
  by (simp add: build_batch_iff batch_of_wf)

lemma build_batch_events: "build_batch events = Inr b \<Longrightarrow> cb_events b = sort_key be_kafka_offset events"
  by (simp add: build_batch_iff batch_of_def Let_def)

lemma linked_uniform_range:
  assumes "successively extends xs" and "xs \<noteq> []" and "\<forall>e \<in> set xs. event_topic_partition e = k"
  shows "uniform_range xs"
  unfolding uniform_range_def
  using assms successively_extends_offsets [OF assms(1,2)]
    successively_extends_attributes [OF assms(1)] by (metis list.set_sel(1))

lemma build_batch_linked:
  assumes "successively extends xs" and "xs \<noteq> []" and "\<forall>e \<in> set xs. event_topic_partition e = k"
  shows "build_batch xs = Inr (batch_of xs) \<and> cb_events (batch_of xs) = xs
    \<and> batch_topic_partition (batch_of xs) = k \<and> wf_batch (batch_of xs)"
proof -
  have u: "uniform_range xs" using assms by (rule linked_uniform_range)
  then have srt: "sort_key be_kafka_offset xs = xs"
    unfolding uniform_range_def by (metis sort_key_id sorted_offset_range)
  from assms(2,3) have "event_topic_partition (hd xs) = k" by simp
  then have "batch_topic_partition (batch_of xs) = k"
    by (simp add: batch_topic_partition_def batch_of_def Let_def event_topic_partition_def)
  with u srt show ?thesis
    by (simp add: build_batch_iff batch_of_wf) (simp add: batch_of_def Let_def)
qed

lemma wf_batch_next_offset:
  "wf_batch b \<Longrightarrow> next_offset b = cb_offset_start b + int (length (cb_events b))"
  by (simp add: wf_batch_def next_offset_def record_count_def)

lemma wf_batch_offsets:
  "wf_batch b \<Longrightarrow> (\<exists>e \<in> set (cb_events b). be_kafka_offset e = n)
     \<longleftrightarrow> cb_offset_start b \<le> n \<and> n < next_offset b"
proof -
  assume wf: "wf_batch b"
  have "(\<exists>e \<in> set (cb_events b). be_kafka_offset e = n) \<longleftrightarrow> n \<in> set (map be_kafka_offset (cb_events b))"
    by auto
  also have "\<dots> \<longleftrightarrow> n \<in> set (offset_range (cb_offset_start b) (length (cb_events b)))"
    using wf by (simp add: wf_batch_def)
  finally show ?thesis
    using wf by (simp add: offset_range_inter wf_batch_next_offset)
qed

text \<open>Permuting the events of a range with distinct offsets gives the same batch.\<close>

lemma sort_key_mset_unique:
  assumes "mset xs = mset ys" and "distinct (map f xs)"
  shows "sort_key f xs = sort_key f ys"
proof (rule properties_for_sort_key)
  show "mset (sort_key f ys) = mset xs" using assms(1) by simp
  show "sorted (map f (sort_key f ys))" by simp
  fix k
  assume "k \<in> set (sort_key f ys)"
  have d: "distinct (map f (sort_key f ys))"
    using assms by (metis distinct_map mset_eq_imp_distinct_iff mset_sort set_mset_mset)
  have single: "filter (\<lambda>x. f k = f x) zs = [k]" if "k \<in> set zs" "distinct (map f zs)" for zs
    using that by (induction zs) (auto simp: filter_empty_conv image_iff)
  have "k \<in> set xs" using \<open>k \<in> set _\<close> assms(1) by (metis mset_sort set_mset_mset)
  with single d assms(2) \<open>k \<in> set (sort_key f ys)\<close>
  show "filter (\<lambda>x. f k = f x) (sort_key f ys) = filter (\<lambda>x. f k = f x) xs" by simp
qed

end
