(* ===== verification/Cdc_Batching.thy ===== *)
theory Cdc_Batching
  imports Cdc_Models Complex_Main "HOL-Library.AList"
begin

text \<open>
  \<open>ingestion/cdc_consumer/batching.py\<close>: \<open>PartitionBatcher\<close>, one bounded queue per Kafka
  partition. A Python \<open>dict\<close> is an association list in insertion order (\<open>AList.update\<close> keeps the
  position of an existing key and appends a new one). The locale \<open>partition_buffer\<close> is what the
  consumer relies on; its interpretation discharges it for the batcher.
\<close>

record PendingPartition =
  pp_events :: "BronzeEvent list"
  pp_first_seen_at :: instant

record PartitionBatcher =
  pb_batch_size :: int
  pb_flush_interval :: int
  pb_pending :: "(TopicPartitionKey \<times> PendingPartition) list"

text \<open>\<open>timedelta(seconds=x)\<close>: microseconds, ties to even.\<close>

definition timedelta_micros :: "rat \<Rightarrow> int" where
  "timedelta_micros x =
     (let r = x * 1000000; f = \<lfloor>r\<rfloor>; d = r - of_int f
      in if d < 1 / 2 then f else if d > 1 / 2 then f + 1 else if even f then f else f + 1)"

definition new_batcher :: "int \<Rightarrow> rat \<Rightarrow> PartitionBatcher result" where
  "new_batcher batch_size flush_interval_seconds =
     (if batch_size \<le> 0 then Inl (Value_Error ''batch_size must be greater than zero'')
      else if flush_interval_seconds \<le> 0
      then Inl (Value_Error ''flush_interval_seconds must be greater than zero'')
      else Inr \<lparr>pb_batch_size = batch_size,
                pb_flush_interval = timedelta_micros flush_interval_seconds,
                pb_pending = []\<rparr>)"

definition take_batch :: "TopicPartitionKey \<Rightarrow> nat \<Rightarrow> instant \<Rightarrow> (PartitionBatcher, CdcBatch) eff" where
  "take_batch key n observed_at s =
     (case map_of (pb_pending s) key of
        None \<Rightarrow> (Inl (Key_Error (tp_topic key)), s)
      | Some pending \<Rightarrow>
          if length (pp_events pending) < n then (Inl (Index_Error ''pop from an empty deque''), s)
          else let events = take n (pp_events pending); rest = drop n (pp_events pending)
               in (build_batch events,
                   s\<lparr>pb_pending :=
                      (if rest \<noteq> []
                       then AList.update key
                              (pending\<lparr>pp_events := rest, pp_first_seen_at := observed_at\<rparr>)
                              (pb_pending s)
                       else AList.delete key (pb_pending s))\<rparr>))"

definition flush_partition :: "TopicPartitionKey \<Rightarrow> instant \<Rightarrow> (PartitionBatcher, CdcBatch list) eff" where
  "flush_partition key now s =
     (case map_of (pb_pending s) key of
        None \<Rightarrow> (Inr [], s)
      | Some pending \<Rightarrow>
          if pp_events pending = [] then (Inr [], s)
          else bindE (take_batch key (length (pp_events pending)) now) (\<lambda>b. returnE [b]) s)"

definition boundary_changed :: "BronzeEvent \<Rightarrow> BronzeEvent \<Rightarrow> bool" where
  "boundary_changed previous event \<longleftrightarrow>
     be_kafka_offset event \<noteq> be_kafka_offset previous + 1
     \<or> be_entity_name event \<noteq> be_entity_name previous
     \<or> be_event_date event \<noteq> be_event_date previous
     \<or> be_schema_version event \<noteq> be_schema_version previous"

text \<open>The \<open>while len(partition.events) >= batch_size\<close> loop of \<open>add\<close>, with fuel.\<close>

fun drain_full :: "nat \<Rightarrow> TopicPartitionKey \<Rightarrow> instant \<Rightarrow> (PartitionBatcher, CdcBatch list) eff" where
  "drain_full 0 key observed_at s = (Inl (Assertion_Error ''drain loop did not end''), s)"
| "drain_full (Suc fuel) key observed_at s =
     (case map_of (pb_pending s) key of
        None \<Rightarrow> (Inr [], s)
      | Some p \<Rightarrow>
          if pb_batch_size s \<le> int (length (pp_events p))
          then bindE (take_batch key (nat (pb_batch_size s)) observed_at)
                 (\<lambda>b. bindE (drain_full fuel key observed_at) (\<lambda>bs. returnE (b # bs))) s
          else (Inr [], s))"

definition append_event :: "TopicPartitionKey \<Rightarrow> BronzeEvent \<Rightarrow> PendingPartition \<Rightarrow> PartitionBatcher \<Rightarrow> PartitionBatcher" where
  "append_event key event p s =
     s\<lparr>pb_pending := AList.update key (p\<lparr>pp_events := pp_events p @ [event]\<rparr>) (pb_pending s)\<rparr>"

definition batcher_add :: "BronzeEvent \<Rightarrow> instant \<Rightarrow> (PartitionBatcher, CdcBatch list) eff" where
  "batcher_add event observed_at s =
     (let key = event_topic_partition event;
          fresh = \<lparr>pp_events = [], pp_first_seen_at = observed_at\<rparr>;
          finish = (\<lambda>ready p s1.
            bindE (drain_full (length (pp_events p) + 2) key observed_at)
              (\<lambda>more. returnE (ready @ more)) (append_event key event p s1))
      in case map_of (pb_pending s) key of
           None \<Rightarrow> finish [] fresh s
         | Some p \<Rightarrow>
             if pp_events p \<noteq> [] \<and> boundary_changed (last (pp_events p)) event
             then bindE (flush_partition key observed_at) (\<lambda>ready. finish ready fresh) s
             else finish [] p s)"

fun flush_partitions :: "TopicPartitionKey list \<Rightarrow> instant \<Rightarrow> (PartitionBatcher, CdcBatch list) eff" where
  "flush_partitions [] now = returnE []"
| "flush_partitions (k # ks) now =
     bindE (flush_partition k now) (\<lambda>bs. bindE (flush_partitions ks now) (\<lambda>cs. returnE (bs @ cs)))"

definition flush_all :: "instant \<Rightarrow> (PartitionBatcher, CdcBatch list) eff" where
  "flush_all now s = flush_partitions (map fst (pb_pending s)) now s"

definition due_keys :: "PartitionBatcher \<Rightarrow> instant \<Rightarrow> TopicPartitionKey list" where
  "due_keys s observed_at =
     map fst (filter (\<lambda>(k, p). pp_events p \<noteq> [] \<and> pb_flush_interval s \<le> observed_at - pp_first_seen_at p)
                (pb_pending s))"

definition flush_due :: "instant \<Rightarrow> (PartitionBatcher, CdcBatch list) eff" where
  "flush_due observed_at s = flush_partitions (sort (due_keys s observed_at)) observed_at s"

definition pending_count :: "PartitionBatcher \<Rightarrow> int" where
  "pending_count s = int (sum_list (map (\<lambda>(k, p). length (pp_events p)) (pb_pending s)))"

text \<open>A sequence of additions, as the consumer loop makes them.\<close>

fun feed :: "(BronzeEvent \<Rightarrow> instant \<Rightarrow> ('s, CdcBatch list) eff) \<Rightarrow> (BronzeEvent \<times> instant) list
    \<Rightarrow> ('s, CdcBatch list) eff" where
  "feed add [] = returnE []"
| "feed add ((e, t) # xs) = bindE (add e t) (\<lambda>bs. bindE (feed add xs) (\<lambda>cs. returnE (bs @ cs)))"

fun feed_flush :: "(TopicPartitionKey \<Rightarrow> instant \<Rightarrow> ('s, CdcBatch list) eff) \<Rightarrow> TopicPartitionKey list
    \<Rightarrow> instant \<Rightarrow> ('s, CdcBatch list) eff" where
  "feed_flush flush [] now = returnE []"
| "feed_flush flush (k # ks) now =
     bindE (flush k now) (\<lambda>bs. bindE (feed_flush flush ks now) (\<lambda>cs. returnE (bs @ cs)))"

section \<open>Abstraction and invariant\<close>

definition queue :: "PartitionBatcher \<Rightarrow> TopicPartitionKey \<Rightarrow> BronzeEvent list" where
  "queue s k = (case map_of (pb_pending s) k of None \<Rightarrow> [] | Some p \<Rightarrow> pp_events p)"

definition queue_ok :: "int \<Rightarrow> TopicPartitionKey \<Rightarrow> BronzeEvent list \<Rightarrow> bool" where
  "queue_ok n k es \<longleftrightarrow> es \<noteq> [] \<and> int (length es) < n \<and> successively extends es
     \<and> (\<forall>e \<in> set es. event_topic_partition e = k)"

definition batcher_inv :: "PartitionBatcher \<Rightarrow> bool" where
  "batcher_inv s \<longleftrightarrow> 0 < pb_batch_size s \<and> distinct (map fst (pb_pending s))
     \<and> (\<forall>k p. map_of (pb_pending s) k = Some p \<longrightarrow> queue_ok (pb_batch_size s) k (pp_events p))"

text \<open>Well-formed batches of one partition within the size bound.\<close>

definition batches_ok :: "int \<Rightarrow> TopicPartitionKey \<Rightarrow> CdcBatch list \<Rightarrow> bool" where
  "batches_ok n k bs \<longleftrightarrow>
     (\<forall>b \<in> set bs. wf_batch b \<and> batch_topic_partition b = k \<and> record_count b \<le> n)"

definition batch_events :: "TopicPartitionKey \<Rightarrow> CdcBatch list \<Rightarrow> BronzeEvent list" where
  "batch_events k bs = concat (map cb_events (filter (\<lambda>b. batch_topic_partition b = k) bs))"

section \<open>The interface of a partition buffer\<close>

locale partition_buffer =
  fixes inv :: "'s \<Rightarrow> bool"
    and add :: "BronzeEvent \<Rightarrow> instant \<Rightarrow> ('s, CdcBatch list) eff"
    and flush :: "TopicPartitionKey \<Rightarrow> instant \<Rightarrow> ('s, CdcBatch list) eff"
    and content :: "'s \<Rightarrow> TopicPartitionKey \<Rightarrow> BronzeEvent list"
    and bound :: "'s \<Rightarrow> int"
  assumes add_law: "inv s \<Longrightarrow> \<exists>bs s'. add e t s = (Inr bs, s') \<and> inv s' \<and> bound s' = bound s
      \<and> batches_ok (bound s) (event_topic_partition e) bs
      \<and> concat (map cb_events bs) @ content s' (event_topic_partition e)
          = content s (event_topic_partition e) @ [e]
      \<and> (\<forall>k. k \<noteq> event_topic_partition e \<longrightarrow> content s' k = content s k)"
    and flush_law: "inv s \<Longrightarrow> \<exists>bs s'. flush k t s = (Inr bs, s') \<and> inv s' \<and> bound s' = bound s
      \<and> batches_ok (bound s) k bs
      \<and> concat (map cb_events bs) = content s k \<and> content s' = (content s)(k := [])"
begin

lemma batch_events_same: "batches_ok n k bs \<Longrightarrow> batch_events k bs = concat (map cb_events bs)"
  by (simp add: batch_events_def batches_ok_def filter_id_conv)

lemma batch_events_other: "batches_ok n k bs \<Longrightarrow> k' \<noteq> k \<Longrightarrow> batch_events k' bs = []"
  by (auto simp: batch_events_def batches_ok_def filter_empty_conv)

lemma batch_events_append: "batch_events k (bs @ cs) = batch_events k bs @ batch_events k cs"
  by (simp add: batch_events_def)

lemma feed_conserves:
  assumes "inv s"
  shows "\<exists>bs s'. feed add xs s = (Inr bs, s') \<and> inv s' \<and> bound s' = bound s
    \<and> (\<forall>b \<in> set bs. wf_batch b \<and> record_count b \<le> bound s)
    \<and> (\<forall>k. batch_events k bs @ content s' k
          = content s k @ filter (\<lambda>e. event_topic_partition e = k) (map fst xs))"
  using assms
proof (induction xs arbitrary: s)
  case Nil
  then show ?case by (simp add: returnE_def batch_events_def)
next
  case (Cons x xs)
  obtain e t where x: "x = (e, t)" by (cases x)
  let ?k = "event_topic_partition e"
  from add_law [OF Cons.prems, of e t] obtain bs s1 where s1: "add e t s = (Inr bs, s1)" "inv s1"
    "bound s1 = bound s" "batches_ok (bound s) ?k bs"
    "concat (map cb_events bs) @ content s1 ?k = content s ?k @ [e]"
    "\<forall>k. k \<noteq> ?k \<longrightarrow> content s1 k = content s k"
    by blast
  from Cons.IH [OF s1(2)] obtain cs s2 where s2: "feed add xs s1 = (Inr cs, s2)" "inv s2"
    "bound s2 = bound s" "\<forall>b \<in> set cs. wf_batch b \<and> record_count b \<le> bound s"
    "\<forall>k. batch_events k cs @ content s2 k
       = content s1 k @ filter (\<lambda>e. event_topic_partition e = k) (map fst xs)"
    using s1(3) by auto
  have "batch_events k (bs @ cs) @ content s2 k
      = content s k @ filter (\<lambda>e. event_topic_partition e = k) (map fst (x # xs))" for k
  proof (cases "k = ?k")
    case True
    then show ?thesis
      using s1(5) s2(5) by (simp add: x batch_events_append batch_events_same [OF s1(4)])
  next
    case False
    then show ?thesis
      using s1(6) s2(5) by (auto simp: x batch_events_append batch_events_other [OF s1(4)])
  qed
  moreover have "feed add (x # xs) s = (Inr (bs @ cs), s2)"
    by (simp add: x bindE_def s1(1) s2(1) returnE_def)
  ultimately show ?case
    using s1(4) s2(2-4) by (auto simp: batches_ok_def)
qed

lemma feed_flush_empties:
  assumes "inv s"
  shows "\<exists>bs s'. feed_flush flush ks t s = (Inr bs, s') \<and> inv s' \<and> bound s' = bound s
    \<and> (\<forall>b \<in> set bs. wf_batch b \<and> record_count b \<le> bound s)
    \<and> (\<forall>k. content s' k = (if k \<in> set ks then [] else content s k))
    \<and> (\<forall>k. batch_events k bs = (if k \<in> set ks then content s k else []))"
  using assms
proof (induction ks arbitrary: s)
  case Nil
  then show ?case by (simp add: returnE_def batch_events_def)
next
  case (Cons k ks)
  from flush_law [OF Cons.prems, of k t] obtain bs s1 where s1: "flush k t s = (Inr bs, s1)"
    "inv s1" "bound s1 = bound s" "batches_ok (bound s) k bs"
    "concat (map cb_events bs) = content s k" "content s1 = (content s)(k := [])"
    by blast
  from Cons.IH [OF s1(2)] obtain cs s2 where s2: "feed_flush flush ks t s1 = (Inr cs, s2)"
    "inv s2" "bound s2 = bound s" "\<forall>b \<in> set cs. wf_batch b \<and> record_count b \<le> bound s"
    "\<forall>k. content s2 k = (if k \<in> set ks then [] else content s1 k)"
    "\<forall>k. batch_events k cs = (if k \<in> set ks then content s1 k else [])"
    using s1(3) by auto
  have "feed_flush flush (k # ks) t s = (Inr (bs @ cs), s2)"
    by (simp add: bindE_def s1(1) s2(1) returnE_def)
  moreover have "batch_events k' (bs @ cs) = (if k' \<in> set (k # ks) then content s k' else [])" for k'
    using s1(4-6) s2(6)
    by (cases "k' = k") (auto simp: batch_events_append batch_events_same batch_events_other)
  ultimately show ?case
    using s1(4,6) s2(2-5) by (auto simp: batches_ok_def)
qed

end

section \<open>The batcher implements the interface\<close>

lemmas pending_map = update_conv' delete_conv'

lemma queue_update [simp]:
  "queue (s\<lparr>pb_pending := AList.update k p (pb_pending s)\<rparr>) = (queue s)(k := pp_events p)"
  by (rule ext) (simp add: queue_def pending_map)

lemma queue_delete [simp]:
  "queue (s\<lparr>pb_pending := AList.delete k (pb_pending s)\<rparr>) = (queue s)(k := [])"
  by (rule ext) (simp add: queue_def pending_map)

lemma batcher_inv_update:
  "batcher_inv s \<Longrightarrow> queue_ok (pb_batch_size s) k (pp_events p) \<Longrightarrow>
     batcher_inv (s\<lparr>pb_pending := AList.update k p (pb_pending s)\<rparr>)"
  by (auto simp: batcher_inv_def pending_map distinct_update)

lemma batcher_inv_delete:
  "batcher_inv s \<Longrightarrow> batcher_inv (s\<lparr>pb_pending := AList.delete k (pb_pending s)\<rparr>)"
  by (auto simp: batcher_inv_def pending_map distinct_delete split: if_splits)

lemma boundary_changed_iff: "boundary_changed p e \<longleftrightarrow> \<not> extends p e"
  by (auto simp: boundary_changed_def extends_def)

definition linked :: "TopicPartitionKey \<Rightarrow> BronzeEvent list \<Rightarrow> bool" where
  "linked k es \<longleftrightarrow> es \<noteq> [] \<and> successively extends es \<and> (\<forall>e \<in> set es. event_topic_partition e = k)"

lemma linked_batch:
  assumes "linked k es" and "int (length es) \<le> n"
  shows "build_batch es = Inr (batch_of es)" and "cb_events (batch_of es) = es"
    and "batches_ok n k [batch_of es]"
  using assms build_batch_linked [of es k] by (auto simp: linked_def batches_ok_def record_count_def)

lemma queue_ok_linked: "queue_ok n k es \<longleftrightarrow> linked k es \<and> int (length es) < n"
  by (auto simp: queue_ok_def linked_def)

lemma take_batch_all:
  assumes "map_of (pb_pending s) k = Some p" and "linked k (pp_events p)"
  shows "take_batch k (length (pp_events p)) t s =
    (Inr (batch_of (pp_events p)), s\<lparr>pb_pending := AList.delete k (pb_pending s)\<rparr>)"
  using assms linked_batch(1) [OF assms(2) order_refl] by (simp add: take_batch_def)

lemma flush_partition_law:
  assumes "batcher_inv s"
  shows "\<exists>bs s'. flush_partition k t s = (Inr bs, s') \<and> batcher_inv s'
    \<and> pb_batch_size s' = pb_batch_size s \<and> batches_ok (pb_batch_size s) k bs
    \<and> concat (map cb_events bs) = queue s k \<and> queue s' = (queue s)(k := [])"
proof (cases "map_of (pb_pending s) k")
  case None
  with assms show ?thesis
    by (auto simp: flush_partition_def batches_ok_def queue_def)
next
  case (Some p)
  with assms have q: "queue_ok (pb_batch_size s) k (pp_events p)" by (simp add: batcher_inv_def)
  then have l: "linked k (pp_events p)" by (simp add: queue_ok_linked)
  then have "pp_events p \<noteq> []" by (simp add: linked_def)
  with Some have "flush_partition k t s =
      (Inr [batch_of (pp_events p)], s\<lparr>pb_pending := AList.delete k (pb_pending s)\<rparr>)"
    by (simp add: flush_partition_def bindE_def returnE_def take_batch_all [OF Some l])
  moreover have "batches_ok (pb_batch_size s) k [batch_of (pp_events p)]"
    using l q by (intro linked_batch(3)) (simp_all add: queue_ok_def)
  ultimately show ?thesis
    using assms Some linked_batch(2) [OF l order_refl]
    by (simp add: batcher_inv_delete) (simp add: queue_def)
qed

lemma drain_full_law:
  assumes "map_of (pb_pending s) k = Some p" and "linked k (pp_events p)"
    and "int (length (pp_events p)) \<le> pb_batch_size s"
  shows "drain_full (Suc (Suc fuel)) k t s =
    (if int (length (pp_events p)) = pb_batch_size s
     then (Inr [batch_of (pp_events p)], s\<lparr>pb_pending := AList.delete k (pb_pending s)\<rparr>)
     else (Inr [], s))"
proof -
  have "take_batch k (nat (pb_batch_size s)) t s =
      (Inr (batch_of (pp_events p)), s\<lparr>pb_pending := AList.delete k (pb_pending s)\<rparr>)"
    if "int (length (pp_events p)) = pb_batch_size s"
    using take_batch_all [OF assms(1,2)] that by (metis nat_int)
  with assms show ?thesis
    by (simp add: bindE_def returnE_def pending_map)
qed

lemma add_finish_law:
  assumes "batcher_inv s" and "linked k (pp_events p @ [e])"
    and "int (length (pp_events p)) < pb_batch_size s"
  shows "\<exists>bs s'. bindE (drain_full (length (pp_events p) + 2) k t) (\<lambda>more. returnE (ready @ more))
        (append_event k e p s) = (Inr (ready @ bs), s')
    \<and> batcher_inv s' \<and> pb_batch_size s' = pb_batch_size s \<and> batches_ok (pb_batch_size s) k bs
    \<and> concat (map cb_events bs) @ queue s' k = pp_events p @ [e]
    \<and> (\<forall>k'. k' \<noteq> k \<longrightarrow> queue s' k' = queue s k')"
proof -
  define p' where "p' = p\<lparr>pp_events := pp_events p @ [e]\<rparr>"
  define s1 where "s1 = append_event k e p s"
  have es: "pp_events p' = pp_events p @ [e]" by (simp add: p'_def)
  have s1: "s1 = s\<lparr>pb_pending := AList.update k p' (pb_pending s)\<rparr>"
    by (simp add: s1_def append_event_def p'_def)
  have l: "linked k (pp_events p')" and len: "int (length (pp_events p')) \<le> pb_batch_size s"
    using assms(2,3) by (simp_all add: es)
  have m: "map_of (pb_pending s1) k = Some p'" and n: "pb_batch_size s1 = pb_batch_size s"
    by (simp_all add: s1 pending_map)
  have d: "drain_full (length (pp_events p) + 2) k t s1 =
    (if int (length (pp_events p')) = pb_batch_size s
     then (Inr [batch_of (pp_events p')], s1\<lparr>pb_pending := AList.delete k (pb_pending s1)\<rparr>)
     else (Inr [], s1))"
    using drain_full_law [OF m l, of "length (pp_events p)" t] len n by (simp add: numeral_2_eq_2)
  have q: "queue s1 = (queue s)(k := pp_events p')" by (simp add: s1)
  show ?thesis
  proof (cases "int (length (pp_events p')) = pb_batch_size s")
    case True
    have "batcher_inv (s1\<lparr>pb_pending := AList.delete k (pb_pending s1)\<rparr>)"
      using assms(1) by (auto simp: s1 batcher_inv_def pending_map distinct_update distinct_delete split: if_splits)
    with True d q linked_batch(2,3) [OF l len] es show ?thesis
      unfolding s1_def [symmetric] by (simp add: bindE_def returnE_def n)
  next
    case False
    then have "queue_ok (pb_batch_size s) k (pp_events p')" using l len by (simp add: queue_ok_linked)
    then have "batcher_inv s1" unfolding s1 by (rule batcher_inv_update [OF assms(1)])
    with False d q es show ?thesis
      unfolding s1_def [symmetric] by (simp add: bindE_def returnE_def n batches_ok_def)
  qed
qed

lemma batches_ok_append: "batches_ok n k (bs @ cs) \<longleftrightarrow> batches_ok n k bs \<and> batches_ok n k cs"
  by (auto simp: batches_ok_def)

lemma batcher_add_law:
  assumes inv: "batcher_inv s"
  shows "\<exists>bs s'. batcher_add e t s = (Inr bs, s') \<and> batcher_inv s'
    \<and> pb_batch_size s' = pb_batch_size s
    \<and> batches_ok (pb_batch_size s) (event_topic_partition e) bs
    \<and> concat (map cb_events bs) @ queue s' (event_topic_partition e)
        = queue s (event_topic_partition e) @ [e]
    \<and> (\<forall>k. k \<noteq> event_topic_partition e \<longrightarrow> queue s' k = queue s k)"
proof -
  let ?k = "event_topic_partition e"
  let ?fresh = "\<lparr>pp_events = [], pp_first_seen_at = t\<rparr>"
  have one: "linked ?k (pp_events ?fresh @ [e])" by (simp add: linked_def)
  have pos: "int (length (pp_events ?fresh)) < pb_batch_size s" using inv by (simp add: batcher_inv_def)
  show ?thesis
  proof (cases "map_of (pb_pending s) ?k")
    case None
    then show ?thesis
      using add_finish_law [OF inv one pos, of t "[]"] by (simp add: batcher_add_def Let_def) (simp add: queue_def)
  next
    case (Some p)
    then have q: "queue_ok (pb_batch_size s) ?k (pp_events p)" and qp: "queue s ?k = pp_events p"
      using inv by (simp_all add: batcher_inv_def queue_def)
    show ?thesis
    proof (cases "boundary_changed (last (pp_events p)) e")
      case True
      from flush_partition_law [OF inv, of ?k t] obtain bs s1 where s1: "flush_partition ?k t s = (Inr bs, s1)"
        "batcher_inv s1" "pb_batch_size s1 = pb_batch_size s" "batches_ok (pb_batch_size s) ?k bs"
        "concat (map cb_events bs) = queue s ?k" "queue s1 = (queue s)(?k := [])" by blast
      from add_finish_law [OF s1(2) one, of t bs] pos s1(3) obtain cs s2 where
        "bindE (drain_full (length (pp_events ?fresh) + 2) ?k t) (\<lambda>more. returnE (bs @ more))
          (append_event ?k e ?fresh s1) = (Inr (bs @ cs), s2)"
        "batcher_inv s2" "pb_batch_size s2 = pb_batch_size s" "batches_ok (pb_batch_size s) ?k cs"
        "concat (map cb_events cs) @ queue s2 ?k = [e]" "\<forall>k'. k' \<noteq> ?k \<longrightarrow> queue s2 k' = queue s1 k'"
        by auto
      moreover from this(1) Some True q have "batcher_add e t s = (Inr (bs @ cs), s2)"
        by (simp add: batcher_add_def Let_def queue_ok_def bindE_def [of "flush_partition ?k t"] s1(1))
      ultimately show ?thesis
        using s1 by (intro exI [of _ "bs @ cs"] exI [of _ s2]) (simp add: batches_ok_append)
    next
      case False
      with q have l: "linked ?k (pp_events p @ [e])" and n: "int (length (pp_events p)) < pb_batch_size s"
        by (auto simp: queue_ok_def linked_def boundary_changed_iff successively_append_iff)
      from False Some show ?thesis
        using add_finish_law [OF inv l n, of t "[]"] by (simp add: batcher_add_def Let_def qp)
    qed
  qed
qed

interpretation batcher: partition_buffer batcher_inv batcher_add flush_partition queue pb_batch_size
  by unfold_locales (rule batcher_add_law flush_partition_law; assumption)+

lemma flush_partitions_feed: "flush_partitions ks t = feed_flush flush_partition ks t"
  by (induction ks) simp_all

lemma new_batcher_inv: "new_batcher n i = Inr s \<Longrightarrow> batcher_inv s"
  by (auto simp: new_batcher_def batcher_inv_def split: if_splits)

lemma new_batcher_fields: "new_batcher n i = Inr s \<Longrightarrow> pb_batch_size s = n \<and> queue s = (\<lambda>_. [])"
  by (auto simp: new_batcher_def queue_def fun_eq_iff split: if_splits)

lemma queue_nonempty_key: "queue s k \<noteq> [] \<Longrightarrow> k \<in> set (map fst (pb_pending s))"
  by (auto simp: queue_def dest!: map_of_SomeD split: option.splits) force

lemma batcher_inv_empty_pending:
  assumes "batcher_inv s" and "\<forall>k. queue s k = []"
  shows "pb_pending s = []"
proof (rule ccontr)
  assume "pb_pending s \<noteq> []"
  then obtain k p r where kp: "pb_pending s = (k, p) # r" by (metis neq_Nil_conv surj_pair)
  then have m: "map_of (pb_pending s) k = Some p" by simp
  with assms(1) have "pp_events p \<noteq> []" by (simp add: batcher_inv_def queue_ok_def del: map_of_eq_Some_iff)
  moreover have "queue s k = pp_events p" using m by (simp add: queue_def del: map_of_eq_Some_iff)
  ultimately show False using assms(2) by simp
qed

lemma set_due_keys:
  "distinct (map fst (pb_pending s)) \<Longrightarrow> k \<in> set (due_keys s t) \<longleftrightarrow>
     (\<exists>p. map_of (pb_pending s) k = Some p \<and> pp_events p \<noteq> []
          \<and> pb_flush_interval s \<le> t - pp_first_seen_at p)"
  by (force simp: due_keys_def)

section \<open>Properties\<close>

text \<open>
  C4. Feeding any sequence of events to a new batcher never raises, and for every partition the
  emitted batches followed by what is still pending are exactly the events of that partition in
  the order they were added: nothing is lost, duplicated or reordered. Every emitted batch is a
  contiguous single-partition range of at most \<open>batch_size\<close> records.
\<close>

theorem batcher_conserves_events:
  assumes "new_batcher n i = Inr s"
  shows "\<exists>bs s'. feed batcher_add xs s = (Inr bs, s') \<and> batcher_inv s'
    \<and> (\<forall>b \<in> set bs. wf_batch b \<and> record_count b \<le> n)
    \<and> (\<forall>k. batch_events k bs @ queue s' k
          = filter (\<lambda>e. event_topic_partition e = k) (map fst xs))"
proof -
  have n: "pb_batch_size s = n" and q: "queue s = (\<lambda>_. [])"
    using new_batcher_fields [OF assms] by simp_all
  show ?thesis
    using batcher.feed_conserves [OF new_batcher_inv [OF assms], of xs] unfolding n q by auto
qed

theorem batcher_conserves_events_witness:
  "\<exists>bs s'. feed batcher_add
      [(sample_event 0 7, 10), (sample_event 1 3, 20), (sample_event 0 8, 30), (sample_event 0 20, 40)]
      \<lparr>pb_batch_size = 2, pb_flush_interval = 5000000, pb_pending = []\<rparr> = (Inr bs, s')
    \<and> batcher_inv s' \<and> (\<forall>b \<in> set bs. wf_batch b \<and> record_count b \<le> 2)
    \<and> (\<forall>k. batch_events k bs @ queue s' k = filter (\<lambda>e. event_topic_partition e = k)
          [sample_event 0 7, sample_event 1 3, sample_event 0 8, sample_event 0 20])"
  using batcher_conserves_events
    [of 2 5 "\<lparr>pb_batch_size = 2, pb_flush_interval = 5000000, pb_pending = []\<rparr>"
      "[(sample_event 0 7, 10), (sample_event 1 3, 20), (sample_event 0 8, 30), (sample_event 0 20, 40)]"]
  by (simp add: new_batcher_def timedelta_micros_def)

text \<open>
  C12. A clean shutdown flush (\<open>flush_all\<close>) never raises, leaves no pending partition, and emits
  for every partition exactly the events that were pending, in order.
\<close>

theorem flush_all_drains:
  assumes "batcher_inv s"
  shows "\<exists>bs s'. flush_all t s = (Inr bs, s') \<and> pb_pending s' = [] \<and> pending_count s' = 0
    \<and> (\<forall>k. batch_events k bs = queue s k)"
proof -
  let ?ks = "map fst (pb_pending s)"
  from batcher.feed_flush_empties [OF assms, of ?ks t] obtain bs s' where r:
    "feed_flush flush_partition ?ks t s = (Inr bs, s')" "batcher_inv s'"
    "\<forall>k. queue s' k = (if k \<in> set ?ks then [] else queue s k)"
    "\<forall>k. batch_events k bs = (if k \<in> set ?ks then queue s k else [])"
    by blast
  have e: "queue s k = []" if "k \<notin> set ?ks" for k
    using that queue_nonempty_key [of s k] by blast
  have "pb_pending s' = []"
    by (rule batcher_inv_empty_pending [OF r(2)]) (use r(3) e in auto)
  moreover have "\<forall>k. batch_events k bs = queue s k" using r(4) e by auto
  ultimately show ?thesis
    using r(1) by (simp add: flush_all_def flush_partitions_feed pending_count_def)
qed

theorem flush_all_drains_witness:
  "\<exists>bs s'. flush_all 9
      \<lparr>pb_batch_size = 5, pb_flush_interval = 1,
       pb_pending = [(TopicPartitionKey ''t'' 0, \<lparr>pp_events = [sample_event 0 7, sample_event 0 8],
                                                 pp_first_seen_at = 1\<rparr>)]\<rparr> = (Inr bs, s')
    \<and> pb_pending s' = [] \<and> pending_count s' = 0
    \<and> batch_events (TopicPartitionKey ''t'' 0) bs = [sample_event 0 7, sample_event 0 8]"
proof -
  let ?s = "\<lparr>pb_batch_size = 5, pb_flush_interval = 1,
       pb_pending = [(TopicPartitionKey ''t'' 0, \<lparr>pp_events = [sample_event 0 7, sample_event 0 8],
                                                 pp_first_seen_at = 1\<rparr>)]\<rparr>"
  have "batcher_inv ?s"
    by (simp add: batcher_inv_def queue_ok_def extends_def event_topic_partition_def sample_event_def
        split: if_splits)
  from flush_all_drains [OF this, of 9] obtain bs s' where
    "flush_all 9 ?s = (Inr bs, s')" "pb_pending s' = []" "pending_count s' = 0"
    "\<forall>k. batch_events k bs = queue ?s k" by blast
  then show ?thesis by (auto simp: queue_def)
qed

text \<open>
  C13. The interval flush (\<open>flush_due\<close>) never raises and empties exactly the partitions whose
  oldest pending event is at least the flush interval old; every other partition is untouched,
  and each due partition's events come out in order.
\<close>

theorem flush_due_exact:
  assumes "batcher_inv s"
  shows "\<exists>bs s'. flush_due t s = (Inr bs, s') \<and> batcher_inv s'
    \<and> (\<forall>k. if \<exists>p. map_of (pb_pending s) k = Some p \<and> pb_flush_interval s \<le> t - pp_first_seen_at p
          then queue s' k = [] \<and> batch_events k bs = queue s k
          else queue s' k = queue s k \<and> batch_events k bs = [])"
proof -
  have d: "k \<in> set (due_keys s t) \<longleftrightarrow>
      (\<exists>p. map_of (pb_pending s) k = Some p \<and> pb_flush_interval s \<le> t - pp_first_seen_at p)" for k
    using assms by (auto simp: set_due_keys batcher_inv_def queue_ok_def)
  show ?thesis
    using batcher.feed_flush_empties [OF assms, of "sort (due_keys s t)" t]
    by (auto simp: flush_due_def flush_partitions_feed d)
qed

theorem flush_due_exact_witness:
  "\<exists>bs s'. flush_due 100
      \<lparr>pb_batch_size = 5, pb_flush_interval = 50,
       pb_pending = [(TopicPartitionKey ''t'' 0, \<lparr>pp_events = [sample_event 0 7], pp_first_seen_at = 90\<rparr>),
                     (TopicPartitionKey ''t'' 1, \<lparr>pp_events = [sample_event 1 4], pp_first_seen_at = 50\<rparr>)]\<rparr>
      = (Inr bs, s')
    \<and> queue s' (TopicPartitionKey ''t'' 0) = [sample_event 0 7]
    \<and> queue s' (TopicPartitionKey ''t'' 1) = []
    \<and> batch_events (TopicPartitionKey ''t'' 1) bs = [sample_event 1 4]"
proof -
  let ?s = "\<lparr>pb_batch_size = 5, pb_flush_interval = 50,
       pb_pending = [(TopicPartitionKey ''t'' 0, \<lparr>pp_events = [sample_event 0 7], pp_first_seen_at = 90\<rparr>),
                     (TopicPartitionKey ''t'' 1, \<lparr>pp_events = [sample_event 1 4], pp_first_seen_at = 50\<rparr>)]\<rparr>"
  have "batcher_inv ?s"
    by (simp add: batcher_inv_def queue_ok_def extends_def event_topic_partition_def sample_event_def
        split: if_splits)
  from flush_due_exact [OF this, of 100] obtain bs s' where r: "flush_due 100 ?s = (Inr bs, s')"
    and k: "\<And>k. if \<exists>p. map_of (pb_pending ?s) k = Some p \<and> pb_flush_interval ?s \<le> 100 - pp_first_seen_at p
          then queue s' k = [] \<and> batch_events k bs = queue ?s k
          else queue s' k = queue ?s k \<and> batch_events k bs = []" by blast
  from r k [of "TopicPartitionKey ''t'' 0"] k [of "TopicPartitionKey ''t'' 1"] show ?thesis
    by (simp add: queue_def)
qed

text \<open>
  C11. A batch built from any events is a well-formed contiguous range with the deterministic
  identity of that range, holds exactly those events, and does not depend on their order:
  every permutation of the same events builds the same batch.
\<close>

theorem build_batch_canonical:
  assumes "build_batch events = Inr b"
  shows "wf_batch b \<and> mset (cb_events b) = mset events
    \<and> (\<forall>events'. mset events' = mset events \<longrightarrow> build_batch events' = Inr b)"
proof (intro conjI allI impI)
  show "wf_batch b" using assms by (rule build_batch_wf)
  show "mset (cb_events b) = mset events" by (simp add: build_batch_events [OF assms])
  fix events' assume m: "mset events' = mset events"
  have "distinct (map be_kafka_offset (sort_key be_kafka_offset events))"
    using assms unfolding build_batch_iff uniform_range_def by (metis distinct_offset_range)
  then have "distinct (map be_kafka_offset events)"
    by (metis distinct_map mset_eq_imp_distinct_iff mset_sort set_sort)
  with m have "sort_key be_kafka_offset events = sort_key be_kafka_offset events'"
    by (metis sort_key_mset_unique)
  with assms show "build_batch events' = Inr b" by (simp add: build_batch_iff)
qed

theorem build_batch_canonical_witness:
  "\<exists>b. build_batch [sample_event 0 7, sample_event 0 8] = Inr b \<and> wf_batch b
    \<and> build_batch [sample_event 0 8, sample_event 0 7] = Inr b"
proof -
  have "build_batch [sample_event 0 7, sample_event 0 8] = Inr (batch_of [sample_event 0 7, sample_event 0 8])"
    by (simp add: build_batch_def offset_range_def event_topic_partition_def sample_event_def)
  from build_batch_canonical [OF this] this show ?thesis by (simp add: add_mset_commute)
qed

end
