(* ===== verification/Cdc_Manifest.thy ===== *)
theory Cdc_Manifest
  imports Cdc_Models "HOL-Library.AList"
begin

text \<open>
  \<open>ingestion/cdc_consumer/manifest.py\<close>: the SQLite table of CDC batches. The table is the list
  of its rows in insertion order. A \<open>_session\<close> is one SQLite transaction: it either runs its body
  atomically or has no effect, because SQLite itself fails (an entry of the fault schedule, which
  is arbitrary) or because the body raises and \<open>with connection\<close> rolls back. The clock the
  operations read is arbitrary too. Timestamps of the rows are kept as instants:
  \<open>_parse_timestamp\<close> inverts \<open>utc_isoformat\<close>.
\<close>

record manifest_db =
  md_rows :: "BatchManifestRecord list"
  md_faults :: "nat \<Rightarrow> exn option"
  md_tick :: nat
  md_clock :: "nat \<Rightarrow> instant"

definition now :: "(manifest_db, instant) eff" where
  "now = getE (\<lambda>db. md_clock db (md_tick db))"

definition session :: "(BatchManifestRecord list \<Rightarrow> ('a \<times> BatchManifestRecord list) result)
    \<Rightarrow> (manifest_db, 'a) eff" where
  "session body db =
     (let db' = db\<lparr>md_tick := Suc (md_tick db)\<rparr> in
      case md_faults db (md_tick db) of
        Some e \<Rightarrow> (Inl e, db')
      | None \<Rightarrow> (case body (md_rows db) of
                  Inl e \<Rightarrow> (Inl e, db')
                | Inr (x, rows) \<Rightarrow> (Inr x, db'\<lparr>md_rows := rows\<rparr>)))"

fun status_value :: "BatchStatus \<Rightarrow> string" where
  "status_value COLLECTING = ''COLLECTING''"
| "status_value SERIALIZING = ''SERIALIZING''"
| "status_value UPLOADING = ''UPLOADING''"
| "status_value UPLOADED = ''UPLOADED''"
| "status_value COMMITTED = ''COMMITTED''"
| "status_value FAILED = ''FAILED''"

fun allowed_transitions :: "BatchStatus \<Rightarrow> BatchStatus list" where
  "allowed_transitions COLLECTING = [SERIALIZING, FAILED]"
| "allowed_transitions SERIALIZING = [UPLOADING, FAILED]"
| "allowed_transitions UPLOADING = [UPLOADED, FAILED]"
| "allowed_transitions UPLOADED = [COMMITTED]"
| "allowed_transitions FAILED = [SERIALIZING]"
| "allowed_transitions COMMITTED = []"

text \<open>The constraints of the \<open>CREATE TABLE\<close> statement.\<close>

definition row_checks :: "BatchManifestRecord \<Rightarrow> bool" where
  "row_checks r \<longleftrightarrow> 0 \<le> mr_partition r \<and> 0 \<le> mr_offset_start r
     \<and> mr_offset_start r \<le> mr_offset_end r \<and> 0 < mr_record_count r \<and> 0 \<le> mr_retry_count r"

definition range_key :: "BatchManifestRecord \<Rightarrow> string \<times> string \<times> int \<times> int \<times> int" where
  "range_key r = (mr_consumer_group r, mr_topic r, mr_partition r, mr_offset_start r, mr_offset_end r)"

definition find_row :: "string \<Rightarrow> BatchManifestRecord list \<Rightarrow> BatchManifestRecord option" where
  "find_row i rows = find (\<lambda>r. mr_batch_id r = i) rows"

definition new_row :: "CdcBatch \<Rightarrow> string \<Rightarrow> instant \<Rightarrow> BatchManifestRecord" where
  "new_row b grp t =
     \<lparr>mr_batch_id = cb_batch_id b, mr_consumer_group = grp, mr_topic = cb_topic b,
      mr_partition = cb_partition b, mr_offset_start = cb_offset_start b,
      mr_offset_end = cb_offset_end b, mr_status = COLLECTING, mr_record_count = record_count b,
      mr_schema_version = cb_schema_version b, mr_checksum_sha256 = None, mr_object_uri = None,
      mr_created_at = t, mr_upload_started_at = None, mr_uploaded_at = None,
      mr_committed_at = None, mr_error_code = None, mr_error_message = None, mr_retry_count = 0\<rparr>"

text \<open>The tuple comparison of \<open>register\<close>.\<close>

definition same_coordinates :: "CdcBatch \<Rightarrow> string \<Rightarrow> BatchManifestRecord \<Rightarrow> bool" where
  "same_coordinates b grp r \<longleftrightarrow>
     mr_consumer_group r = grp \<and> mr_topic r = cb_topic b \<and> mr_partition r = cb_partition b
     \<and> mr_offset_start r = cb_offset_start b \<and> mr_offset_end r = cb_offset_end b
     \<and> mr_record_count r = record_count b \<and> mr_schema_version r = cb_schema_version b"

definition register_body :: "CdcBatch \<Rightarrow> string \<Rightarrow> instant \<Rightarrow> BatchManifestRecord list
    \<Rightarrow> (BatchManifestRecord \<times> BatchManifestRecord list) result" where
  "register_body b grp t rows =
     bindR (case find_row (cb_batch_id b) rows of
              Some r \<Rightarrow> Inr (r, rows)
            | None \<Rightarrow>
                let r = new_row b grp t in
                if row_checks r \<and> range_key r \<notin> set (map range_key rows)
                then Inr (r, rows @ [r])
                else Inl (Manifest_Conflict_Error
                       ''Offset range is already registered under a different batch identity''))
       (\<lambda>(r, rows').
          if same_coordinates b grp r then Inr (r, rows')
          else Inl (Manifest_Conflict_Error
                 ''Deterministic batch ID already exists with different coordinates''))"

definition register_batch :: "CdcBatch \<Rightarrow> string \<Rightarrow> (manifest_db, BatchManifestRecord) eff" where
  "register_batch b grp = bindE now (\<lambda>t. session (register_body b grp t))"

definition get_record :: "string \<Rightarrow> (manifest_db, BatchManifestRecord option) eff" where
  "get_record i = session (\<lambda>rows. Inr (find_row i rows, rows))"

definition require_record :: "string \<Rightarrow> (manifest_db, BatchManifestRecord) eff" where
  "require_record i = bindE (get_record i)
     (\<lambda>r. case r of None \<Rightarrow> raiseE (Manifest_Error (''Unknown CDC batch: '' @ i))
                  | Some x \<Rightarrow> returnE x)"

text \<open>The columns that \<open>_transition\<close> lets its callers set; a value of this type names no other.\<close>

datatype column_update =
    Checksum_sha256 string
  | Object_uri string
  | Upload_started_at instant
  | Uploaded_at instant
  | Committed_at instant
  | Error_code "string option"
  | Error_message "string option"
  | Retry_count int

fun set_column :: "column_update \<Rightarrow> BatchManifestRecord \<Rightarrow> BatchManifestRecord" where
  "set_column (Checksum_sha256 v) r = r\<lparr>mr_checksum_sha256 := Some v\<rparr>"
| "set_column (Object_uri v) r = r\<lparr>mr_object_uri := Some v\<rparr>"
| "set_column (Upload_started_at v) r = r\<lparr>mr_upload_started_at := Some v\<rparr>"
| "set_column (Uploaded_at v) r = r\<lparr>mr_uploaded_at := Some v\<rparr>"
| "set_column (Committed_at v) r = r\<lparr>mr_committed_at := Some v\<rparr>"
| "set_column (Error_code v) r = r\<lparr>mr_error_code := v\<rparr>"
| "set_column (Error_message v) r = r\<lparr>mr_error_message := v\<rparr>"
| "set_column (Retry_count v) r = r\<lparr>mr_retry_count := v\<rparr>"

text \<open>\<open>UPDATE ... WHERE batch_id = ? AND status = ?\<close>: the new rows and the row count.\<close>

definition update_rows :: "string \<Rightarrow> BatchStatus \<Rightarrow> (BatchManifestRecord \<Rightarrow> BatchManifestRecord)
    \<Rightarrow> BatchManifestRecord list \<Rightarrow> (nat \<times> BatchManifestRecord list) result" where
  "update_rows i st f rows =
     (let hit = (\<lambda>r. mr_batch_id r = i \<and> mr_status r = st);
          rows' = map (\<lambda>r. if hit r then f r else r) rows in
      if list_all row_checks (map f (filter hit rows))
      then Inr (length (filter hit rows), rows')
      else Inl (Integrity_Error ''CHECK constraint failed''))"

definition transition :: "string \<Rightarrow> BatchStatus \<Rightarrow> column_update list
    \<Rightarrow> (manifest_db, BatchManifestRecord) eff" where
  "transition i target updates =
     bindE (require_record i) (\<lambda>current.
       if target \<notin> set (allowed_transitions (mr_status current))
       then raiseE (Invalid_Manifest_Transition (''Invalid manifest transition: ''
              @ status_value (mr_status current) @ '' -> '' @ status_value target))
       else seqE (session (\<lambda>rows.
              bindR (update_rows i (mr_status current)
                       (\<lambda>r. fold set_column updates (r\<lparr>mr_status := target\<rparr>)) rows)
                (\<lambda>(rowcount, rows').
                   if rowcount \<noteq> 1 then Inl (Manifest_Error ''Manifest state changed concurrently'')
                   else Inr ((), rows'))))
            (require_record i))"

definition mark_serializing :: "string \<Rightarrow> (manifest_db, BatchManifestRecord) eff" where
  "mark_serializing i =
     bindE (require_record i) (\<lambda>current.
       if mr_status current \<in> {SERIALIZING, UPLOADING, UPLOADED, COMMITTED} then returnE current
       else transition i SERIALIZING [])"

definition mark_uploading :: "string \<Rightarrow> (manifest_db, BatchManifestRecord) eff" where
  "mark_uploading i =
     bindE (require_record i) (\<lambda>current.
       if mr_status current \<in> {UPLOADING, UPLOADED, COMMITTED} then returnE current
       else bindE now (\<lambda>t. transition i UPLOADING [Upload_started_at t]))"

definition mark_uploaded :: "string \<Rightarrow> string \<Rightarrow> string \<Rightarrow> (manifest_db, BatchManifestRecord) eff" where
  "mark_uploaded i checksum uri =
     (if length checksum \<noteq> 64
      then raiseE (Manifest_Error ''Uploaded checksum must be a SHA-256 hex digest'')
      else bindE (require_record i) (\<lambda>current.
        if mr_status current \<in> {UPLOADED, COMMITTED}
        then if mr_checksum_sha256 current \<noteq> Some checksum \<or> mr_object_uri current \<noteq> Some uri
             then raiseE (Manifest_Conflict_Error ''Uploaded artifact differs from manifest evidence'')
             else returnE current
        else bindE now (\<lambda>t. transition i UPLOADED
               [Checksum_sha256 checksum, Object_uri uri, Uploaded_at t,
                Error_code None, Error_message None])))"

definition mark_committed :: "string \<Rightarrow> (manifest_db, BatchManifestRecord) eff" where
  "mark_committed i =
     bindE (require_record i) (\<lambda>current.
       if mr_status current = COMMITTED then returnE current
       else bindE now (\<lambda>t. transition i COMMITTED
              [Committed_at t, Error_code None, Error_message None]))"

text \<open>\<open>message.replace("\r", " ").replace("\n", " ")[:1024]\<close>.\<close>

definition safe_error :: "string \<Rightarrow> string" where
  "safe_error message =
     take 1024 (replace_char (CHR 0x0A) (CHR '' '') (replace_char (CHR 0x0D) (CHR '' '') message))"

definition note_retryable_error :: "string \<Rightarrow> string \<Rightarrow> string \<Rightarrow> (manifest_db, BatchManifestRecord) eff"
  where
  "note_retryable_error i code message =
     bindE (require_record i) (\<lambda>current.
       seqE (session (\<lambda>rows.
               bindR (update_rows i (mr_status current)
                        (fold set_column [Error_code (Some code), Error_message (Some (safe_error message)),
                                          Retry_count (mr_retry_count current + 1)]) rows)
                 (\<lambda>(_, rows'). Inr ((), rows'))))
         (require_record i))"

definition mark_failed :: "string \<Rightarrow> string \<Rightarrow> string \<Rightarrow> (manifest_db, BatchManifestRecord) eff" where
  "mark_failed i code message =
     bindE (require_record i) (\<lambda>current.
       if mr_status current \<in> {UPLOADED, COMMITTED}
       then raiseE (Invalid_Manifest_Transition ''Uploaded evidence cannot be downgraded to FAILED'')
       else if mr_status current = FAILED then note_retryable_error i code message
       else transition i FAILED [Error_code (Some code), Error_message (Some (safe_error message)),
              Retry_count (mr_retry_count current + 1)])"

definition recoverable :: "string \<Rightarrow> (manifest_db, BatchManifestRecord list) eff" where
  "recoverable grp = session (\<lambda>rows.
     Inr (sort_key (\<lambda>r. (mr_topic r, mr_partition r, mr_offset_end r))
            (filter (\<lambda>r. mr_consumer_group r = grp \<and> mr_status r \<in> {UPLOADED, COMMITTED}) rows),
          rows))"

text \<open>\<open>ORDER BY created_at, batch_id\<close> compares the timestamps as the texts they are stored as.\<close>

definition list_all_records :: "(manifest_db, BatchManifestRecord list) eff" where
  "list_all_records = session (\<lambda>rows.
     Inr (sort_key (\<lambda>r. (utc_isoformat (mr_created_at r), mr_batch_id r)) rows, rows))"

fun highest_ranges_from :: "((string \<times> int) \<times> BatchManifestRecord) list \<Rightarrow> BatchManifestRecord list
    \<Rightarrow> ((string \<times> int) \<times> BatchManifestRecord) list" where
  "highest_ranges_from result [] = result"
| "highest_ranges_from result (r # rs) =
     (let key = (mr_topic r, mr_partition r) in
      highest_ranges_from
        (case map_of result key of
           None \<Rightarrow> AList.update key r result
         | Some old \<Rightarrow> if mr_offset_end old < mr_offset_end r then AList.update key r result else result)
        rs)"

definition highest_ranges :: "BatchManifestRecord list \<Rightarrow> ((string \<times> int) \<times> BatchManifestRecord) list" where
  "highest_ranges records = highest_ranges_from [] records"

section \<open>Invariant and evolution\<close>

definition durable :: "BatchManifestRecord \<Rightarrow> bool" where
  "durable r \<longleftrightarrow> mr_status r = UPLOADED \<or> mr_status r = COMMITTED"

text \<open>Uploaded rows carry the evidence of the upload, committed rows the commit time.\<close>

definition row_ok :: "BatchManifestRecord \<Rightarrow> bool" where
  "row_ok r \<longleftrightarrow> row_checks r
     \<and> (durable r \<longrightarrow> (\<exists>c. mr_checksum_sha256 r = Some c \<and> length c = 64)
          \<and> mr_object_uri r \<noteq> None \<and> mr_uploaded_at r \<noteq> None)
     \<and> (mr_status r = COMMITTED \<longrightarrow> mr_committed_at r \<noteq> None)"

definition manifest_inv :: "BatchManifestRecord list \<Rightarrow> bool" where
  "manifest_inv rows \<longleftrightarrow> distinct (map mr_batch_id rows) \<and> distinct (map range_key rows)
     \<and> (\<forall>r \<in> set rows. row_ok r)"

definition status_reaches :: "BatchStatus \<Rightarrow> BatchStatus \<Rightarrow> bool" where
  "status_reaches = (\<lambda>a b. b \<in> set (allowed_transitions a))\<^sup>*\<^sup>*"

definition row_evolves :: "BatchManifestRecord \<Rightarrow> BatchManifestRecord \<Rightarrow> bool" where
  "row_evolves r r' \<longleftrightarrow>
     mr_batch_id r' = mr_batch_id r \<and> range_key r' = range_key r
     \<and> mr_record_count r' = mr_record_count r \<and> mr_schema_version r' = mr_schema_version r
     \<and> mr_created_at r' = mr_created_at r
     \<and> status_reaches (mr_status r) (mr_status r')
     \<and> (durable r \<longrightarrow> durable r' \<and> mr_checksum_sha256 r' = mr_checksum_sha256 r
          \<and> mr_object_uri r' = mr_object_uri r \<and> mr_uploaded_at r' = mr_uploaded_at r)
     \<and> (mr_status r = COMMITTED \<longrightarrow> mr_status r' = COMMITTED \<and> mr_committed_at r' = mr_committed_at r)"

text \<open>No row is ever removed or moved, and each only evolves.\<close>

definition evolves :: "BatchManifestRecord list \<Rightarrow> BatchManifestRecord list \<Rightarrow> bool" where
  "evolves rows rows' \<longleftrightarrow> length rows \<le> length rows'
     \<and> (\<forall>i < length rows. row_evolves (rows ! i) (rows' ! i))"

definition manifest_keeps :: "BatchManifestRecord list \<Rightarrow> manifest_db \<Rightarrow> bool" where
  "manifest_keeps rows0 db \<longleftrightarrow> manifest_inv (md_rows db) \<and> evolves rows0 (md_rows db)"

lemma row_evolves_refl [simp]: "row_evolves r r"
  by (simp add: row_evolves_def status_reaches_def)

lemma row_evolves_trans: "row_evolves a b \<Longrightarrow> row_evolves b c \<Longrightarrow> row_evolves a c"
  unfolding row_evolves_def status_reaches_def by (auto intro: rtranclp_trans)

lemma evolves_refl [simp]: "evolves rows rows"
  by (simp add: evolves_def)

lemma evolves_append: "evolves rows0 rows \<Longrightarrow> evolves rows0 (rows @ new)"
  by (auto simp: evolves_def nth_append)

lemma evolves_trans: "evolves a b \<Longrightarrow> evolves b c \<Longrightarrow> evolves a c"
  unfolding evolves_def by (meson le_trans less_le_trans row_evolves_trans)

lemma evolves_map:
  "(\<And>r. r \<in> set rows \<Longrightarrow> row_evolves r (f r)) \<Longrightarrow> evolves rows (map f rows)"
  by (simp add: evolves_def)

lemma evolves_row:
  "evolves rows rows' \<Longrightarrow> r \<in> set rows \<Longrightarrow> \<exists>r' \<in> set rows'. row_evolves r r'"
  unfolding evolves_def by (metis in_set_conv_nth less_le_trans)

subsection \<open>Sessions\<close>

lemma wp_session [wp_rules]:
  "wp (session body) Q E db =
     (let db' = db\<lparr>md_tick := Suc (md_tick db)\<rparr> in
      case md_faults db (md_tick db) of
        Some e \<Rightarrow> E e db'
      | None \<Rightarrow> (case body (md_rows db) of
                  Inl e \<Rightarrow> E e db'
                | Inr (x, rows) \<Rightarrow> Q x (db'\<lparr>md_rows := rows\<rparr>)))"
  by (auto simp: wp_def session_def Let_def split: option.splits sum.splits prod.splits)

lemma wp_now [wp_rules]: "wp now Q E db = Q (md_clock db (md_tick db)) db"
  by (simp add: now_def wp_getE)

lemma preserves_session:
  assumes "\<And>rows x rows'. I rows \<Longrightarrow> body rows = Inr (x, rows') \<Longrightarrow> I rows'"
  shows "preserves (\<lambda>db. I (md_rows db)) (session body)"
  unfolding preserves_def
  by (auto simp: session_def Let_def split: option.splits sum.splits dest: assms)

lemma preserves_now [preserves_rules]: "preserves I now"
  by (simp add: now_def preserves_getE)

lemma keeps_session:
  assumes "\<And>rows x rows'. manifest_inv rows \<Longrightarrow> body rows = Inr (x, rows') \<Longrightarrow>
      manifest_inv rows' \<and> evolves rows rows'"
  shows "preserves (manifest_keeps rows0) (session body)"
  unfolding manifest_keeps_def [abs_def]
  using preserves_session [of "\<lambda>rows. manifest_inv rows \<and> evolves rows0 rows" body] assms
  by (metis evolves_trans)

subsection \<open>Updates\<close>

lemma find_row_SomeD: "find_row i rows = Some r \<Longrightarrow> r \<in> set rows \<and> mr_batch_id r = i"
  by (auto simp: find_row_def find_Some_iff)

lemma find_row_iff:
  assumes "distinct (map mr_batch_id rows)"
  shows "find_row i rows = Some r \<longleftrightarrow> r \<in> set rows \<and> mr_batch_id r = i"
proof
  assume r: "r \<in> set rows \<and> mr_batch_id r = i"
  then have "find_row i rows \<noteq> None" by (auto simp: find_row_def find_None_iff)
  then obtain r' where r': "find_row i rows = Some r'" by blast
  from find_row_SomeD [OF this] r assms have "r' = r"
    by (metis distinct_map inj_on_eq_iff)
  with r' show "find_row i rows = Some r" by simp
qed (rule find_row_SomeD)

text \<open>An update that is good for rows of the given status keeps the invariant.\<close>

definition good_update :: "BatchStatus \<Rightarrow> (BatchManifestRecord \<Rightarrow> BatchManifestRecord) \<Rightarrow> bool" where
  "good_update st f \<longleftrightarrow> (\<forall>r. row_ok r \<longrightarrow> mr_status r = st \<longrightarrow> row_checks (f r) \<longrightarrow>
     row_ok (f r) \<and> row_evolves r (f r))"

lemma update_rows_keeps:
  assumes "good_update st f" and "manifest_inv rows" and "update_rows i st f rows = Inr (n, rows')"
  shows "manifest_inv rows' \<and> evolves rows rows'"
proof -
  let ?g = "\<lambda>r. if mr_batch_id r = i \<and> mr_status r = st then f r else r"
  have rows': "rows' = map ?g rows"
    and c: "\<forall>r \<in> set rows. mr_batch_id r = i \<and> mr_status r = st \<longrightarrow> row_checks (f r)"
    using assms(3) by (auto simp: update_rows_def Let_def list_all_iff split: if_splits)
  have g: "row_ok (?g r) \<and> row_evolves r (?g r)" if "r \<in> set rows" for r
    using assms(1,2) c that by (auto simp: good_update_def manifest_inv_def)
  have "map mr_batch_id rows' = map mr_batch_id rows" "map range_key rows' = map range_key rows"
    unfolding rows' map_map using g by (auto simp: row_evolves_def o_def cong: map_cong)
  moreover have "\<forall>r \<in> set rows'. row_ok r" unfolding rows' using g by (force simp del: row_evolves_refl)
  ultimately have "manifest_inv rows'" using assms(2) by (simp add: manifest_inv_def)
  moreover have "evolves rows rows'" unfolding rows' using g by (intro evolves_map) blast
  ultimately show ?thesis ..
qed

subsection \<open>Every operation keeps the invariant\<close>

definition evidence_updates :: "BatchStatus \<Rightarrow> column_update list \<Rightarrow> bool" where
  "evidence_updates target ups \<longleftrightarrow> (\<forall>r. let r' = fold set_column ups r in
     range_key r' = range_key r \<and> mr_batch_id r' = mr_batch_id r \<and> mr_status r' = mr_status r
     \<and> mr_record_count r' = mr_record_count r \<and> mr_schema_version r' = mr_schema_version r
     \<and> mr_created_at r' = mr_created_at r
     \<and> (if target = UPLOADED
        then (\<exists>c. mr_checksum_sha256 r' = Some c \<and> length c = 64) \<and> mr_object_uri r' \<noteq> None
             \<and> mr_uploaded_at r' \<noteq> None
        else mr_checksum_sha256 r' = mr_checksum_sha256 r \<and> mr_object_uri r' = mr_object_uri r
             \<and> mr_uploaded_at r' = mr_uploaded_at r)
     \<and> (if target = COMMITTED then mr_committed_at r' \<noteq> None
        else mr_committed_at r' = mr_committed_at r))"

lemma good_transition:
  assumes "evidence_updates target ups" and "target \<in> set (allowed_transitions st)"
  shows "good_update st (\<lambda>r. fold set_column ups (r\<lparr>mr_status := target\<rparr>))"
proof -
  have reach: "status_reaches st target"
    unfolding status_reaches_def using assms(2) by (intro r_into_rtranclp)
  show ?thesis
    unfolding good_update_def
  proof (intro allI impI)
    fix r assume r: "row_ok r" "mr_status r = st"
    define x where "x = fold set_column ups (r\<lparr>mr_status := target\<rparr>)"
    assume "row_checks (fold set_column ups (r\<lparr>mr_status := target\<rparr>))"
    then have c: "row_checks x" by (simp add: x_def)
    have key: "range_key (r\<lparr>mr_status := target\<rparr>) = range_key r" by (simp add: range_key_def)
    note ev = assms(1) [unfolded evidence_updates_def Let_def, rule_format, of "r\<lparr>mr_status := target\<rparr>",
        folded x_def, unfolded key, simplified]
    have st: "mr_status x = target" using ev by simp
    have tr: "target = COMMITTED \<Longrightarrow> st = UPLOADED" "st = UPLOADED \<Longrightarrow> target = COMMITTED" "st \<noteq> COMMITTED"
      using assms(2) by (cases st; simp)+
    have "row_ok x"
      unfolding row_ok_def durable_def st
      using ev r c tr by (cases "target = COMMITTED") (auto simp: row_ok_def durable_def)
    moreover have "row_evolves r x"
      unfolding row_evolves_def durable_def st r(2) using ev reach tr by auto
    ultimately show "row_ok (fold set_column ups (r\<lparr>mr_status := target\<rparr>))
        \<and> row_evolves r (fold set_column ups (r\<lparr>mr_status := target\<rparr>))"
      unfolding x_def [symmetric] ..
  qed
qed

lemma keeps_get_record [preserves_rules]: "preserves (manifest_keeps rows0) (get_record i)"
  unfolding get_record_def by (rule keeps_session) auto

lemma keeps_require_record [preserves_rules]: "preserves (manifest_keeps rows0) (require_record i)"
  unfolding require_record_def by (intro preserves_rules)

lemma keeps_transition:
  assumes "evidence_updates target ups"
  shows "preserves (manifest_keeps rows0) (transition i target ups)"
proof -
  have "preserves (manifest_keeps rows0) (session (\<lambda>rows.
      bindR (update_rows i st (\<lambda>r. fold set_column ups (r\<lparr>mr_status := target\<rparr>)) rows)
        (\<lambda>(rowcount, rows'). if rowcount \<noteq> 1 then Inl (Manifest_Error ''Manifest state changed concurrently'')
           else Inr ((), rows'))))" if "target \<in> set (allowed_transitions st)" for st
    by (rule keeps_session, rule update_rows_keeps [OF good_transition [OF assms that]])
      (auto simp: bindR_eq_Inr split: if_splits)
  then show ?thesis unfolding transition_def by (intro preserves_rules) blast
qed

lemma row_checks_new_row_ok: "row_checks (new_row b grp t) \<Longrightarrow> row_ok (new_row b grp t)"
  by (simp add: row_ok_def durable_def) (simp add: new_row_def)

lemma keeps_register_batch [preserves_rules]: "preserves (manifest_keeps rows0) (register_batch b grp)"
proof -
  have "preserves (manifest_keeps rows0) (session (register_body b grp t))" for t
  proof (rule keeps_session)
    fix rows x rows'
    assume inv: "manifest_inv rows" and reg: "register_body b grp t rows = Inr (x, rows')"
    have id: "mr_batch_id (new_row b grp t) = cb_batch_id b" by (simp add: new_row_def)
    from reg consider "rows' = rows"
      | "find_row (cb_batch_id b) rows = None" "row_checks (new_row b grp t)"
        "range_key (new_row b grp t) \<notin> set (map range_key rows)" "rows' = rows @ [new_row b grp t]"
      by (auto simp: register_body_def bindR_eq_Inr Let_def split: option.splits if_splits)
    then show "manifest_inv rows' \<and> evolves rows rows'"
    proof cases
      case 2
      then have "cb_batch_id b \<notin> set (map mr_batch_id rows)"
        by (auto simp: find_row_def find_None_iff)
      with 2 inv row_checks_new_row_ok show ?thesis
        by (auto simp: manifest_inv_def id evolves_append)
    qed (use inv in auto)
  qed
  then show ?thesis unfolding register_batch_def by (intro preserves_rules)
qed

lemma keeps_mark_serializing [preserves_rules]: "preserves (manifest_keeps rows0) (mark_serializing i)"
  unfolding mark_serializing_def by (intro preserves_rules keeps_transition) (simp add: evidence_updates_def)

lemma keeps_mark_uploading [preserves_rules]: "preserves (manifest_keeps rows0) (mark_uploading i)"
  unfolding mark_uploading_def
  by (intro preserves_rules keeps_transition) (simp add: evidence_updates_def range_key_def)

lemma keeps_mark_uploaded [preserves_rules]: "preserves (manifest_keeps rows0) (mark_uploaded i c u)"
proof (cases "length c = 64")
  case True
  then have "evidence_updates UPLOADED [Checksum_sha256 c, Object_uri u, Uploaded_at t, Error_code None,
      Error_message None]" for t
    by (simp add: evidence_updates_def range_key_def)
  then show ?thesis unfolding mark_uploaded_def by (intro preserves_rules keeps_transition)
qed (simp add: mark_uploaded_def preserves_raiseE)

lemma keeps_mark_committed [preserves_rules]: "preserves (manifest_keeps rows0) (mark_committed i)"
  unfolding mark_committed_def
  by (intro preserves_rules keeps_transition) (simp add: evidence_updates_def range_key_def)

lemma keeps_note_retryable_error [preserves_rules]:
  "preserves (manifest_keeps rows0) (note_retryable_error i code message)"
proof -
  have g: "good_update st (fold set_column [Error_code a, Error_message m, Retry_count n])" for st a m n
    by (auto simp: good_update_def row_ok_def row_evolves_def range_key_def durable_def
        status_reaches_def)
  have "preserves (manifest_keeps rows0) (session (\<lambda>rows. bindR (update_rows i st
      (fold set_column [Error_code a, Error_message m, Retry_count n]) rows) (\<lambda>(_, rows'). Inr ((), rows'))))"
    for st a m n
    by (rule keeps_session) (use update_rows_keeps [OF g] in \<open>fastforce simp: bindR_eq_Inr simp del: fold_simps\<close>)
  then show ?thesis unfolding note_retryable_error_def by (intro preserves_rules)
qed

lemma keeps_mark_failed [preserves_rules]: "preserves (manifest_keeps rows0) (mark_failed i code message)"
  unfolding mark_failed_def
  by (intro preserves_rules keeps_transition) (simp add: evidence_updates_def range_key_def)

lemma keeps_recoverable [preserves_rules]: "preserves (manifest_keeps rows0) (recoverable grp)"
  unfolding recoverable_def by (rule keeps_session) auto

lemma keeps_list_all_records [preserves_rules]: "preserves (manifest_keeps rows0) list_all_records"
  unfolding list_all_records_def by (rule keeps_session) auto

text \<open>Any call of the store's interface, by any caller, with any arguments, faults included.\<close>

inductive manifest_step :: "manifest_db \<Rightarrow> manifest_db \<Rightarrow> bool" where
  step_register: "manifest_step db (snd (register_batch b grp db))"
| step_get: "manifest_step db (snd (get_record i db))"
| step_serializing: "manifest_step db (snd (mark_serializing i db))"
| step_uploading: "manifest_step db (snd (mark_uploading i db))"
| step_uploaded: "manifest_step db (snd (mark_uploaded i c u db))"
| step_committed: "manifest_step db (snd (mark_committed i db))"
| step_failed: "manifest_step db (snd (mark_failed i code message db))"
| step_note: "manifest_step db (snd (note_retryable_error i code message db))"
| step_recoverable: "manifest_step db (snd (recoverable grp db))"
| step_list: "manifest_step db (snd (list_all_records db))"

lemma manifest_step_keeps: "manifest_step db db' \<Longrightarrow> manifest_keeps rows0 db \<Longrightarrow> manifest_keeps rows0 db'"
  by (induction rule: manifest_step.induct) (erule preservesD [rotated], intro preserves_rules)+

lemma manifest_steps_keep: "manifest_step\<^sup>*\<^sup>* db db' \<Longrightarrow> manifest_keeps rows0 db \<Longrightarrow> manifest_keeps rows0 db'"
  by (induction rule: rtranclp_induct) (auto intro: manifest_step_keeps)

subsection \<open>Results of the operations\<close>

lemma set_column_id [simp]: "mr_batch_id (set_column u r) = mr_batch_id r"
  by (cases u) simp_all

lemma fold_set_column_id [simp]: "mr_batch_id (fold set_column ups r) = mr_batch_id r"
  by (induction ups arbitrary: r) simp_all

lemma find_row_update:
  assumes "\<And>r. mr_batch_id (f r) = mr_batch_id r"
  shows "find_row i (map (\<lambda>r. if mr_batch_id r = i \<and> mr_status r = st then f r else r) rows)
    = map_option (\<lambda>r. if mr_status r = st then f r else r) (find_row i rows)"
  unfolding find_row_def using assms by (induction rows) auto

lemma get_record_result:
  "get_record i db = (q, db') \<Longrightarrow> md_rows db' = md_rows db \<and> md_faults db' = md_faults db
     \<and> (\<forall>x. q = Inr x \<longrightarrow> x = find_row i (md_rows db))"
  by (auto simp: get_record_def session_def Let_def split: option.splits)

lemma require_record_result:
  "require_record i db = (q, db') \<Longrightarrow> md_rows db' = md_rows db \<and> md_faults db' = md_faults db
     \<and> (\<forall>x. q = Inr x \<longrightarrow> find_row i (md_rows db) = Some x)"
  by (cases "get_record i db")
    (auto simp: require_record_def bindE_def raiseE_def returnE_def dest!: get_record_result
      split: sum.splits option.splits)

lemma update_rows_find:
  assumes "update_rows i st f rows = Inr (n, rows')" and "\<And>r. mr_batch_id (f r) = mr_batch_id r"
  shows "find_row i rows' = map_option (\<lambda>r. if mr_status r = st then f r else r) (find_row i rows)"
  using assms find_row_update [of f i st rows] by (simp add: update_rows_def Let_def split: if_splits)

lemma transition_ok:
  assumes "transition i target ups db = (Inr r, db')"
  shows "\<exists>cur. find_row i (md_rows db) = Some cur \<and> target \<in> set (allowed_transitions (mr_status cur))
    \<and> r = fold set_column ups (cur\<lparr>mr_status := target\<rparr>) \<and> find_row i (md_rows db') = Some r"
proof -
  obtain q db1 where r1: "require_record i db = (q, db1)" by fastforce
  with assms obtain cur where q: "q = Inr cur" and al: "target \<in> set (allowed_transitions (mr_status cur))"
    by (auto simp: transition_def bindE_def raiseE_def split: sum.splits if_splits)
  let ?f = "\<lambda>r. fold set_column ups (r\<lparr>mr_status := target\<rparr>)"
  from require_record_result [OF r1] q have cur: "find_row i (md_rows db) = Some cur" "md_rows db1 = md_rows db"
    by auto
  from assms r1 q al obtain n rows' db2 where u: "update_rows i (mr_status cur) ?f (md_rows db1) = Inr (n, rows')"
    and db2: "md_rows db2 = rows'" and r2: "require_record i db2 = (Inr r, db')"
    by (atomize_elim) (force simp: transition_def bindE_def seqE_def session_def Let_def bindR_def
        split: sum.splits if_splits option.splits prod.splits)
  from require_record_result [OF r2] update_rows_find [OF u] cur db2 al show ?thesis by auto
qed

lemma mark_uploaded_ok:
  assumes "mark_uploaded i c u db = (Inr r, db')"
  shows "length c = 64 \<and> find_row i (md_rows db') = Some r \<and> durable r
    \<and> mr_checksum_sha256 r = Some c \<and> mr_object_uri r = Some u"
proof -
  have l: "length c = 64" using assms by (auto simp: mark_uploaded_def raiseE_def split: if_splits)
  obtain q db1 where r1: "require_record i db = (q, db1)" by fastforce
  with assms l obtain cur where q: "q = Inr cur" by (auto simp: mark_uploaded_def bindE_def split: sum.splits)
  show ?thesis
  proof (cases "durable cur")
    case True
    with assms l r1 q show ?thesis
      by (auto simp: mark_uploaded_def bindE_def raiseE_def returnE_def durable_def split: if_splits
          dest: require_record_result)
  next
    case False
    with assms l r1 q obtain t where "transition i UPLOADED [Checksum_sha256 c, Object_uri u, Uploaded_at t,
        Error_code None, Error_message None] db1 = (Inr r, db')"
      by (auto simp: mark_uploaded_def bindE_def now_def getE_def durable_def)
    from transition_ok [OF this] l show ?thesis by (auto simp: durable_def)
  qed
qed

lemma committed_from: "COMMITTED \<in> set (allowed_transitions st) \<longleftrightarrow> st = UPLOADED"
  by (cases st) simp_all

lemma find_row_append:
  "find_row i (xs @ ys) = (case find_row i xs of None \<Rightarrow> find_row i ys | Some r \<Rightarrow> Some r)"
  unfolding find_row_def by (induction xs) simp_all

lemma mark_committed_ok:
  assumes "mark_committed i db = (Inr r, db')"
  shows "\<exists>cur. find_row i (md_rows db) = Some cur \<and> durable cur \<and> find_row i (md_rows db') = Some r
    \<and> mr_status r = COMMITTED \<and> mr_checksum_sha256 r = mr_checksum_sha256 cur
    \<and> mr_object_uri r = mr_object_uri cur"
proof -
  obtain q db1 where r1: "require_record i db = (q, db1)" by fastforce
  with assms obtain cur where q: "q = Inr cur" by (auto simp: mark_committed_def bindE_def split: sum.splits)
  note cur = require_record_result [OF r1, unfolded q, simplified]
  show ?thesis
  proof (cases "mr_status cur = COMMITTED")
    case True
    with assms r1 q cur show ?thesis by (auto simp: mark_committed_def bindE_def returnE_def durable_def)
  next
    case False
    with assms r1 q obtain t where "transition i COMMITTED [Committed_at t, Error_code None, Error_message None]
        db1 = (Inr r, db')"
      by (auto simp: mark_committed_def bindE_def now_def getE_def)
    from transition_ok [OF this] cur show ?thesis
      by (auto simp: durable_def committed_from)
  qed
qed

lemma register_batch_ok:
  assumes "register_batch b grp db = (Inr r, db')"
  shows "find_row (cb_batch_id b) (md_rows db') = Some r \<and> same_coordinates b grp r
    \<and> (case find_row (cb_batch_id b) (md_rows db) of
         Some r' \<Rightarrow> r' = r \<and> md_rows db' = md_rows db
       | None \<Rightarrow> (\<exists>t. r = new_row b grp t) \<and> md_rows db' = md_rows db @ [r])"
proof -
  let ?i = "cb_batch_id b"
  have id: "find_row ?i [new_row b grp t] = Some (new_row b grp t)" for t
    by (simp add: new_row_def find_row_def)
  obtain t where t: "register_body b grp t (md_rows db) = Inr (r, md_rows db')"
    using assms unfolding register_batch_def bindE_def now_def getE_def
    by (simp add: session_def Let_def split: option.splits sum.splits prod.splits) auto
  show ?thesis
  proof (cases "find_row ?i (md_rows db)")
    case None
    with t have "r = new_row b grp t" "md_rows db' = md_rows db @ [r]" "same_coordinates b grp r"
      by (auto simp: register_body_def Let_def bindR_eq_Inr split: if_splits)
    with None id show ?thesis by (auto simp: find_row_append)
  next
    case (Some r')
    with t show ?thesis by (simp add: register_body_def split: if_splits)
  qed
qed

subsection \<open>Runs without faults\<close>

lemma unique_row:
  assumes "manifest_inv rows" and "find_row i rows = Some cur"
  shows "r \<in> set rows \<Longrightarrow> mr_batch_id r = i \<Longrightarrow> r = cur"
proof -
  assume "r \<in> set rows" "mr_batch_id r = i"
  then have "find_row i rows = Some r" using assms(1) by (simp add: find_row_iff manifest_inv_def)
  with assms(2) show "r = cur" by simp
qed

lemma filter_unique_row:
  assumes "manifest_inv rows" and "find_row i rows = Some cur"
  shows "filter (\<lambda>r. mr_batch_id r = i) rows = [cur]"
proof -
  have d: "distinct (map mr_batch_id (filter (\<lambda>r. mr_batch_id r = i) rows))"
    using assms(1) by (simp add: manifest_inv_def distinct_map_filter)
  have set: "set (filter (\<lambda>r. mr_batch_id r = i) rows) = {cur}"
    using unique_row [OF assms] find_row_SomeD [OF assms(2)] by auto
  with d show ?thesis
    by (metis distinct_map distinct_card card.empty card_insert_disjoint empty_iff finite.emptyI
        length_0_conv length_Suc_conv list.set(1) list.simps(15) singleton_insert_inj_eq')
qed

lemma session_run:
  "md_faults db = (\<lambda>_. None) \<Longrightarrow> body (md_rows db) = Inr (x, rows) \<Longrightarrow>
     session body db = (Inr x, db\<lparr>md_tick := Suc (md_tick db), md_rows := rows\<rparr>)"
  by (simp add: session_def Let_def)

lemma require_record_run:
  "md_faults db = (\<lambda>_. None) \<Longrightarrow> find_row i (md_rows db) = Some cur \<Longrightarrow>
     require_record i db = (Inr cur, db\<lparr>md_tick := Suc (md_tick db)\<rparr>)"
  by (simp add: require_record_def get_record_def session_def bindE_def returnE_def Let_def)

lemma transition_run:
  assumes nf: "md_faults db = (\<lambda>_. None)" and inv: "manifest_inv (md_rows db)"
    and cur: "find_row i (md_rows db) = Some cur" and al: "target \<in> set (allowed_transitions (mr_status cur))"
    and chk: "row_checks (fold set_column ups (cur\<lparr>mr_status := target\<rparr>))"
  shows "\<exists>db'. transition i target ups db = (Inr (fold set_column ups (cur\<lparr>mr_status := target\<rparr>)), db')
    \<and> md_faults db' = (\<lambda>_. None)
    \<and> md_rows db' = map (\<lambda>r. if mr_batch_id r = i then fold set_column ups (r\<lparr>mr_status := target\<rparr>) else r) (md_rows db)"
proof -
  let ?f = "\<lambda>r. fold set_column ups (r\<lparr>mr_status := target\<rparr>)"
  let ?rows = "map (\<lambda>r. if mr_batch_id r = i then ?f r else r) (md_rows db)"
  have hit: "mr_batch_id r = i \<and> mr_status r = mr_status cur \<longleftrightarrow> mr_batch_id r = i" if "r \<in> set (md_rows db)" for r
    using unique_row [OF inv cur that] by auto
  have "filter (\<lambda>r. mr_batch_id r = i \<and> mr_status r = mr_status cur) (md_rows db) = [cur]"
    unfolding filter_unique_row [OF inv cur, symmetric] by (rule filter_cong [OF refl]) (rule hit)
  moreover have "map (\<lambda>r. if mr_batch_id r = i \<and> mr_status r = mr_status cur then ?f r else r) (md_rows db) = ?rows"
    by (rule map_cong [OF refl]) (simp only: hit)
  ultimately have upd: "update_rows i (mr_status cur) ?f (md_rows db) = Inr (1, ?rows)"
    using chk by (simp add: update_rows_def)
  have new: "find_row i ?rows = Some (?f cur)"
    using update_rows_find [OF upd] cur by simp
  define db1 where "db1 = db\<lparr>md_tick := Suc (md_tick db)\<rparr>"
  define db2 where "db2 = db1\<lparr>md_tick := Suc (md_tick db1), md_rows := ?rows\<rparr>"
  define db3 where "db3 = db2\<lparr>md_tick := Suc (md_tick db2)\<rparr>"
  have s1: "require_record i db = (Inr cur, db1)"
    unfolding db1_def by (rule require_record_run [OF nf cur])
  have s2: "session (\<lambda>rows. bindR (update_rows i (mr_status cur) ?f rows)
      (\<lambda>(rowcount, rows'). if rowcount \<noteq> 1 then Inl (Manifest_Error ''Manifest state changed concurrently'')
         else Inr ((), rows'))) db1 = (Inr (), db2)"
    unfolding db2_def by (rule session_run) (simp_all add: db1_def nf upd)
  have s3: "require_record i db2 = (Inr (?f cur), db3)"
    unfolding db3_def by (rule require_record_run) (simp_all add: db2_def db1_def nf new)
  have "transition i target ups db = (Inr (?f cur), db3)"
    by (simp only: transition_def bindE_Inr [of "require_record i", OF s1] al not_not if_False simp_thms seqE_Inr [of "session _", OF s2] s3)
  then show ?thesis by (simp add: db3_def db2_def db1_def nf)
qed

lemma mark_committed_run:
  assumes nf: "md_faults db = (\<lambda>_. None)" and inv: "manifest_inv (md_rows db)"
    and cur: "find_row i (md_rows db) = Some cur" and up: "mr_status cur = UPLOADED"
  shows "\<exists>r db' t. mark_committed i db = (Inr r, db') \<and> md_faults db' = (\<lambda>_. None)
    \<and> md_rows db' = map (\<lambda>r. if mr_batch_id r = i
        then r\<lparr>mr_status := COMMITTED, mr_committed_at := Some t, mr_error_code := None, mr_error_message := None\<rparr>
        else r) (md_rows db)"
proof -
  define db1 where "db1 = db\<lparr>md_tick := Suc (md_tick db)\<rparr>"
  let ?t = "md_clock db1 (md_tick db1)"
  let ?ups = "[Committed_at ?t, Error_code None, Error_message None]"
  have s1: "require_record i db = (Inr cur, db1)" unfolding db1_def by (rule require_record_run [OF nf cur])
  have n: "now db1 = (Inr ?t, db1)" by (simp add: now_def getE_def)
  have "row_checks cur" using inv find_row_SomeD [OF cur] by (auto simp: manifest_inv_def row_ok_def)
  then obtain db' where tr: "transition i COMMITTED ?ups db1
      = (Inr (fold set_column ?ups (cur\<lparr>mr_status := COMMITTED\<rparr>)), db')" "md_faults db' = (\<lambda>_. None)"
    "md_rows db' = map (\<lambda>r. if mr_batch_id r = i then fold set_column ?ups (r\<lparr>mr_status := COMMITTED\<rparr>) else r) (md_rows db1)"
    using transition_run [of db1 i cur COMMITTED ?ups] nf inv cur up by (auto simp: db1_def row_checks_def)
  have "mark_committed i db = (Inr (fold set_column ?ups (cur\<lparr>mr_status := COMMITTED\<rparr>)), db')"
    using up by (simp only: mark_committed_def bindE_Inr [of "require_record i", OF s1] bindE_Inr [of now, OF n] tr(1)
        BatchStatus.distinct if_False)
  with tr(2,3) show ?thesis by (intro exI [of _ db'] exI [of _ ?t] exI) (auto simp: db1_def)
qed

section \<open>Properties\<close>

definition empty_manifest :: manifest_db where
  "empty_manifest = \<lparr>md_rows = [], md_faults = \<lambda>_. None, md_tick = 0, md_clock = \<lambda>_. 0\<rparr>"

lemma manifest_inv_empty [simp]: "manifest_inv (md_rows empty_manifest)"
  by (simp add: empty_manifest_def manifest_inv_def)

text \<open>
  C5. Whatever sequence of manifest calls runs, with whatever arguments and SQLite faults, the
  table keeps its invariant (unique batch ids and ranges, uploaded rows carry a 64-character
  checksum and an object URI, committed rows a commit time), and every row persists: its
  coordinates never change, its status moves only along the allowed transitions, and the
  evidence of an uploaded or committed row is never lost, altered or downgraded.
\<close>

theorem manifest_lifecycle:
  assumes "manifest_inv (md_rows db)" and "manifest_step\<^sup>*\<^sup>* db db'"
  shows "manifest_inv (md_rows db') \<and> evolves (md_rows db) (md_rows db')
    \<and> (\<forall>r \<in> set (md_rows db). \<exists>r' \<in> set (md_rows db'). row_evolves r r')"
proof -
  have "manifest_keeps (md_rows db) db'"
    by (rule manifest_steps_keep [OF assms(2)]) (simp add: manifest_keeps_def assms(1))
  then show ?thesis using evolves_row by (auto simp: manifest_keeps_def)
qed

theorem manifest_lifecycle_witness:
  "manifest_inv (md_rows (snd (mark_serializing (cb_batch_id (batch_of [sample_event 0 7]))
      (snd (register_batch (batch_of [sample_event 0 7]) ''g'' empty_manifest)))))"
proof -
  let ?db1 = "snd (register_batch (batch_of [sample_event 0 7]) ''g'' empty_manifest)"
  have "manifest_step\<^sup>*\<^sup>* empty_manifest (snd (mark_serializing (cb_batch_id (batch_of [sample_event 0 7])) ?db1))"
    by (meson manifest_step.intros rtranclp.rtrancl_into_rtrancl rtranclp.rtrancl_refl)
  from manifest_lifecycle [OF manifest_inv_empty this] show ?thesis by blast
qed

text \<open>
  C10. Registration is idempotent and detects conflicts: once a batch was registered, registering
  it again after any further manifest activity returns the evolved row of the same coordinates
  and changes nothing, while a batch that has the same identity and other coordinates, or
  another consumer group, is refused with \<open>ManifestConflictError\<close>.
\<close>

theorem register_replay:
  assumes "manifest_inv (md_rows db)" and "register_batch b grp db = (Inr r, db1)"
    and "manifest_step\<^sup>*\<^sup>* db1 db2" and "md_faults db2 (md_tick db2) = None"
  shows "\<exists>r' db3. register_batch b grp db2 = (Inr r', db3) \<and> row_evolves r r'
      \<and> md_rows db3 = md_rows db2
      \<and> (cb_batch_id b' = cb_batch_id b \<and> \<not> same_coordinates b' grp' r \<longrightarrow>
          (\<exists>m. fst (register_batch b' grp' db2) = Inl (Manifest_Conflict_Error m)))"
proof -
  have k1: "manifest_keeps (md_rows db) db1"
    using preservesD [OF keeps_register_batch, of "md_rows db" db b grp] assms(1,2)
    by (simp add: manifest_keeps_def)
  have k2: "manifest_keeps (md_rows db1) db2"
    by (rule manifest_steps_keep [OF assms(3)]) (use k1 in \<open>simp add: manifest_keeps_def\<close>)
  from register_batch_ok [OF assms(2)] have r: "find_row (cb_batch_id b) (md_rows db1) = Some r"
    "same_coordinates b grp r" by simp_all
  from find_row_SomeD [OF r(1)] k2 obtain r' where r': "r' \<in> set (md_rows db2)" "row_evolves r r'"
    using evolves_row [of "md_rows db1" "md_rows db2" r] by (auto simp: manifest_keeps_def)
  with find_row_SomeD [OF r(1)] k2 have f: "find_row (cb_batch_id b) (md_rows db2) = Some r'"
    by (auto simp: find_row_iff manifest_keeps_def manifest_inv_def row_evolves_def)
  have same: "same_coordinates c g r' \<longleftrightarrow> same_coordinates c g r" for c g
    using r'(2) by (auto simp: same_coordinates_def row_evolves_def range_key_def)
  show ?thesis
    using assms(4) f r' r(2) same
    by (auto simp: register_batch_def bindE_def now_def getE_def session_def register_body_def)
qed

theorem register_replay_witness:
  "\<exists>r' db3. register_batch (batch_of [sample_event 0 7]) ''g''
      (snd (register_batch (batch_of [sample_event 0 7]) ''g'' empty_manifest)) = (Inr r', db3)
    \<and> mr_status r' = COLLECTING"
proof -
  let ?b = "batch_of [sample_event 0 7]"
  let ?r = "new_row ?b ''g'' 0"
  have reg: "register_batch ?b ''g'' empty_manifest
      = (Inr ?r, empty_manifest\<lparr>md_tick := 1, md_rows := [?r]\<rparr>)"
    by (simp add: register_batch_def bindE_def now_def getE_def session_def empty_manifest_def
        register_body_def find_row_def row_checks_def new_row_def same_coordinates_def
        batch_of_def record_count_def sample_event_def Let_def)
  from register_replay [OF manifest_inv_empty reg rtranclp.rtrancl_refl,
      where b' = ?b and grp' = "''g''"] obtain r' db3 where
    "register_batch ?b ''g'' (empty_manifest\<lparr>md_tick := 1, md_rows := [?r]\<rparr>) = (Inr r', db3)"
    by (auto simp: empty_manifest_def)
  moreover from register_batch_ok [OF this] have "r' = ?r"
    by (simp add: find_row_def) (simp add: new_row_def)
  ultimately show ?thesis unfolding reg by (auto simp: new_row_def)
qed

text \<open>
  C9. Only an uploaded batch can be committed: a successful \<open>mark_committed\<close> found the row
  UPLOADED or already COMMITTED with a SHA-256 checksum and an object URI and keeps both, and
  for any other batch the call raises and the table is unchanged.
\<close>

theorem commit_requires_upload:
  assumes "manifest_inv (md_rows db)" and "mark_committed i db = (q, db')"
  shows "(\<forall>r. q = Inr r \<longrightarrow> (\<exists>cur c u. find_row i (md_rows db) = Some cur \<and> durable cur
            \<and> mr_checksum_sha256 r = Some c \<and> mr_checksum_sha256 cur = Some c \<and> length c = 64
            \<and> mr_object_uri r = Some u \<and> mr_object_uri cur = Some u \<and> mr_status r = COMMITTED
            \<and> find_row i (md_rows db') = Some r))
    \<and> ((\<forall>cur. find_row i (md_rows db) = Some cur \<longrightarrow> \<not> durable cur) \<longrightarrow>
          (\<exists>e. q = Inl e) \<and> md_rows db' = md_rows db)"
proof (intro conjI allI impI)
  fix r assume q: "q = Inr r"
  from mark_committed_ok [OF assms(2) [unfolded q]] obtain cur where cur:
    "find_row i (md_rows db) = Some cur" "durable cur" "find_row i (md_rows db') = Some r"
    "mr_status r = COMMITTED" "mr_checksum_sha256 r = mr_checksum_sha256 cur"
    "mr_object_uri r = mr_object_uri cur" by blast
  with assms(1) find_row_SomeD [OF cur(1)] have "row_ok cur" by (auto simp: manifest_inv_def)
  with cur show "\<exists>cur c u. find_row i (md_rows db) = Some cur \<and> durable cur
      \<and> mr_checksum_sha256 r = Some c \<and> mr_checksum_sha256 cur = Some c \<and> length c = 64
      \<and> mr_object_uri r = Some u \<and> mr_object_uri cur = Some u \<and> mr_status r = COMMITTED
      \<and> find_row i (md_rows db') = Some r"
    by (auto simp: row_ok_def)
next
  assume nd: "\<forall>cur. find_row i (md_rows db) = Some cur \<longrightarrow> \<not> durable cur"
  show "\<exists>e. q = Inl e"
    using nd mark_committed_ok [of i db _ db'] assms(2) by (cases q) auto
  have req: "wp (require_record i) (\<lambda>x d. md_rows d = md_rows db \<and> find_row i (md_rows db) = Some x)
      (\<lambda>_ d. md_rows d = md_rows db) d" if "md_rows d = md_rows db" for d
    using that by (intro wp_I) (auto dest!: require_record_result)
  have "wp (mark_committed i) (\<lambda>_ d. md_rows d = md_rows db) (\<lambda>_ d. md_rows d = md_rows db) db"
    unfolding mark_committed_def transition_def wp_rules
    by (rule wp_mono [OF req]) (use nd in \<open>auto simp: wp_rules durable_def committed_from
        intro!: wp_mono [OF req]\<close>)
  with assms(2) show "md_rows db' = md_rows db" by (auto simp: wp_def split: sum.splits)
qed

theorem commit_requires_upload_witness:
  "\<exists>e. fst (mark_committed ''missing'' empty_manifest) = Inl e"
  using commit_requires_upload [OF manifest_inv_empty, of "''missing''"
      "fst (mark_committed ''missing'' empty_manifest)" "snd (mark_committed ''missing'' empty_manifest)"]
  by (simp add: empty_manifest_def find_row_def)

text \<open>The fold that \<open>highest_ranges\<close> performs for one key.\<close>

definition pick_highest :: "string \<times> int \<Rightarrow> BatchManifestRecord option \<Rightarrow> BatchManifestRecord
    \<Rightarrow> BatchManifestRecord option" where
  "pick_highest k v r = (if (mr_topic r, mr_partition r) \<noteq> k then v
     else case v of None \<Rightarrow> Some r | Some old \<Rightarrow> Some (if mr_offset_end old < mr_offset_end r then r else old))"

lemma highest_ranges_fold:
  "map_of (highest_ranges_from acc rs) k = foldl (pick_highest k) (map_of acc k) rs"
  by (induction rs arbitrary: acc)
    (auto simp: Let_def update_conv' pick_highest_def split: option.splits)

lemma pick_highest_spec:
  "case foldl (pick_highest k) v rs of
     None \<Rightarrow> v = None \<and> (\<forall>r' \<in> set rs. (mr_topic r', mr_partition r') \<noteq> k)
   | Some r \<Rightarrow> (v = Some r \<or> r \<in> set rs \<and> (mr_topic r, mr_partition r) = k)
       \<and> (\<forall>r' \<in> set rs. (mr_topic r', mr_partition r') = k \<longrightarrow> mr_offset_end r' \<le> mr_offset_end r)
       \<and> (\<forall>r'. v = Some r' \<longrightarrow> mr_offset_end r' \<le> mr_offset_end r)"
proof (induction rs arbitrary: v)
  case (Cons x rs)
  show ?case
    using Cons [of "pick_highest k v x"]
    by (cases v) (auto simp: pick_highest_def split: option.splits if_splits)
qed (auto split: option.splits)

text \<open>
  C15. Recovery reads exactly the durable batches of its consumer group, ordered by topic,
  partition and offset, and \<open>highest_ranges\<close> keeps for every topic partition that occurs the
  record with the greatest \<open>offset_end\<close>.
\<close>

theorem recoverable_highest:
  assumes "recoverable grp db = (Inr rs, db')"
  shows "mset rs = filter_mset (\<lambda>r. mr_consumer_group r = grp \<and> durable r) (mset (md_rows db))
    \<and> sorted (map (\<lambda>r. (mr_topic r, mr_partition r, mr_offset_end r)) rs)
    \<and> md_rows db' = md_rows db
    \<and> (case map_of (highest_ranges rs) (topic, part) of
         None \<Rightarrow> \<forall>r \<in> set rs. (mr_topic r, mr_partition r) \<noteq> (topic, part)
       | Some r \<Rightarrow> r \<in> set rs \<and> (mr_topic r, mr_partition r) = (topic, part)
           \<and> (\<forall>r' \<in> set rs. (mr_topic r', mr_partition r') = (topic, part) \<longrightarrow>
                 mr_offset_end r' \<le> mr_offset_end r))"
proof -
  have d: "(\<lambda>r. mr_consumer_group r = grp \<and> mr_status r \<in> {UPLOADED, COMMITTED})
      = (\<lambda>r. mr_consumer_group r = grp \<and> durable r)"
    by (auto simp: durable_def)
  have rs: "rs = sort_key (\<lambda>r. (mr_topic r, mr_partition r, mr_offset_end r))
      (filter (\<lambda>r. mr_consumer_group r = grp \<and> durable r) (md_rows db))" "md_rows db' = md_rows db"
    using assms unfolding recoverable_def d by (auto simp: session_def Let_def split: option.splits)
  show ?thesis
    using rs(2) pick_highest_spec [where k = "(topic, part)" and v = None and rs = rs]
    unfolding highest_ranges_def highest_ranges_fold by (auto simp: rs(1) split: option.splits)
qed

theorem recoverable_highest_witness:
  "fst (recoverable ''g'' empty_manifest) = Inr [] \<and> mset [] = filter_mset
     (\<lambda>r. mr_consumer_group r = ''g'' \<and> durable r) (mset (md_rows empty_manifest))"
proof -
  have "recoverable ''g'' empty_manifest = (Inr [], empty_manifest\<lparr>md_tick := 1\<rparr>)"
    by (simp add: recoverable_def session_def empty_manifest_def)
  with recoverable_highest [OF this] show ?thesis by simp
qed

end
