(* ===== verification/Cdc_Retry.thy ===== *)
theory Cdc_Retry
  imports Prelude Complex_Main
begin

text \<open>
  \<open>ingestion/cdc_consumer/retry.py\<close>: the bounded retry of external side effects. The operation
  and the sleeper are effects on an arbitrary state, the delays are rational seconds. The loop
  over \<open>range(1, max_attempts + 1)\<close> is a recursion on the attempts that are left.
\<close>

record RetryPolicy =
  max_attempts :: int
  initial_backoff_seconds :: rat
  maximum_backoff_seconds :: rat

definition new_policy :: "int \<Rightarrow> rat \<Rightarrow> rat \<Rightarrow> RetryPolicy result" where
  "new_policy attempts initial maxi =
     (if attempts < 1 then Inl (Value_Error ''max_attempts must be at least one'')
      else if initial \<le> 0 then Inl (Value_Error ''initial_backoff_seconds must be greater than zero'')
      else if maxi < initial
      then Inl (Value_Error ''maximum_backoff_seconds must not be below initial backoff'')
      else Inr \<lparr>max_attempts = attempts, initial_backoff_seconds = initial,
                maximum_backoff_seconds = maxi\<rparr>)"

text \<open>
  \<open>is_retryable\<close>: collisions and storage errors never, then SQLite operational errors, timeouts,
  connection errors and OS errors (the Python class \<open>OSError\<close> covers the two before it).
\<close>

fun is_retryable :: "exn \<Rightarrow> bool" where
  "is_retryable (Immutable_Collision_Error m) = False"
| "is_retryable (Storage_Backend_Error m) = False"
| "is_retryable (Operational_Error m) = True"
| "is_retryable (Timeout_Error m) = True"
| "is_retryable (Connection_Error m) = True"
| "is_retryable (OS_Error m) = True"
| "is_retryable e = False"

fun retry_loop :: "(exn \<Rightarrow> bool) \<Rightarrow> (rat \<Rightarrow> ('s, unit) eff) \<Rightarrow> rat \<Rightarrow> ('s, 'a) eff
    \<Rightarrow> nat \<Rightarrow> int \<Rightarrow> rat \<Rightarrow> ('s, 'a) eff" where
  "retry_loop retryable sleeper maxi operation 0 attempt delay =
     raiseE (Assertion_Error ''Unreachable retry state'')"
| "retry_loop retryable sleeper maxi operation (Suc left) attempt delay =
     catchE operation
       (\<lambda>e. if \<not> retryable e then raiseE e
            else if left = 0
            then raiseE (Retry_Exhausted_Error
                   (''Operation failed after '' @ show_int attempt @ '' bounded attempts''))
            else seqE (sleeper delay)
                   (retry_loop retryable sleeper maxi operation left (attempt + 1)
                      (min (delay * 2) maxi)))"

definition retry_call :: "RetryPolicy \<Rightarrow> (exn \<Rightarrow> bool) \<Rightarrow> (rat \<Rightarrow> ('s, unit) eff) \<Rightarrow> ('s, 'a) eff
    \<Rightarrow> ('s, 'a) eff" where
  "retry_call policy retryable sleeper operation =
     retry_loop retryable sleeper (maximum_backoff_seconds policy) operation
       (nat (max_attempts policy)) 1 (initial_backoff_seconds policy)"

definition wf_policy :: "RetryPolicy \<Rightarrow> bool" where
  "wf_policy p \<longleftrightarrow> 1 \<le> max_attempts p \<and> 0 < initial_backoff_seconds p
     \<and> initial_backoff_seconds p \<le> maximum_backoff_seconds p"

text \<open>An instrumented world: how often the operation ran and which delays were slept.\<close>

record 's observed =
  ob_calls :: int
  ob_sleeps :: "rat list"
  ob_state :: 's

definition observe_call :: "('s, 'a) eff \<Rightarrow> ('s observed, 'a) eff" where
  "observe_call operation w =
     (case operation (ob_state w) of (r, t) \<Rightarrow> (r, w\<lparr>ob_calls := ob_calls w + 1, ob_state := t\<rparr>))"

definition observe_sleep :: "rat \<Rightarrow> ('s observed, unit) eff" where
  "observe_sleep d = modifyE (\<lambda>w. w\<lparr>ob_sleeps := ob_sleeps w @ [d]\<rparr>)"

section \<open>Rules\<close>

lemma new_policy_wf: "new_policy n i m = Inr p \<Longrightarrow> wf_policy p \<and> max_attempts p = n
    \<and> initial_backoff_seconds p = i \<and> maximum_backoff_seconds p = m"
  by (auto simp: new_policy_def wf_policy_def split: if_splits)

lemma preserves_retry_loop:
  assumes "preserves I operation" and "\<And>d. preserves I (sleeper d)"
  shows "preserves I (retry_loop retryable sleeper maxi operation n attempt delay)"
  using assms by (induction n arbitrary: attempt delay) (auto intro!: preserves_rules)

lemma preserves_retry_call [preserves_rules]:
  "preserves I operation \<Longrightarrow> (\<And>d. preserves I (sleeper d)) \<Longrightarrow>
     preserves I (retry_call policy retryable sleeper operation)"
  unfolding retry_call_def by (rule preserves_retry_loop)

text \<open>
  A wp rule for the retry of an operation with a loop invariant: every failed attempt must
  reestablish the invariant for the next, and every exception that leaves satisfies \<open>E\<close>.
\<close>

lemma wp_retry_loop:
  assumes "I s" and "0 < n"
    and op: "\<And>s. I s \<Longrightarrow> wp operation Q (\<lambda>e t. if retryable e then I t else E e t) s"
    and slp: "\<And>d s. I s \<Longrightarrow> wp (sleeper d) (\<lambda>_. I) E s"
    and exh: "\<And>m s. I s \<Longrightarrow> E (Retry_Exhausted_Error m) s"
  shows "wp (retry_loop retryable sleeper maxi operation n attempt delay) Q E s"
  using assms(1,2)
proof (induction n arbitrary: s attempt delay)
  case 0
  then show ?case by simp
next
  case (Suc n)
  have h: "wp (if \<not> retryable e then raiseE e else if n = 0
      then raiseE (Retry_Exhausted_Error (''Operation failed after '' @ show_int attempt @ '' bounded attempts''))
      else seqE (sleeper delay) (retry_loop retryable sleeper maxi operation n (attempt + 1) (min (delay * 2) maxi)))
      Q E t" if "if retryable e then I t else E e t" for e t
  proof (cases "\<not> retryable e \<or> n = 0")
    case True
    with that exh show ?thesis by (auto simp: wp_raiseE split: if_splits)
  next
    case False
    with that have "wp (sleeper delay) (\<lambda>_. I) E t" by (intro slp) simp
    then have "wp (sleeper delay) (\<lambda>_. wp (retry_loop retryable sleeper maxi operation n (attempt + 1)
        (min (delay * 2) maxi)) Q E) E t"
      using False Suc.IH by (auto elim!: wp_mono)
    with False show ?thesis by (simp add: wp_seqE)
  qed
  show ?case
    unfolding retry_loop.simps wp_catchE
    by (rule wp_mono [OF op [OF Suc.prems(1)]]) (assumption, rule h)
qed

lemma wp_retry_call:
  assumes "I s" and "wf_policy policy"
    and "\<And>s. I s \<Longrightarrow> wp operation Q (\<lambda>e t. if retryable e then I t else E e t) s"
    and "\<And>d s. I s \<Longrightarrow> wp (sleeper d) (\<lambda>_. I) E s"
    and "\<And>m s. I s \<Longrightarrow> E (Retry_Exhausted_Error m) s"
  shows "wp (retry_call policy retryable sleeper operation) Q E s"
  unfolding retry_call_def using assms
  by (intro wp_retry_loop [where I = I]) (auto simp: wf_policy_def)

text \<open>An operation that succeeds at once is run once: retrying is then the operation itself.\<close>

lemma retry_call_success:
  "wf_policy policy \<Longrightarrow> operation s = (Inr x, t) \<Longrightarrow>
     retry_call policy retryable sleeper operation s = (Inr x, t)"
  by (cases "nat (max_attempts policy)")
    (simp_all add: retry_call_def wf_policy_def catchE_def)

section \<open>Properties\<close>

definition backoff :: "RetryPolicy \<Rightarrow> nat \<Rightarrow> rat" where
  "backoff p j = min (initial_backoff_seconds p * 2 ^ j) (maximum_backoff_seconds p)"

lemma min_double: "0 < i \<Longrightarrow> i \<le> m \<Longrightarrow> min (min (i * 2 ^ j) m * 2) m = min (i * 2 ^ Suc j) (m :: rat)"
  by (simp add: min_def algebra_simps)

lemma retry_loop_observed:
  assumes "wf_policy p" and "0 < n"
    and "retry_loop retryable observe_sleep (maximum_backoff_seconds p) (observe_call operation)
           n attempt (backoff p j) w = (r, w')"
  shows "\<exists>m. m < n \<and> ob_calls w' = ob_calls w + 1 + int m
    \<and> ob_sleeps w' = ob_sleeps w @ map (\<lambda>i. backoff p (j + i)) [0..<m]
    \<and> (\<forall>e. r = Inl e \<longrightarrow> \<not> retryable e \<or> (m = n - 1 \<and> (\<exists>msg. e = Retry_Exhausted_Error msg)))"
  using assms(2,3)
proof (induction n arbitrary: attempt j w)
  case 0
  then show ?case by simp
next
  case (Suc n)
  obtain q t where op: "operation (ob_state w) = (q, t)" by fastforce
  define w1 where "w1 = w\<lparr>ob_calls := ob_calls w + 1, ob_state := t\<rparr>"
  have call: "observe_call operation w = (q, w1)" by (simp add: observe_call_def op w1_def)
  show ?case
  proof (cases "\<exists>e. q = Inl e \<and> retryable e \<and> n \<noteq> 0")
    case False
    with Suc.prems(2) call have "w' = w1 \<and> (\<forall>e. r = Inl e \<longrightarrow> \<not> retryable e
        \<or> (n = 0 \<and> (\<exists>msg. e = Retry_Exhausted_Error msg)))"
      by (auto simp: catchE_def raiseE_def split: sum.splits if_splits)
    then show ?thesis by (intro exI [of _ 0]) (auto simp: w1_def)
  next
    case True
    then obtain e where e: "q = Inl e" "retryable e" "0 < n" by blast
    define w2 where "w2 = w1\<lparr>ob_sleeps := ob_sleeps w1 @ [backoff p j]\<rparr>"
    have nxt: "min (backoff p j * 2) (maximum_backoff_seconds p) = backoff p (Suc j)"
      using assms(1) by (simp only: backoff_def min_double wf_policy_def)
    have sl: "observe_sleep (backoff p j) w1 = (Inr (), w2)"
      by (simp add: observe_sleep_def modifyE_def w2_def)
    have "retry_loop retryable observe_sleep (maximum_backoff_seconds p) (observe_call operation)
        n (attempt + 1) (backoff p (Suc j)) w2 = (r, w')"
      using Suc.prems(2) e
      by (simp add: catchE_def call seqE_def bindE_def sl nxt)
    from Suc.IH [OF e(3) this] obtain m where m: "m < n" "ob_calls w' = ob_calls w2 + 1 + int m"
      "ob_sleeps w' = ob_sleeps w2 @ map (\<lambda>i. backoff p (Suc j + i)) [0..<m]"
      "\<forall>e. r = Inl e \<longrightarrow> \<not> retryable e \<or> (m = n - 1 \<and> (\<exists>msg. e = Retry_Exhausted_Error msg))"
      by blast
    have "map (\<lambda>i. backoff p (j + i)) [0..<Suc m] = backoff p j # map (\<lambda>i. backoff p (Suc j + i)) [0..<m]"
      by (simp add: upt_conv_Cons map_Suc_upt [symmetric] del: upt_Suc)
    with m show ?thesis
      by (intro exI [of _ "Suc m"]) (auto simp: w1_def w2_def)
  qed
qed

text \<open>
  C14. A retried call runs the operation at least once and at most \<open>max_attempts\<close> times, sleeps
  exactly between consecutive attempts with the capped doubling delays, and what it raises is
  either an error the classifier does not retry or, after all attempts, \<open>RetryExhaustedError\<close>.
\<close>

theorem retry_call_bounded:
  assumes "new_policy n i maxi = Inr p"
    and "retry_call p retryable observe_sleep (observe_call operation)
           \<lparr>ob_calls = 0, ob_sleeps = [], ob_state = s\<rparr> = (r, w')"
  shows "1 \<le> ob_calls w' \<and> ob_calls w' \<le> n
    \<and> ob_sleeps w' = map (\<lambda>j. min (i * 2 ^ j) maxi) [0..<nat (ob_calls w' - 1)]
    \<and> (\<forall>e. r = Inl e \<longrightarrow> \<not> retryable e
          \<or> (ob_calls w' = n \<and> (\<exists>msg. e = Retry_Exhausted_Error msg)))"
proof -
  have p: "wf_policy p" "max_attempts p = n" "initial_backoff_seconds p = i" "maximum_backoff_seconds p = maxi"
    using new_policy_wf [OF assms(1)] by simp_all
  have i0: "i = backoff p 0" using p by (simp add: backoff_def wf_policy_def)
  have "0 < nat n" using p by (simp add: wf_policy_def)
  with assms(2) obtain m where "m < nat n" "ob_calls w' = 1 + int m"
      "ob_sleeps w' = map (\<lambda>i. backoff p i) [0..<m]"
      "\<forall>e. r = Inl e \<longrightarrow> \<not> retryable e \<or> (m = nat n - 1 \<and> (\<exists>msg. e = Retry_Exhausted_Error msg))"
    using retry_loop_observed [OF p(1), of "nat n" retryable operation 1 0
        "\<lparr>ob_calls = 0, ob_sleeps = [], ob_state = s\<rparr>" r w']
    by (auto simp: retry_call_def p i0 [symmetric])
  then show ?thesis by (auto simp: backoff_def p)
qed

theorem retry_call_bounded_witness:
  "1 \<le> (3::int) \<and> ob_calls (snd (retry_call \<lparr>max_attempts = 3, initial_backoff_seconds = 1,
        maximum_backoff_seconds = 10\<rparr> is_retryable observe_sleep
        (observe_call (\<lambda>s. (Inl (Timeout_Error ''t'') :: exn + unit, s + (1::int))))
        \<lparr>ob_calls = 0, ob_sleeps = [], ob_state = 0\<rparr>)) \<le> 3"
proof -
  let ?p = "\<lparr>max_attempts = 3, initial_backoff_seconds = 1, maximum_backoff_seconds = 10 :: rat\<rparr>"
  let ?w = "\<lparr>ob_calls = 0, ob_sleeps = [], ob_state = 0 :: int\<rparr>"
  let ?run = "retry_call ?p is_retryable observe_sleep
        (observe_call (\<lambda>s. (Inl (Timeout_Error ''t'') :: exn + unit, s + (1::int)))) ?w"
  have "new_policy 3 1 10 = Inr ?p" by (simp add: new_policy_def)
  from retry_call_bounded [OF this, of is_retryable _ 0 "fst ?run" "snd ?run"] show ?thesis by simp
qed

end
