(* ===== verification/Storage.thy ===== *)
theory Storage
  imports Sha256 Complex_Main "HOL-Library.AList"
begin

text \<open>
  \<open>common/storage.py\<close>: object keys, metadata sanitising, and the two immutable backends. Both
  backends implement one interface (\<open>StorageBackend\<close>), here a record of operations whose contract
  is the locale \<open>immutable_backend\<close>; the CDC consumer, the Silver processor and the settlement
  ingestion are proved against it.

  The local backend runs on a small model of the file system: object files and their metadata
  sidecars by path, a schedule of I/O faults and a schedule of files that other processes create
  (\<open>os.link\<close> never replaces a file, so they only add). The sidecar is kept as the record its JSON
  text encodes. The MinIO SDK is a parameter (\<open>MinioClient\<close>) with the documented behaviour of
  conditional writes as the locale \<open>s3_store\<close>.
\<close>

section \<open>Keys and metadata\<close>

definition SAFE_METADATA_FIELDS :: "string list" where
  "SAFE_METADATA_FIELDS =
     [''accepted_count'', ''artifact_type'', ''checksum_sha256'', ''code_version'', ''consumer_group'',
      ''contains_delete'', ''contains_snapshot'', ''contains_tombstone'', ''dlq_topic'', ''entity_name'',
      ''error_code'', ''ingested_at'', ''ingestion_run_id'', ''input_checksum'', ''kafka_offset'',
      ''offset_end'', ''offset_start'', ''output_type'', ''partner_id'', ''pipeline_name'', ''partition'',
      ''processing_date'', ''processing_run_id'', ''record_count'', ''rejected_count'', ''schema_version'',
      ''silver_schema_version'', ''source_schema_version'', ''source_type'', ''source_file_name'',
      ''source_file_size'', ''source_name'', ''topic'']"

definition RETRYABLE_S3_CODES :: "string list" where
  "RETRYABLE_S3_CODES = [''InternalError'', ''RequestTimeout'', ''ServiceUnavailable'', ''SlowDown'']"

definition NOT_FOUND_S3_CODES :: "string list" where
  "NOT_FOUND_S3_CODES = [''NoSuchBucket'', ''NoSuchKey'', ''NoSuchObject'', ''NotFound'']"

definition PRECONDITION_S3_CODES :: "string list" where
  "PRECONDITION_S3_CODES = [''ConditionalRequestConflict'', ''PreconditionFailed'']"

text \<open>The metadata values that callers pass, with Python's \<open>str()\<close> of them.\<close>

datatype meta_value = M_None | M_str string | M_int int | M_bool bool

fun meta_text :: "meta_value \<Rightarrow> string" where
  "meta_text M_None = ''None''"
| "meta_text (M_str s) = s"
| "meta_text (M_int i) = show_int i"
| "meta_text (M_bool b) = (if b then ''True'' else ''False'')"

type_synonym metadata = "(string \<times> meta_value) list"
type_synonym headers = "(string \<times> string) list"

definition meta_key :: "string \<Rightarrow> string" where
  "meta_key k = replace_char (CHR ''-'') (CHR ''_'') (to_lower (py_strip k))"

definition meta_clean :: "string \<Rightarrow> string" where
  "meta_clean s = py_strip (replace_char (CHR 0x0A) (CHR '' '') (replace_char (CHR 0x0D) (CHR '' '') s))"

definition sanitize_step :: "headers \<Rightarrow> string \<times> meta_value \<Rightarrow> headers" where
  "sanitize_step acc kv =
     (let key = meta_key (fst kv) in
      if key \<notin> set SAFE_METADATA_FIELDS \<or> snd kv = M_None then acc
      else let v = meta_clean (meta_text (snd kv)) in
        if v = [] then acc else AList.update key (take 1024 v) acc)"

definition sanitize_metadata :: "metadata \<Rightarrow> headers" where
  "sanitize_metadata md = foldl sanitize_step [] md"

text \<open>\<open>PurePosixPath(key).parts\<close> of a relative key: empty and single-dot segments vanish.\<close>

definition posix_parts :: "string \<Rightarrow> string list" where
  "posix_parts k = filter (\<lambda>p. p \<noteq> [] \<and> p \<noteq> ''.'') (split_on (CHR ''/'') k)"

text \<open>\<open>Path(text).name\<close>.\<close>

definition path_name :: "string \<Rightarrow> string" where
  "path_name s = (if posix_parts s = [] then [] else last (posix_parts s))"

definition as_posix :: "string list \<Rightarrow> string" where
  "as_posix parts = (if parts = [] then ''.'' else join_with ''/'' parts)"

definition validate_object_key :: "string \<Rightarrow> string result" where
  "validate_object_key k =
     (if k = [] \<or> CHR 0x5C \<in> set k
      then Inl (Storage_Backend_Error ''Object key must be a non-empty POSIX path'')
      else if hd k = CHR ''/'' \<or> ''..'' \<in> set (posix_parts k) \<or> ''.'' \<in> set (posix_parts k)
      then Inl (Storage_Backend_Error
             ''Object key must not be absolute or contain traversal segments'')
      else Inr (as_posix (posix_parts k)))"

record StoredObject =
  so_bucket :: string
  so_object_key :: string
  so_uri :: string
  so_checksum_sha256 :: string
  so_size_bytes :: int
  so_content_type :: string
  so_metadata :: headers
  so_already_exists :: bool

text \<open>The \<open>StorageBackend\<close> protocol; a local \<open>source\<close> file is the bytes read from it.\<close>

record 's storage_backend =
  sb_build_uri :: "string \<Rightarrow> string \<Rightarrow> string result"
  sb_stat :: "string \<Rightarrow> string \<Rightarrow> ('s, StoredObject option) eff"
  sb_put_immutable :: "string \<Rightarrow> string \<Rightarrow> bytes \<Rightarrow> string \<Rightarrow> string \<Rightarrow> metadata \<Rightarrow> ('s, StoredObject) eff"
  sb_put_bytes_immutable :: "string \<Rightarrow> string \<Rightarrow> bytes \<Rightarrow> string \<Rightarrow> metadata \<Rightarrow> ('s, StoredObject) eff"
  sb_read_bytes :: "string \<Rightarrow> string \<Rightarrow> ('s, bytes) eff"
  sb_list_objects :: "string \<Rightarrow> string \<Rightarrow> ('s, StoredObject list) eff"

definition sb_exists :: "'s storage_backend \<Rightarrow> string \<Rightarrow> string \<Rightarrow> ('s, bool) eff" where
  "sb_exists B b k = bindE (sb_stat B b k) (\<lambda>x. returnE (x \<noteq> None))"

section \<open>The local backend\<close>

type_synonym path = "string list"

record sidecar =
  sc_checksum_sha256 :: string
  sc_content_type :: string
  sc_metadata :: headers

record local_fs =
  lf_objects :: "(path \<times> bytes) list"
  lf_sidecars :: "(path \<times> sidecar) list"
  lf_faults :: "nat \<Rightarrow> exn option"
  lf_rival_objects :: "nat \<Rightarrow> (path \<times> bytes) list"
  lf_tick :: nat

type_synonym bucket_roots = "(string \<times> path) list"

text \<open>One file-system access: other processes may have added files, then the access may fail.\<close>

definition fs_step :: "(local_fs \<Rightarrow> 'a \<times> local_fs) \<Rightarrow> (local_fs, 'a) eff" where
  "fs_step body fs =
     (let fs' = fs\<lparr>lf_objects := lf_objects fs @ lf_rival_objects fs (lf_tick fs),
                   lf_tick := Suc (lf_tick fs)\<rparr> in
      case lf_faults fs (lf_tick fs) of
        Some e \<Rightarrow> (Inl e, fs')
      | None \<Rightarrow> (case body fs' of (x, fs'') \<Rightarrow> (Inr x, fs'')))"

definition bucket_root :: "bucket_roots \<Rightarrow> string \<Rightarrow> path result" where
  "bucket_root roots b = (case map_of roots b of
     None \<Rightarrow> Inl (Storage_Backend_Error (''Unknown local bucket: '' @ b)) | Some r \<Rightarrow> Inr r)"

definition object_path :: "bucket_roots \<Rightarrow> string \<Rightarrow> string \<Rightarrow> path result" where
  "object_path roots b k =
     bindR (bucket_root roots b) (\<lambda>base.
       bindR (validate_object_key k) (\<lambda>key. Inr (base @ posix_parts key)))"

definition local_build_uri :: "bucket_roots \<Rightarrow> string \<Rightarrow> string \<Rightarrow> string result" where
  "local_build_uri roots b k = bindR (object_path roots b k) (\<lambda>p. Inr (join_with ''/'' p))"

definition local_stat :: "bucket_roots \<Rightarrow> string \<Rightarrow> string \<Rightarrow> (local_fs, StoredObject option) eff" where
  "local_stat roots b k =
     bindE (liftE (object_path roots b k)) (\<lambda>p.
     bindE (liftE (validate_object_key k)) (\<lambda>key.
       fs_step (\<lambda>fs. (map_option (\<lambda>data.
           \<lparr>so_bucket = b, so_object_key = key, so_uri = join_with ''/'' p,
            so_checksum_sha256 = sha256_hex data, so_size_bytes = int (length data),
            so_content_type = (case map_of (lf_sidecars fs) p of
               None \<Rightarrow> ''application/octet-stream'' | Some sc \<Rightarrow> sc_content_type sc),
            so_metadata = (case map_of (lf_sidecars fs) p of
               None \<Rightarrow> [] | Some sc \<Rightarrow> sanitize_metadata (map (\<lambda>(k, v). (k, M_str v)) (sc_metadata sc))),
            so_already_exists = False\<rparr>) (map_of (lf_objects fs) p), fs))))"

definition collision :: "StoredObject \<Rightarrow> exn" where
  "collision o1 = Immutable_Collision_Error
     (''Immutable key already exists with different content: '' @ so_uri o1)"

definition local_resolve_existing :: "StoredObject \<Rightarrow> string \<Rightarrow> StoredObject result" where
  "local_resolve_existing o1 checksum =
     (if so_checksum_sha256 o1 \<noteq> checksum then Inl (collision o1)
      else Inr (o1\<lparr>so_already_exists := True\<rparr>))"

text \<open>
  \<open>_write_metadata\<close>: create the sidecar if it is absent, otherwise only compare checksums. The
  existence test and the link race are one step, since both outcomes run the same comparison.
\<close>

definition write_metadata :: "path \<Rightarrow> string \<Rightarrow> string \<Rightarrow> metadata \<Rightarrow> (local_fs, unit) eff" where
  "write_metadata p checksum content_type md =
     bindE (fs_step (\<lambda>fs. case map_of (lf_sidecars fs) p of
         Some sc \<Rightarrow> (sc_checksum_sha256 sc = checksum, fs)
       | None \<Rightarrow> (True, fs\<lparr>lf_sidecars := lf_sidecars fs @ [(p,
           \<lparr>sc_checksum_sha256 = checksum, sc_content_type = content_type,
            sc_metadata = sanitize_metadata (AList.update ''checksum_sha256'' (M_str checksum) md)\<rparr>)]\<rparr>)))
       (\<lambda>ok. if ok then returnE ()
             else raiseE (Immutable_Collision_Error
                    (''Metadata collision for immutable object: '' @ join_with ''/'' p)))"

text \<open>\<open>os.link(temporary, destination)\<close>: true if it created the file, false on \<open>FileExistsError\<close>.\<close>

definition link_file :: "path \<Rightarrow> bytes \<Rightarrow> (local_fs, bool) eff" where
  "link_file p data = fs_step (\<lambda>fs. case map_of (lf_objects fs) p of
       Some _ \<Rightarrow> (False, fs)
     | None \<Rightarrow> (True, fs\<lparr>lf_objects := lf_objects fs @ [(p, data)]\<rparr>))"

definition existing_after_metadata :: "bucket_roots \<Rightarrow> string \<Rightarrow> string \<Rightarrow> (local_fs, StoredObject) eff" where
  "existing_after_metadata roots b k =
     bindE (local_stat roots b k) (\<lambda>st. case st of
       None \<Rightarrow> raiseE (Storage_Backend_Error ''Immutable local object disappeared during metadata repair'')
     | Some x \<Rightarrow> returnE (x\<lparr>so_already_exists := True\<rparr>))"

text \<open>The part that \<open>put_immutable\<close> and \<open>put_bytes_immutable\<close> of the local backend share.\<close>

definition local_store :: "bucket_roots \<Rightarrow> string \<Rightarrow> string \<Rightarrow> bytes \<Rightarrow> string \<Rightarrow> string \<Rightarrow> metadata
    \<Rightarrow> (local_fs, StoredObject) eff" where
  "local_store roots b k data checksum content_type md =
     bindE (liftE (object_path roots b k)) (\<lambda>p.
     bindE (local_stat roots b k) (\<lambda>existing. case existing of
       Some x \<Rightarrow>
         seqE (liftE (local_resolve_existing x checksum))
           (seqE (write_metadata p checksum content_type md) (existing_after_metadata roots b k))
     | None \<Rightarrow>
         bindE (link_file p data) (\<lambda>created.
           if \<not> created
           then bindE (local_stat roots b k) (\<lambda>winner. case winner of
                  None \<Rightarrow> raiseE (Storage_Backend_Error ''Immutable destination disappeared during write'')
                | Some x \<Rightarrow> liftE (local_resolve_existing x checksum))
           else seqE (write_metadata p checksum content_type md)
                  (bindE (local_stat roots b k) (\<lambda>st. case st of
                     None \<Rightarrow> raiseE (Storage_Backend_Error
                               ''Immutable local object was not visible after write'')
                   | Some x \<Rightarrow> returnE x)))))"

definition local_put_immutable :: "bucket_roots \<Rightarrow> string \<Rightarrow> string \<Rightarrow> bytes \<Rightarrow> string \<Rightarrow> string
    \<Rightarrow> metadata \<Rightarrow> (local_fs, StoredObject) eff" where
  "local_put_immutable roots b k source checksum content_type md =
     (if sha256_hex source \<noteq> checksum
      then raiseE (Storage_Backend_Error ''Source checksum does not match the declared SHA-256'')
      else local_store roots b k source checksum content_type md)"

definition local_put_bytes_immutable :: "bucket_roots \<Rightarrow> string \<Rightarrow> string \<Rightarrow> bytes \<Rightarrow> string
    \<Rightarrow> metadata \<Rightarrow> (local_fs, StoredObject) eff" where
  "local_put_bytes_immutable roots b k data content_type md =
     local_store roots b k data (sha256_hex data) content_type md"

definition local_read_bytes :: "bucket_roots \<Rightarrow> string \<Rightarrow> string \<Rightarrow> (local_fs, bytes) eff" where
  "local_read_bytes roots b k =
     bindE (liftE (object_path roots b k)) (\<lambda>p.
     bindE (fs_step (\<lambda>fs. (map_of (lf_objects fs) p, fs))) (\<lambda>d. case d of
       None \<Rightarrow> raiseE (Storage_Backend_Error (''Object does not exist: '' @ b @ ''/'' @ k))
     | Some data \<Rightarrow> returnE data))"

text \<open>The keys below a root in path order, without sidecars and hidden temporaries.\<close>

definition visible_keys :: "path \<Rightarrow> string \<Rightarrow> (path \<times> bytes) list \<Rightarrow> string list" where
  "visible_keys base prefix files =
     (let below = filter (\<lambda>p. take (length base) p = base \<and> length base < length p)
                    (sort (remdups (map fst files)));
          keep = filter (\<lambda>p. \<not> ends_with ''.metadata.json'' (last p) \<and> \<not> starts_with ''.'' (last p)) below
      in filter (starts_with prefix) (map (\<lambda>p. join_with ''/'' (drop (length base) p)) keep))"

fun stat_all :: "(string \<Rightarrow> ('s, StoredObject option) eff) \<Rightarrow> string list \<Rightarrow> ('s, StoredObject list) eff" where
  "stat_all stat [] = returnE []"
| "stat_all stat (k # ks) =
     bindE (stat k) (\<lambda>st. bindE (stat_all stat ks) (\<lambda>rest.
       returnE (case st of None \<Rightarrow> rest | Some x \<Rightarrow> x # rest)))"

definition local_list_objects :: "bucket_roots \<Rightarrow> string \<Rightarrow> string \<Rightarrow> (local_fs, StoredObject list) eff" where
  "local_list_objects roots b prefix =
     bindE (liftE (bucket_root roots b)) (\<lambda>base.
     bindE (fs_step (\<lambda>fs. (visible_keys base (strip_char (CHR ''/'') prefix) (lf_objects fs), fs)))
       (\<lambda>keys. stat_all (local_stat roots b) keys))"

definition local_backend :: "bucket_roots \<Rightarrow> local_fs storage_backend" where
  "local_backend roots =
     \<lparr>sb_build_uri = local_build_uri roots, sb_stat = local_stat roots,
      sb_put_immutable = local_put_immutable roots,
      sb_put_bytes_immutable = local_put_bytes_immutable roots,
      sb_read_bytes = local_read_bytes roots, sb_list_objects = local_list_objects roots\<rparr>"

definition new_local_backend :: "bucket_roots \<Rightarrow> (local_fs storage_backend) result" where
  "new_local_backend roots =
     (if roots = [] then Inl (Value_Error ''At least one local bucket root is required'')
      else Inr (local_backend roots))"

section \<open>The MinIO backend\<close>

text \<open>What an SDK call raises: an \<open>S3Error\<close> with its code, or an HTTP or OS error.\<close>

datatype s3_failure = S3_Error string | Transport_Error

record s3_stat =
  st_size :: int
  st_content_type :: string
  st_metadata :: headers

type_synonym ('s, 'a) s3_call = "'s \<Rightarrow> (s3_failure + 'a) \<times> 's"

record 's MinioClient =
  stat_object :: "string \<Rightarrow> string \<Rightarrow> ('s, s3_stat) s3_call"
  put_object_if_absent :: "string \<Rightarrow> string \<Rightarrow> bytes \<Rightarrow> string \<Rightarrow> headers \<Rightarrow> ('s, unit) s3_call"
  get_object :: "string \<Rightarrow> string \<Rightarrow> ('s, bytes) s3_call"
  list_object_names :: "string \<Rightarrow> string \<Rightarrow> ('s, string list) s3_call"

record 's MinioStorageBackend =
  mb_client :: "'s MinioClient"
  mb_max_attempts :: int
  mb_backoff_seconds :: rat
  mb_sleeper :: "rat \<Rightarrow> 's \<Rightarrow> 's"

definition new_minio_backend :: "'s MinioClient \<Rightarrow> int \<Rightarrow> rat \<Rightarrow> (rat \<Rightarrow> 's \<Rightarrow> 's)
    \<Rightarrow> 's MinioStorageBackend result" where
  "new_minio_backend client attempts backoff sleeper =
     (if attempts < 1 then Inl (Value_Error ''max_attempts must be at least 1'')
      else Inr \<lparr>mb_client = client, mb_max_attempts = attempts, mb_backoff_seconds = backoff,
                mb_sleeper = sleeper\<rparr>)"

fun minio_retry_loop :: "'s MinioStorageBackend \<Rightarrow> string \<Rightarrow> ('s, 'a) s3_call \<Rightarrow> bool \<Rightarrow> nat \<Rightarrow> nat
    \<Rightarrow> ('s, 'a) eff" where
  "minio_retry_loop M name op allow_not_found 0 attempt =
     raiseE (Storage_Backend_Error (''MinIO '' @ name @ '' exhausted retries''))"
| "minio_retry_loop M name op allow_not_found (Suc left) attempt = (\<lambda>s.
     case op s of
       (Inr x, t) \<Rightarrow> (Inr x, t)
     | (Inl (S3_Error code), t) \<Rightarrow>
         if allow_not_found \<and> code \<in> set NOT_FOUND_S3_CODES then (Inl (Object_Not_Found []), t)
         else if code \<in> set PRECONDITION_S3_CODES then (Inl (Conditional_Write_Conflict []), t)
         else if code \<notin> set RETRYABLE_S3_CODES \<or> left = 0
         then (Inl (Storage_Backend_Error (''MinIO '' @ name @ '' failed with code '' @ code)), t)
         else minio_retry_loop M name op allow_not_found left (Suc attempt)
                (mb_sleeper M (mb_backoff_seconds M * 2 ^ (attempt - 1)) t)
     | (Inl Transport_Error, t) \<Rightarrow>
         if left = 0
         then (Inl (Storage_Backend_Error (''MinIO '' @ name @ '' failed after ''
                 @ show_nat attempt @ '' attempts'')), t)
         else minio_retry_loop M name op allow_not_found left (Suc attempt)
                (mb_sleeper M (mb_backoff_seconds M * 2 ^ (attempt - 1)) t))"

definition minio_retry :: "'s MinioStorageBackend \<Rightarrow> string \<Rightarrow> ('s, 'a) s3_call \<Rightarrow> bool \<Rightarrow> ('s, 'a) eff" where
  "minio_retry M name op allow_not_found =
     minio_retry_loop M name op allow_not_found (nat (mb_max_attempts M)) 1"

definition minio_build_uri :: "string \<Rightarrow> string \<Rightarrow> string result" where
  "minio_build_uri b k = bindR (validate_object_key k) (\<lambda>key. Inr (''s3://'' @ b @ ''/'' @ key))"

definition minio_wire_metadata :: "metadata \<Rightarrow> string \<Rightarrow> headers" where
  "minio_wire_metadata md checksum =
     map (\<lambda>(k, v). (replace_char (CHR ''_'') (CHR ''-'') k, v))
       (sanitize_metadata (AList.update ''checksum_sha256'' (M_str checksum) md))"

definition minio_header_key :: "string \<Rightarrow> string" where
  "minio_header_key raw =
     replace_char (CHR ''-'') (CHR ''_'') (remove_prefix ''x-amz-meta-'' (to_lower raw))"

definition normalize_minio_metadata :: "headers \<Rightarrow> headers" where
  "normalize_minio_metadata md =
     sanitize_metadata (foldl (\<lambda>acc (k, v). AList.update (minio_header_key k) (M_str v) acc) [] md)"

definition minio_stat :: "'s MinioStorageBackend \<Rightarrow> string \<Rightarrow> string \<Rightarrow> ('s, StoredObject option) eff" where
  "minio_stat M b k =
     bindE (liftE (validate_object_key k)) (\<lambda>key.
     bindE (catchE
         (bindE (minio_retry M ''stat object'' (stat_object (mb_client M) b key) True)
            (\<lambda>r. returnE (Some r)))
         (\<lambda>e. case e of Object_Not_Found _ \<Rightarrow> returnE None | _ \<Rightarrow> raiseE e))
       (\<lambda>response. case response of
          None \<Rightarrow> returnE None
        | Some r \<Rightarrow>
            bindE (liftE (minio_build_uri b key)) (\<lambda>uri.
              let md = normalize_minio_metadata (st_metadata r) in
              returnE (Some
                \<lparr>so_bucket = b, so_object_key = key, so_uri = uri,
                 so_checksum_sha256 = (case map_of md ''checksum_sha256'' of None \<Rightarrow> [] | Some c \<Rightarrow> c),
                 so_size_bytes = st_size r, so_content_type = st_content_type r, so_metadata = md,
                 so_already_exists = False\<rparr>))))"

definition minio_resolve_existing :: "StoredObject \<Rightarrow> string \<Rightarrow> StoredObject result" where
  "minio_resolve_existing o1 checksum =
     (if so_checksum_sha256 o1 = [] \<or> so_checksum_sha256 o1 \<noteq> checksum then Inl (collision o1)
      else Inr (o1\<lparr>so_already_exists := True\<rparr>))"

definition minio_verify_upload :: "'s MinioStorageBackend \<Rightarrow> string \<Rightarrow> string \<Rightarrow> string \<Rightarrow> int
    \<Rightarrow> ('s, StoredObject) eff" where
  "minio_verify_upload M b k checksum expected_size =
     bindE (minio_stat M b k) (\<lambda>st. case st of
       None \<Rightarrow> raiseE (Storage_Backend_Error ''Uploaded object is not visible'')
     | Some x \<Rightarrow>
         if so_checksum_sha256 x \<noteq> checksum \<or> so_size_bytes x \<noteq> expected_size
         then raiseE (Storage_Backend_Error ''Uploaded object failed checksum or size verification'')
         else returnE x)"

text \<open>The part that \<open>put_immutable\<close> and \<open>put_bytes_immutable\<close> of the MinIO backend share.\<close>

definition minio_store :: "'s MinioStorageBackend \<Rightarrow> string \<Rightarrow> string \<Rightarrow> bytes \<Rightarrow> string \<Rightarrow> string
    \<Rightarrow> metadata \<Rightarrow> ('s, StoredObject) eff" where
  "minio_store M b k data checksum content_type md =
     bindE (liftE (validate_object_key k)) (\<lambda>key.
     bindE (minio_stat M b key) (\<lambda>existing. case existing of
       Some x \<Rightarrow> liftE (minio_resolve_existing x checksum)
     | None \<Rightarrow>
         bindE (catchE
             (seqE (minio_retry M ''upload object''
                      (put_object_if_absent (mb_client M) b key data content_type
                         (minio_wire_metadata md checksum)) False)
                   (returnE True))
             (\<lambda>e. case e of Conditional_Write_Conflict _ \<Rightarrow> returnE False | _ \<Rightarrow> raiseE e))
           (\<lambda>created.
              if created then minio_verify_upload M b key checksum (int (length data))
              else bindE (minio_stat M b key) (\<lambda>winner. case winner of
                     None \<Rightarrow> raiseE (Storage_Backend_Error
                               ''Conditional object collision could not be inspected'')
                   | Some x \<Rightarrow> liftE (minio_resolve_existing x checksum)))))"

definition minio_put_immutable :: "'s MinioStorageBackend \<Rightarrow> string \<Rightarrow> string \<Rightarrow> bytes \<Rightarrow> string \<Rightarrow> string
    \<Rightarrow> metadata \<Rightarrow> ('s, StoredObject) eff" where
  "minio_put_immutable M b k source checksum content_type md =
     (if sha256_hex source \<noteq> checksum
      then raiseE (Storage_Backend_Error ''Source checksum does not match the declared SHA-256'')
      else minio_store M b k source checksum content_type md)"

definition minio_put_bytes_immutable :: "'s MinioStorageBackend \<Rightarrow> string \<Rightarrow> string \<Rightarrow> bytes \<Rightarrow> string
    \<Rightarrow> metadata \<Rightarrow> ('s, StoredObject) eff" where
  "minio_put_bytes_immutable M b k data content_type md =
     minio_store M b k data (sha256_hex data) content_type md"

definition minio_read_bytes :: "'s MinioStorageBackend \<Rightarrow> string \<Rightarrow> string \<Rightarrow> ('s, bytes) eff" where
  "minio_read_bytes M b k =
     bindE (liftE (validate_object_key k)) (\<lambda>key.
       minio_retry M ''read object'' (get_object (mb_client M) b key) False)"

definition minio_list_objects :: "'s MinioStorageBackend \<Rightarrow> string \<Rightarrow> string \<Rightarrow> ('s, StoredObject list) eff" where
  "minio_list_objects M b prefix =
     bindE (minio_retry M ''list objects''
              (list_object_names (mb_client M) b (strip_char (CHR ''/'') prefix)) False)
       (\<lambda>names. stat_all (minio_stat M b) (filter (\<lambda>n. n \<noteq> []) names))"

definition minio_backend :: "'s MinioStorageBackend \<Rightarrow> 's storage_backend" where
  "minio_backend M = \<lparr>sb_build_uri = minio_build_uri, sb_stat = minio_stat M,
     sb_put_immutable = minio_put_immutable M, sb_put_bytes_immutable = minio_put_bytes_immutable M,
     sb_read_bytes = minio_read_bytes M, sb_list_objects = minio_list_objects M\<rparr>"

section \<open>Keys\<close>

lemma posix_parts_join:
  assumes "\<forall>p \<in> set ps. p \<noteq> [] \<and> p \<noteq> ''.'' \<and> CHR ''/'' \<notin> set p"
  shows "posix_parts (as_posix ps) = ps"
  using assms
  by (cases "ps = []") (auto simp: posix_parts_def as_posix_def split_on_join split_on_id filter_id_conv)

lemma posix_parts_clean:
  "p \<in> set (posix_parts k) \<Longrightarrow> p \<noteq> [] \<and> p \<noteq> ''.'' \<and> CHR ''/'' \<notin> set p"
  by (auto simp: posix_parts_def dest: split_on_parts)

lemma posix_parts_as_posix [simp]: "posix_parts (as_posix (posix_parts k)) = posix_parts k"
  by (rule posix_parts_join) (use posix_parts_clean in blast)

lemma set_split_on: "p \<in> set (split_on c s) \<Longrightarrow> set p \<subseteq> set s"
  by (induction s arbitrary: p) (fastforce split: if_splits list.splits)+

lemma hd_join_with: "ps \<noteq> [] \<Longrightarrow> hd ps \<noteq> [] \<Longrightarrow> hd (join_with sep ps) = hd (hd ps)"
  by (cases ps rule: remdups_adj.cases) auto

lemma validate_object_key_idem:
  assumes "validate_object_key k = Inr key"
  shows "validate_object_key key = Inr key"
proof -
  let ?ps = "posix_parts k"
  from assms have key: "key = as_posix ?ps" "CHR 0x5C \<notin> set k" "''..'' \<notin> set ?ps"
    by (auto simp: validate_object_key_def split: if_splits)
  have "posix_parts key = ?ps" by (simp add: key)
  moreover have "key \<noteq> [] \<and> hd key \<noteq> CHR ''/''"
  proof (cases ?ps)
    case (Cons p ps)
    with posix_parts_clean [of p k] have "p \<noteq> []" "CHR ''/'' \<notin> set p" by auto
    with Cons have "hd key = hd p" "key \<noteq> []" "hd p \<in> set p"
      by (cases ps; cases p; simp add: key as_posix_def)+
    with \<open>CHR ''/'' \<notin> set p\<close> show ?thesis by auto
  qed (simp add: key as_posix_def)
  moreover have "CHR 0x5C \<notin> set p" if "p \<in> set ?ps" for p
    using key(2) that set_split_on [of p "CHR ''/''" k] by (auto simp: posix_parts_def)
  then have "CHR 0x5C \<notin> set key"
    using set_join_with [of "''/''" ?ps] by (auto simp: key(1) as_posix_def)
  ultimately show ?thesis
    using key by (auto simp: validate_object_key_def dest: posix_parts_clean)
qed

section \<open>Metadata\<close>

text \<open>No second spelling of the checksum field among the caller's keys.\<close>

definition plain_metadata :: "metadata \<Rightarrow> bool" where
  "plain_metadata md \<longleftrightarrow> distinct (map fst md)
     \<and> (\<forall>k \<in> fst ` set md. meta_key k = ''checksum_sha256'' \<longrightarrow> k = ''checksum_sha256'')"

lemma keys_of_step: "map fst (sanitize_step acc kv) = map fst acc
    \<or> map fst (sanitize_step acc kv) = map fst acc @ [meta_key (fst kv)]
      \<and> meta_key (fst kv) \<notin> set (map fst acc) \<and> meta_key (fst kv) \<in> set SAFE_METADATA_FIELDS"
  by (auto simp: sanitize_step_def Let_def update_keys)

lemma sanitize_keys_from:
  assumes "distinct (map fst acc)" and "set (map fst acc) \<subseteq> set SAFE_METADATA_FIELDS"
  shows "distinct (map fst (foldl sanitize_step acc md))
    \<and> set (map fst (foldl sanitize_step acc md)) \<subseteq> set SAFE_METADATA_FIELDS"
  using assms
proof (induction md arbitrary: acc)
  case (Cons kv md)
  have "distinct (map fst (sanitize_step acc kv))
      \<and> set (map fst (sanitize_step acc kv)) \<subseteq> set SAFE_METADATA_FIELDS"
    using keys_of_step [of acc kv] Cons.prems by (elim disjE) (simp, auto)
  with Cons.IH [of "sanitize_step acc kv"] show ?case by simp
qed simp

lemma sanitize_keys:
  "distinct (map fst (sanitize_metadata md))"
  "fst ` set (sanitize_metadata md) \<subseteq> set SAFE_METADATA_FIELDS"
  using sanitize_keys_from [of "[]" md] by (auto simp: sanitize_metadata_def)

lemma sanitize_step_other:
  "meta_key (fst kv) \<noteq> k \<Longrightarrow> map_of (sanitize_step acc kv) k = map_of acc k"
  by (simp add: sanitize_step_def Let_def update_conv')

lemma sanitize_fold_other:
  "\<forall>kv \<in> set md. meta_key (fst kv) \<noteq> k \<Longrightarrow> map_of (foldl sanitize_step acc md) k = map_of acc k"
  by (induction md arbitrary: acc) (simp_all add: sanitize_step_other)

text \<open>A field that one key spells is found under its sanitised value.\<close>

lemma sanitize_lookup:
  assumes "(k0, M_str v) \<in> set md" and "distinct (map fst md)" and "meta_key k0 = k"
    and "k \<in> set SAFE_METADATA_FIELDS" and "\<forall>k' \<in> fst ` set md. meta_key k' = k \<longrightarrow> k' = k0"
    and "meta_clean v \<noteq> []"
  shows "map_of (sanitize_metadata md) k = Some (take 1024 (meta_clean v))"
proof -
  from assms(1) obtain xs ys where md: "md = xs @ (k0, M_str v) # ys" by (auto simp: in_set_conv_decomp)
  have "meta_key (fst kv) \<noteq> k" if "kv \<in> set ys" for kv
  proof
    assume "meta_key (fst kv) = k"
    moreover have "fst kv \<in> fst ` set md" using that by (simp add: md)
    ultimately have "fst kv = k0" using assms(5) by blast
    with that assms(2) show False by (force simp: md)
  qed
  then have "map_of (sanitize_metadata md) k
      = map_of (sanitize_step (foldl sanitize_step [] xs) (k0, M_str v)) k"
    by (simp add: sanitize_metadata_def md sanitize_fold_other)
  also have "\<dots> = Some (take 1024 (meta_clean v))"
    using assms(4,6) unfolding sanitize_step_def Let_def fst_conv snd_conv assms(3) meta_text.simps
    by (simp add: update_conv')
  finally show ?thesis .
qed

lemma is_hex_not_space: "is_hex c \<Longrightarrow> \<not> is_space c \<and> c \<noteq> CHR 0x0A \<and> c \<noteq> CHR 0x0D"
  by (auto simp: is_hex_def is_space_def Let_def)

lemma py_strip_id: "\<forall>c \<in> set s. \<not> is_space c \<Longrightarrow> py_strip s = s"
proof -
  assume a: "\<forall>c \<in> set s. \<not> is_space c"
  then have "dropWhile is_space s = s" "dropWhile is_space (rev s) = rev s"
    by (auto simp: dropWhile_eq_self_iff hd_rev)
  then show ?thesis by (simp add: py_strip_def)
qed

lemma replace_char_id: "a \<notin> set s \<Longrightarrow> replace_char a b s = s"
  unfolding replace_char_def by (induction s) auto

lemma meta_clean_hex: "list_all is_hex s \<Longrightarrow> meta_clean s = s"
proof -
  assume h: "list_all is_hex s"
  then have "CHR 0x0A \<notin> set s" "CHR 0x0D \<notin> set s" "\<forall>c \<in> set s. \<not> is_space c"
    using is_hex_not_space unfolding list_all_iff by blast+
  then show ?thesis by (simp only: meta_clean_def replace_char_id py_strip_id not_False_eq_True)
qed

lemma meta_clean_checksum [simp]: "meta_clean (sha256_hex d) = sha256_hex d"
  by (rule meta_clean_hex) (rule is_hex_sha256_hex)

definition s3_prefix :: "headers \<Rightarrow> headers" where
  "s3_prefix md = map (\<lambda>(k, v). (''x-amz-meta-'' @ k, v)) md"

lemma safe_fields_stable:
  "list_all (\<lambda>k. minio_header_key (''x-amz-meta-'' @ replace_char (CHR ''_'') (CHR ''-'') k) = k
     \<and> meta_key k = k) SAFE_METADATA_FIELDS"
  by code_simp

lemma safe_header_key:
  "k \<in> set SAFE_METADATA_FIELDS \<Longrightarrow>
     minio_header_key (''x-amz-meta-'' @ replace_char (CHR ''_'') (CHR ''-'') k) = k \<and> meta_key k = k"
  using safe_fields_stable unfolding list_all_iff by blast

lemma plain_metadata_safe:
  "distinct (map fst md) \<Longrightarrow> set (map fst md) \<subseteq> set SAFE_METADATA_FIELDS \<Longrightarrow> plain_metadata md"
  unfolding plain_metadata_def using safe_header_key by (auto simp: image_subset_iff)

lemma update_fresh: "k \<notin> fst ` set acc \<Longrightarrow> AList.update k v acc = acc @ [(k, v)]"
  by (induction acc) auto

lemma foldl_update_fresh:
  assumes "distinct (map fst acc @ map fst xs)"
  shows "foldl (\<lambda>acc (k, v). AList.update k (f v) acc) acc xs = acc @ map (\<lambda>(k, v). (k, f v)) xs"
  using assms
proof (induction xs arbitrary: acc)
  case (Cons x xs)
  obtain k v where x: "x = (k, v)" by fastforce
  with Cons.prems have "AList.update k (f v) acc = acc @ [(k, f v)]"
    by (intro update_fresh) auto
  with Cons x show ?case by (simp add: Cons.IH [of "acc @ [(k, f v)]"])
qed simp

text \<open>What a backend upload stores as headers normalises back to its checksum.\<close>

lemma wire_metadata_checksum:
  assumes "plain_metadata md"
  shows "map_of (normalize_minio_metadata (s3_prefix (minio_wire_metadata md (sha256_hex d)))) ''checksum_sha256''
    = Some (sha256_hex d)"
proof -
  let ?k = "''checksum_sha256''" and ?c = "sha256_hex d"
  let ?san = "sanitize_metadata (AList.update ?k (M_str ?c) md)"
  have kk: "?k \<in> set SAFE_METADATA_FIELDS" by (simp add: SAFE_METADATA_FIELDS_def)
  then have mk: "meta_key ?k = ?k" using safe_header_key by blast
  have "map_of ?san ?k = Some (take 1024 (meta_clean ?c))"
    using assms by (intro sanitize_lookup [where ?k0.0 = ?k])
      (auto simp: plain_metadata_def mk kk distinct_update update_conv' dom_update
        intro!: map_of_SomeD simp del: map_of_eq_Some_iff)
  then have inn: "(?k, ?c) \<in> set ?san" by (auto dest: map_of_SomeD)
  have fold: "foldl (\<lambda>acc (k, v). AList.update (minio_header_key k) (M_str v) acc) []
      (s3_prefix (minio_wire_metadata md ?c))
    = foldl (\<lambda>acc (k, v). AList.update k (M_str v) acc) [] ?san"
    unfolding s3_prefix_def minio_wire_metadata_def foldl_map
    using sanitize_keys(2) [of "AList.update ?k (M_str ?c) md"] safe_header_key
    by (intro foldl_cong) (auto simp: image_subset_iff split: prod.splits)
  let ?md = "map (\<lambda>(k, v). (k, M_str v)) ?san"
  have "map_of (sanitize_metadata ?md) ?k = Some (take 1024 (meta_clean ?c))"
  proof (rule sanitize_lookup [where ?k0.0 = ?k])
    show "(?k, M_str ?c) \<in> set ?md" using inn by force
    show "distinct (map fst ?md)" using sanitize_keys(1) by (simp add: o_def case_prod_unfold)
    show "\<forall>k' \<in> fst ` set ?md. meta_key k' = ?k \<longrightarrow> k' = ?k"
      using sanitize_keys(2) [of "AList.update ?k (M_str ?c) md"] safe_header_key by fastforce
  qed (use mk kk in auto)
  moreover have "foldl (\<lambda>acc (k, v). AList.update k (M_str v) acc) [] ?san = ?md"
    using foldl_update_fresh [of "[]" ?san M_str] sanitize_keys(1) by simp
  ultimately show ?thesis
    unfolding normalize_minio_metadata_def fold by simp
qed

section \<open>The contract of an immutable backend\<close>

text \<open>The store keeps its invariant and every object it held, byte for byte.\<close>

definition store_keeps :: "('s \<Rightarrow> bool) \<Rightarrow> ('s \<Rightarrow> string \<Rightarrow> string \<Rightarrow> bytes option) \<Rightarrow> 's \<Rightarrow> 's \<Rightarrow> bool" where
  "store_keeps ok obj s t \<longleftrightarrow> ok t \<and> (\<forall>b k d. obj s b k = Some d \<longrightarrow> obj t b k = Some d)"

text \<open>The answer describes the object that the store holds under the key.\<close>

definition describes :: "('s \<Rightarrow> string \<Rightarrow> string \<Rightarrow> bytes option) \<Rightarrow> 's \<Rightarrow> string \<Rightarrow> string \<Rightarrow> StoredObject \<Rightarrow> bool" where
  "describes obj t b k x \<longleftrightarrow> (\<exists>d. obj t b k = Some d \<and> so_checksum_sha256 x = sha256_hex d
     \<and> so_size_bytes x = int (length d))"

text \<open>Any use of a store by its interface, with any arguments and outcome.\<close>

inductive store_step :: "'s storage_backend \<Rightarrow> 's \<Rightarrow> 's \<Rightarrow> bool" for B where
  step_stat: "store_step B s (snd (sb_stat B b k s))"
| step_put: "plain_metadata md \<Longrightarrow> store_step B s (snd (sb_put_immutable B b k source checksum ct md s))"
| step_put_bytes: "plain_metadata md \<Longrightarrow> store_step B s (snd (sb_put_bytes_immutable B b k data ct md s))"
| step_read: "store_step B s (snd (sb_read_bytes B b k s))"
| step_list: "store_step B s (snd (sb_list_objects B b prefix s))"

locale immutable_backend =
  fixes B :: "'s storage_backend"
    and ok :: "'s \<Rightarrow> bool"
    and obj :: "'s \<Rightarrow> string \<Rightarrow> string \<Rightarrow> bytes option"
  assumes stat_law: "ok s \<Longrightarrow> wp (sb_stat B b k)
      (\<lambda>r t. store_keeps ok obj s t \<and> (\<forall>x. r = Some x \<longrightarrow> describes obj t b k x \<and> sb_build_uri B b k = Inr (so_uri x)))
      (\<lambda>_ t. store_keeps ok obj s t) s"
    and put_law: "ok s \<Longrightarrow> plain_metadata md \<Longrightarrow> wp (sb_put_immutable B b k source checksum ct md)
      (\<lambda>x t. store_keeps ok obj s t \<and> describes obj t b k x \<and> sb_build_uri B b k = Inr (so_uri x)
         \<and> so_checksum_sha256 x = checksum \<and> sha256_hex source = checksum)
      (\<lambda>_ t. store_keeps ok obj s t) s"
    and put_bytes_law: "ok s \<Longrightarrow> plain_metadata md \<Longrightarrow> wp (sb_put_bytes_immutable B b k data ct md)
      (\<lambda>x t. store_keeps ok obj s t \<and> describes obj t b k x \<and> sb_build_uri B b k = Inr (so_uri x)
         \<and> so_checksum_sha256 x = sha256_hex data)
      (\<lambda>_ t. store_keeps ok obj s t) s"
    and read_law: "ok s \<Longrightarrow> wp (sb_read_bytes B b k)
      (\<lambda>d t. store_keeps ok obj s t \<and> obj t b k = Some d) (\<lambda>_ t. store_keeps ok obj s t) s"
    and list_law: "ok s \<Longrightarrow> wp (sb_list_objects B b prefix)
      (\<lambda>xs t. store_keeps ok obj s t \<and> (\<forall>x \<in> set xs. describes obj t b (so_object_key x) x))
      (\<lambda>_ t. store_keeps ok obj s t) s"
begin

lemma wp_keeps:
  assumes "wp m Q (\<lambda>_ t. store_keeps ok obj s t) s" and "\<And>x t. Q x t \<Longrightarrow> store_keeps ok obj s t"
  shows "store_keeps ok obj s (snd (m s))"
  using assms by (cases "m s") (auto simp: wp_def split: sum.splits)

lemma store_step_keeps: "store_step B s t \<Longrightarrow> ok s \<Longrightarrow> store_keeps ok obj s t"
  by (induction rule: store_step.induct)
    (auto intro: wp_keeps [OF stat_law] wp_keeps [OF put_law] wp_keeps [OF put_bytes_law]
      wp_keeps [OF read_law] wp_keeps [OF list_law])

lemma store_steps_keep:
  assumes "(store_step B)\<^sup>*\<^sup>* s t" and "ok s" shows "store_keeps ok obj s t"
  using assms
  by (induction rule: rtranclp_induct) (auto simp: store_keeps_def dest!: store_step_keeps)

text \<open>A key is written once: after a successful put nothing with another hash is ever accepted.\<close>

lemma immutable_put:
  assumes "ok s" and "plain_metadata md"
    and put: "sb_put_immutable B b k source checksum ct md s = (Inr x, t)"
    and later: "(store_step B)\<^sup>*\<^sup>* t u"
  shows "\<exists>d. obj u b k = Some d \<and> sha256_hex d = checksum"
    and "plain_metadata md' \<Longrightarrow> checksum' \<noteq> checksum \<Longrightarrow>
      \<exists>e. fst (sb_put_immutable B b k source' checksum' ct' md' u) = Inl e"
    and "sb_read_bytes B b k u = (Inr data, v) \<Longrightarrow> sha256_hex data = checksum"
proof -
  from wp_result [OF put_law [OF assms(1,2)] put] obtain d where
    k: "store_keeps ok obj s t" and d: "obj t b k = Some d" "sha256_hex d = checksum"
    by (auto simp: describes_def)
  with store_steps_keep [OF later] have u: "ok u" "obj u b k = Some d" by (auto simp: store_keeps_def)
  with d show "\<exists>d. obj u b k = Some d \<and> sha256_hex d = checksum" by blast
  show "\<exists>e. fst (sb_put_immutable B b k source' checksum' ct' md' u) = Inl e"
    if "plain_metadata md'" "checksum' \<noteq> checksum"
  proof (cases "sb_put_immutable B b k source' checksum' ct' md' u")
    case (Pair q v)
    show ?thesis
    proof (cases q)
      case (Inr y)
      with wp_result [OF put_law [OF u(1) that(1)] Pair [unfolded Inr]] u(2) d(2) that(2)
      show ?thesis by (auto simp: describes_def store_keeps_def)
    qed (simp add: Pair)
  qed
  show "sha256_hex data = checksum" if "sb_read_bytes B b k u = (Inr data, v)"
    using wp_result [OF read_law [OF u(1)] that] u(2) d(2) by (auto simp: store_keeps_def)
qed

end

subsection \<open>The local backend is an immutable backend\<close>

definition local_obj :: "bucket_roots \<Rightarrow> local_fs \<Rightarrow> string \<Rightarrow> string \<Rightarrow> bytes option" where
  "local_obj roots fs b k = (case object_path roots b k of Inl _ \<Rightarrow> None | Inr p \<Rightarrow> map_of (lf_objects fs) p)"

abbreviation local_ok :: "local_fs \<Rightarrow> bool" where "local_ok \<equiv> (\<lambda>_. True)"

definition fs_grows :: "local_fs \<Rightarrow> local_fs \<Rightarrow> bool" where
  "fs_grows fs fs' \<longleftrightarrow> map_of (lf_objects fs) \<subseteq>\<^sub>m map_of (lf_objects fs')"

lemma fs_grows_refl [simp]: "fs_grows fs fs"
  by (simp add: fs_grows_def)

lemma fs_grows_trans: "fs_grows a b \<Longrightarrow> fs_grows b c \<Longrightarrow> fs_grows a c"
  unfolding fs_grows_def by (rule map_le_trans)

lemma fs_grows_keeps: "fs_grows s t \<Longrightarrow> store_keeps local_ok (local_obj roots) s t"
  by (auto simp: store_keeps_def local_obj_def fs_grows_def map_le_def dom_def split: sum.splits)

lemma wp_fs_step:
  assumes "\<And>fs'. map_of (lf_objects fs) \<subseteq>\<^sub>m map_of (lf_objects fs') \<Longrightarrow> lf_objects (snd (body fs')) = lf_objects fs'
      \<or> (\<exists>p d. map_of (lf_objects fs') p = None \<and> lf_objects (snd (body fs')) = lf_objects fs' @ [(p, d)])"
    and "\<And>fs'. fs_grows fs (snd (body fs')) \<Longrightarrow> fs_grows fs fs' \<Longrightarrow> Q (fst (body fs')) (snd (body fs'))"
    and "\<And>e t. fs_grows fs t \<Longrightarrow> E e t"
  shows "wp (fs_step body) Q E fs"
proof -
  define fs1 where "fs1 = fs\<lparr>lf_objects := lf_objects fs @ lf_rival_objects fs (lf_tick fs),
    lf_tick := Suc (lf_tick fs)\<rparr>"
  have g: "fs_grows fs fs1"
    by (auto simp: fs_grows_def fs1_def map_le_def map_add_def dom_def split: option.splits)
  moreover from assms(1) [of fs1] g have "fs_grows fs1 (snd (body fs1))"
    by (auto simp: fs_grows_def map_le_def map_add_def dom_def split: option.splits)
  ultimately have "fs_grows fs (snd (body fs1))" by (rule fs_grows_trans)
  with assms(2) [of fs1] assms(3) g show ?thesis
    unfolding wp_def fs_step_def fs1_def [symmetric] Let_def by (auto split: option.splits prod.splits)
qed

definition stat_post :: "bucket_roots \<Rightarrow> string \<Rightarrow> string \<Rightarrow> StoredObject \<Rightarrow> local_fs \<Rightarrow> bool" where
  "stat_post roots b k x t \<longleftrightarrow> describes (local_obj roots) t b k x
     \<and> local_build_uri roots b k = Inr (so_uri x) \<and> validate_object_key k = Inr (so_object_key x)"

lemma stat_post_grows: "stat_post roots b k x s \<Longrightarrow> fs_grows s t \<Longrightarrow> stat_post roots b k x t"
  using fs_grows_keeps [of s t roots]
  by (auto simp: stat_post_def describes_def store_keeps_def)

lemma stat_post_exists [simp]:
  "stat_post roots b k (x\<lparr>so_already_exists := v\<rparr>) t = stat_post roots b k x t"
  by (simp add: stat_post_def describes_def)

lemma wp_local_stat:
  assumes "fs_grows s fs"
    and "\<And>t. fs_grows s t \<Longrightarrow> fs_grows fs t \<Longrightarrow> Q None t"
    and "\<And>x t. fs_grows s t \<Longrightarrow> fs_grows fs t \<Longrightarrow> stat_post roots b k x t \<Longrightarrow> Q (Some x) t"
    and "\<And>e t. fs_grows s t \<Longrightarrow> E e t"
  shows "wp (local_stat roots b k) Q E fs"
proof -
  have "wp (local_stat roots b k) (\<lambda>r t. fs_grows fs t \<and> (\<forall>x. r = Some x \<longrightarrow> stat_post roots b k x t))
      (\<lambda>_ t. fs_grows fs t) fs"
    unfolding local_stat_def wp_rules
    by (auto split!: sum.splits intro!: wp_fs_step
        simp: stat_post_def describes_def local_obj_def local_build_uri_def split: option.splits)
  then show ?thesis
  proof (rule wp_mono)
    show "Q r t" if "fs_grows fs t \<and> (\<forall>x. r = Some x \<longrightarrow> stat_post roots b k x t)" for r t
      using that assms(2,3) [of t] fs_grows_trans [OF assms(1), of t] by (cases r) simp_all
    show "E e t" if "fs_grows fs t" for e t
      using that assms(4) fs_grows_trans [OF assms(1), of t] by simp
  qed
qed

lemma wp_write_metadata:
  assumes "fs_grows s fs" and "\<And>t. fs_grows s t \<Longrightarrow> fs_grows fs t \<Longrightarrow> Q () t" and "\<And>e t. fs_grows s t \<Longrightarrow> E e t"
  shows "wp (write_metadata p checksum ct md) Q E fs"
proof -
  note g = fs_grows_trans [OF assms(1)]
  show ?thesis
    unfolding write_metadata_def wp_rules
    by (rule wp_fs_step) (auto simp: wp_rules split: option.splits intro: assms(2,3) g)
qed

lemma wp_link_file:
  assumes "fs_grows s fs"
    and "\<And>r t. fs_grows s t \<Longrightarrow> fs_grows fs t \<Longrightarrow> r \<longrightarrow> map_of (lf_objects t) p = Some d \<Longrightarrow> Q r t"
    and "\<And>e t. fs_grows s t \<Longrightarrow> E e t"
  shows "wp (link_file p d) Q E fs"
proof -
  note g = fs_grows_trans [OF assms(1)]
  show ?thesis
    unfolding link_file_def
    by (rule wp_fs_step) (auto simp: map_add_def split: option.splits intro!: assms(2) intro: assms(3) g)
qed

definition holds_hash :: "bucket_roots \<Rightarrow> string \<Rightarrow> string \<Rightarrow> string \<Rightarrow> local_fs \<Rightarrow> bool" where
  "holds_hash roots b k c t \<longleftrightarrow> (\<exists>d. local_obj roots t b k = Some d \<and> sha256_hex d = c)"

lemma holds_hash_grows: "holds_hash roots b k c s \<Longrightarrow> fs_grows s t \<Longrightarrow> holds_hash roots b k c t"
  using fs_grows_keeps [of s t roots] by (auto simp: holds_hash_def store_keeps_def)

lemma stat_post_hash: "stat_post roots b k x t \<Longrightarrow> holds_hash roots b k c t \<longleftrightarrow> so_checksum_sha256 x = c"
  by (auto simp: stat_post_def describes_def holds_hash_def)

text \<open>A stat after the object is known to be there answers with its hash.\<close>

lemma wp_restat:
  assumes "fs_grows s fs" and "holds_hash roots b k c fs"
    and "\<And>x t. fs_grows s t \<Longrightarrow> stat_post roots b k x t \<Longrightarrow> so_checksum_sha256 x = c \<Longrightarrow> wp (f (Some x)) Q E t"
    and "\<And>t. fs_grows s t \<Longrightarrow> wp (f None) Q E t" and "\<And>e t. fs_grows s t \<Longrightarrow> E e t"
  shows "wp (bindE (local_stat roots b k) f) Q E fs"
  unfolding wp_bindE
  by (rule wp_local_stat [OF assms(1)])
    (use assms(2-) in \<open>auto simp: stat_post_hash [symmetric] intro: holds_hash_grows\<close>)

lemma wp_local_store:
  assumes Q: "\<And>x t. fs_grows fs t \<Longrightarrow> stat_post roots b k x t \<Longrightarrow> so_checksum_sha256 x = sha256_hex d \<Longrightarrow> Q x t"
    and E: "\<And>e t. fs_grows fs t \<Longrightarrow> E e t"
  shows "wp (local_store roots b k d (sha256_hex d) ct md) Q E fs"
proof (cases "object_path roots b k")
  case (Inl e)
  then show ?thesis by (simp add: local_store_def wp_rules E)
next
  case (Inr p)
  let ?c = "sha256_hex d"
  have res: "wp (liftE (local_resolve_existing x ?c)) Q E t"
    if "fs_grows fs t" "stat_post roots b k x t" for x t
    using that by (auto simp: wp_rules local_resolve_existing_def intro: Q E)
  have old: "wp (seqE (liftE (local_resolve_existing x ?c))
      (seqE (write_metadata p ?c ct md) (existing_after_metadata roots b k))) Q E t"
    if t: "fs_grows fs t" "stat_post roots b k x t" for x t
  proof (cases "so_checksum_sha256 x = ?c")
    case True
    then have h: "holds_hash roots b k ?c t" using that by (simp add: stat_post_hash)
    have "wp (existing_after_metadata roots b k) Q E u" if "fs_grows fs u" "fs_grows t u" for u
      unfolding existing_after_metadata_def
      by (rule wp_restat [OF that(1) holds_hash_grows [OF h that(2)]]) (auto simp: wp_rules intro: Q E)
    then show ?thesis
      using True t E by (auto simp: wp_rules local_resolve_existing_def intro!: wp_write_metadata)
  qed (auto simp: wp_rules local_resolve_existing_def intro: E t)
  have new: "wp (seqE (write_metadata p ?c ct md) (bindE (local_stat roots b k) (\<lambda>st. case st of
      None \<Rightarrow> raiseE (Storage_Backend_Error ''Immutable local object was not visible after write'')
    | Some x \<Rightarrow> returnE x))) Q E t" if t: "fs_grows fs t" "map_of (lf_objects t) p = Some d" for t
  proof -
    have h: "holds_hash roots b k ?c t" using t(2) Inr by (simp add: holds_hash_def local_obj_def)
    show ?thesis
      unfolding wp_seqE
      by (rule wp_write_metadata [OF t(1)], rule wp_restat, assumption, erule holds_hash_grows [OF h])
        (auto simp: wp_rules intro: Q E)
  qed
  have lnk: "wp (link_file p d) (\<lambda>created. wp (if \<not> created
      then bindE (local_stat roots b k) (\<lambda>winner. case winner of
             None \<Rightarrow> raiseE (Storage_Backend_Error ''Immutable destination disappeared during write'')
           | Some x \<Rightarrow> liftE (local_resolve_existing x ?c))
      else seqE (write_metadata p ?c ct md) (bindE (local_stat roots b k) (\<lambda>st. case st of
             None \<Rightarrow> raiseE (Storage_Backend_Error ''Immutable local object was not visible after write'')
           | Some x \<Rightarrow> returnE x))) Q E) E t" if "fs_grows fs t" for t
  proof (rule wp_link_file [OF that])
    fix r u assume u: "fs_grows fs u" "r \<longrightarrow> map_of (lf_objects u) p = Some d"
    show "wp (if \<not> r then bindE (local_stat roots b k) (\<lambda>winner. case winner of
             None \<Rightarrow> raiseE (Storage_Backend_Error ''Immutable destination disappeared during write'')
           | Some x \<Rightarrow> liftE (local_resolve_existing x ?c))
      else seqE (write_metadata p ?c ct md) (bindE (local_stat roots b k) (\<lambda>st. case st of
             None \<Rightarrow> raiseE (Storage_Backend_Error ''Immutable local object was not visible after write'')
           | Some x \<Rightarrow> returnE x))) Q E u"
    proof (cases r)
      case True
      with u new show ?thesis by simp
    next
      case False
      have "wp (local_stat roots b k) (\<lambda>winner. wp (case winner of
             None \<Rightarrow> raiseE (Storage_Backend_Error ''Immutable destination disappeared during write'')
           | Some x \<Rightarrow> liftE (local_resolve_existing x ?c)) Q E) E u"
        by (rule wp_local_stat [OF u(1)]) (simp_all add: wp_raiseE E res)
      with False show ?thesis by (simp add: wp_bindE)
    qed
  qed (rule E)
  show ?thesis
    unfolding local_store_def Inr wp_bindE wp_liftE sum.case
    by (rule wp_local_stat [of fs]) (simp_all add: wp_bindE lnk old E)
qed

lemma local_obj_key:
  "validate_object_key k = Inr key \<Longrightarrow> local_obj roots t b key = local_obj roots t b k"
  using validate_object_key_idem [of k key]
  by (simp add: local_obj_def object_path_def bindR_def split: sum.splits)

text \<open>Stats in sequence: what each answers stays true while the store only grows.\<close>

lemma wp_stat_all:
  assumes refl: "\<And>a. G a a" and trans: "\<And>a b c. G a b \<Longrightarrow> G b c \<Longrightarrow> G a c"
    and stable: "\<And>x a b. P x a \<Longrightarrow> G a b \<Longrightarrow> P x b"
    and stat: "\<And>k a. G s a \<Longrightarrow> wp (stat k) (\<lambda>r t. G a t \<and> (\<forall>x. r = Some x \<longrightarrow> P x t)) (\<lambda>_ t. G a t) a"
  shows "wp (stat_all stat ks) (\<lambda>xs t. G s t \<and> (\<forall>x \<in> set xs. P x t)) (\<lambda>_ t. G s t) s"
proof -
  have "wp (stat_all stat ks) (\<lambda>xs t. G a t \<and> (\<forall>x \<in> set xs. P x t)) (\<lambda>_ t. G a t) a" if "G s a" for a
    using that
  proof (induction ks arbitrary: a)
    case (Cons k ks)
    have "wp (stat_all stat ks) (\<lambda>rest t. G a t
        \<and> (\<forall>x \<in> set (case r of None \<Rightarrow> rest | Some x \<Rightarrow> x # rest). P x t)) (\<lambda>_ t. G a t) b"
      if b: "G a b \<and> (\<forall>x. r = Some x \<longrightarrow> P x b)" for r b
      by (rule wp_mono [OF Cons.IH [of b]])
        (use b trans [OF Cons.prems(1)] trans [of a b] stable [of _ b] in \<open>auto split: option.splits\<close>)
    then show ?case
      unfolding stat_all.simps wp_rules by (rule wp_mono [OF stat [OF Cons.prems(1)]]) simp
  qed (simp add: wp_rules refl)
  with refl show ?thesis by blast
qed

lemma wp_local_list_objects:
  "wp (local_list_objects roots b prefix)
     (\<lambda>xs t. fs_grows s t \<and> (\<forall>x \<in> set xs. describes (local_obj roots) t b (so_object_key x) x))
     (\<lambda>_ t. fs_grows s t) s"
proof -
  let ?P = "\<lambda>x t. describes (local_obj roots) t b (so_object_key x) x"
  have all: "wp (stat_all (local_stat roots b) ks) (\<lambda>xs t. fs_grows a t \<and> (\<forall>x \<in> set xs. ?P x t))
      (\<lambda>_ t. fs_grows a t) a" for ks a
  proof (rule wp_stat_all [where P = ?P])
    show "?P x t" if "?P x c" "fs_grows c t" for x c t
      using that fs_grows_keeps [of c t roots] by (auto simp: describes_def store_keeps_def)
    show "wp (local_stat roots b k) (\<lambda>r t. fs_grows c t \<and> (\<forall>x. r = Some x \<longrightarrow> ?P x t)) (\<lambda>_ t. fs_grows c t) c"
      for k c
      by (rule wp_local_stat [of c]) (auto simp: stat_post_def describes_def local_obj_key)
  qed (auto intro: fs_grows_trans)
  show ?thesis
    unfolding local_list_objects_def wp_bindE wp_liftE
    by (auto split: sum.splits intro!: wp_fs_step wp_mono [OF all] intro: fs_grows_trans)
qed

interpretation local: immutable_backend "local_backend roots" local_ok "local_obj roots"
  for roots
proof
  show "wp (sb_stat (local_backend roots) b k)
      (\<lambda>r t. store_keeps local_ok (local_obj roots) s t
         \<and> (\<forall>x. r = Some x \<longrightarrow> describes (local_obj roots) t b k x \<and> sb_build_uri (local_backend roots) b k = Inr (so_uri x)))
      (\<lambda>_ t. store_keeps local_ok (local_obj roots) s t) s" for s b k
    by (auto simp: local_backend_def intro!: wp_local_stat [of s] fs_grows_keeps) (auto simp: stat_post_def)
  show "wp (sb_put_immutable (local_backend roots) b k source checksum ct md)
      (\<lambda>x t. store_keeps local_ok (local_obj roots) s t \<and> describes (local_obj roots) t b k x
         \<and> sb_build_uri (local_backend roots) b k = Inr (so_uri x)
         \<and> so_checksum_sha256 x = checksum \<and> sha256_hex source = checksum)
      (\<lambda>_ t. store_keeps local_ok (local_obj roots) s t) s" for s b k source checksum ct md
    by (auto simp: local_backend_def local_put_immutable_def wp_rules stat_post_def
        intro!: wp_local_store fs_grows_keeps)
  show "wp (sb_put_bytes_immutable (local_backend roots) b k data ct md)
      (\<lambda>x t. store_keeps local_ok (local_obj roots) s t \<and> describes (local_obj roots) t b k x
         \<and> sb_build_uri (local_backend roots) b k = Inr (so_uri x) \<and> so_checksum_sha256 x = sha256_hex data)
      (\<lambda>_ t. store_keeps local_ok (local_obj roots) s t) s" for s b k data ct md
    by (auto simp: local_backend_def local_put_bytes_immutable_def wp_rules stat_post_def
        intro!: wp_local_store fs_grows_keeps)
  show "wp (sb_read_bytes (local_backend roots) b k)
      (\<lambda>d t. store_keeps local_ok (local_obj roots) s t \<and> local_obj roots t b k = Some d)
      (\<lambda>_ t. store_keeps local_ok (local_obj roots) s t) s" for s b k
    by (auto simp: local_backend_def local_read_bytes_def wp_rules local_obj_def
        intro!: wp_fs_step fs_grows_keeps split: sum.splits option.splits)
  show "wp (sb_list_objects (local_backend roots) b prefix)
      (\<lambda>xs t. store_keeps local_ok (local_obj roots) s t
         \<and> (\<forall>x \<in> set xs. describes (local_obj roots) t b (so_object_key x) x))
      (\<lambda>_ t. store_keeps local_ok (local_obj roots) s t) s" for s b prefix
    unfolding local_backend_def
    by (simp, rule wp_mono [OF wp_local_list_objects [where s = s]]) (auto intro: fs_grows_keeps)
qed

subsection \<open>The MinIO backend is an immutable backend\<close>

record s3_object =
  s3_data :: bytes
  s3_headers :: headers

text \<open>The header that the backend writes names the hash of the bytes.\<close>

definition sealed :: "s3_object \<Rightarrow> bool" where
  "sealed x \<longleftrightarrow> map_of (normalize_minio_metadata (s3_prefix (s3_headers x))) ''checksum_sha256''
     = Some (sha256_hex (s3_data x))"

definition all_sealed :: "('s \<Rightarrow> string \<times> string \<Rightarrow> s3_object option) \<Rightarrow> 's \<Rightarrow> bool" where
  "all_sealed contents s \<longleftrightarrow> (\<forall>a x. contents s a = Some x \<longrightarrow> sealed x)"

definition s3_keeps :: "('s \<Rightarrow> string \<times> string \<Rightarrow> s3_object option) \<Rightarrow> 's \<Rightarrow> 's \<Rightarrow> bool" where
  "s3_keeps contents s t \<longleftrightarrow> contents s \<subseteq>\<^sub>m contents t \<and> (all_sealed contents s \<longrightarrow> all_sealed contents t)"

lemma s3_keeps_refl [simp]: "s3_keeps contents s s"
  by (simp add: s3_keeps_def)

lemma s3_keeps_trans: "s3_keeps contents a b \<Longrightarrow> s3_keeps contents b c \<Longrightarrow> s3_keeps contents a c"
  by (auto simp: s3_keeps_def intro: map_le_trans)

definition minio_obj :: "('s \<Rightarrow> string \<times> string \<Rightarrow> s3_object option) \<Rightarrow> 's \<Rightarrow> string \<Rightarrow> string \<Rightarrow> bytes option" where
  "minio_obj contents s b k = (case validate_object_key k of
     Inl _ \<Rightarrow> None | Inr key \<Rightarrow> map_option s3_data (contents s (b, key)))"

text \<open>
  The server as the backend uses it: a bucket is only ever written by conditional creation
  through this backend, here and by every other client, so objects persist unchanged and carry
  a truthful checksum header; a stat or a get that succeeds reports the object it found, a
  conditional put that succeeds has stored its bytes and headers.
\<close>

locale s3_store =
  fixes M :: "'s MinioStorageBackend"
    and contents :: "'s \<Rightarrow> string \<times> string \<Rightarrow> s3_object option"
  assumes s3_stat: "stat_object (mb_client M) b key s = (q, t) \<Longrightarrow> s3_keeps contents s t
      \<and> (\<forall>r. q = Inr r \<longrightarrow> (\<exists>x. contents t (b, key) = Some x \<and> st_size r = int (length (s3_data x))
           \<and> normalize_minio_metadata (st_metadata r) = normalize_minio_metadata (s3_prefix (s3_headers x))))"
    and s3_put: "put_object_if_absent (mb_client M) b key d ct h s = (q2, t) \<Longrightarrow>
      sealed \<lparr>s3_data = d, s3_headers = h\<rparr> \<Longrightarrow> s3_keeps contents s t
      \<and> (q2 = Inr () \<longrightarrow> contents t (b, key) = Some \<lparr>s3_data = d, s3_headers = h\<rparr>)"
    and s3_get: "get_object (mb_client M) b key s = (q3, t) \<Longrightarrow> s3_keeps contents s t
      \<and> (\<forall>d. q3 = Inr d \<longrightarrow> (\<exists>x. contents t (b, key) = Some x \<and> s3_data x = d))"
    and s3_list: "list_object_names (mb_client M) b prefix s = (q4, t) \<Longrightarrow> s3_keeps contents s t"
    and s3_sleep: "s3_keeps contents s (mb_sleeper M delay s)"
begin

lemma wp_minio_retry:
  assumes "\<And>a q t. op a = (q, t) \<Longrightarrow> s3_keeps contents a t \<and> (\<forall>x. q = Inr x \<longrightarrow> P x t)"
  shows "wp (minio_retry M name op nf) (\<lambda>x t. s3_keeps contents s t \<and> P x t) (\<lambda>_ t. s3_keeps contents s t) s"
proof -
  have "wp (minio_retry_loop M name op nf n i) (\<lambda>x t. s3_keeps contents a t \<and> P x t)
      (\<lambda>_ t. s3_keeps contents a t) a" for n i a
  proof (induction n arbitrary: i a)
    case (Suc n)
    obtain q t where op: "op a = (q, t)" by fastforce
    from assms [OF op] have k: "s3_keeps contents a t" "\<And>x. q = Inr x \<Longrightarrow> P x t" by auto
    have again: "wp (minio_retry_loop M name op nf n (Suc i)) (\<lambda>x t. s3_keeps contents a t \<and> P x t)
        (\<lambda>_ t. s3_keeps contents a t) (mb_sleeper M delay t)" for delay
      by (rule wp_mono [OF Suc]) (auto intro: s3_keeps_trans [OF s3_keeps_trans [OF k(1) s3_sleep]])
    show ?case
    proof (cases q)
      case (Inl f)
      with k again op show ?thesis by (cases f) (auto simp: wp_def)
    next
      case (Inr x)
      with k op show ?thesis by (simp add: wp_def)
    qed
  qed (simp add: wp_rules)
  then show ?thesis unfolding minio_retry_def .
qed

lemma minio_obj_keeps:
  "s3_keeps contents s t \<Longrightarrow> all_sealed contents s \<Longrightarrow>
     store_keeps (all_sealed contents) (minio_obj contents) s t"
  by (auto simp: store_keeps_def s3_keeps_def minio_obj_def map_le_def dom_def split: sum.splits)

definition found :: "string \<Rightarrow> string \<Rightarrow> StoredObject \<Rightarrow> 's \<Rightarrow> bool" where
  "found b k x t \<longleftrightarrow> minio_build_uri b k = Inr (so_uri x) \<and> validate_object_key k = Inr (so_object_key x)
     \<and> (all_sealed contents t \<longrightarrow> describes (minio_obj contents) t b k x)"

lemma wp_minio_stat:
  "wp (minio_stat M b k) (\<lambda>r t. s3_keeps contents s t \<and> (\<forall>x. r = Some x \<longrightarrow> found b k x t))
     (\<lambda>_ t. s3_keeps contents s t) s"
proof (cases "validate_object_key k")
  case (Inl e)
  then show ?thesis by (simp add: minio_stat_def wp_rules)
next
  case (Inr key)
  then have idem: "validate_object_key key = Inr key" by (rule validate_object_key_idem)
  let ?post = "\<lambda>r t. s3_keeps contents s t \<and> (\<forall>x. r = Some x \<longrightarrow> found b k x t)"
  let ?seen = "\<lambda>r t. \<exists>x. contents t (b, key) = Some x \<and> st_size r = int (length (s3_data x))
      \<and> normalize_minio_metadata (st_metadata r) = normalize_minio_metadata (s3_prefix (s3_headers x))"
  have answer: "wp (bindE (liftE (minio_build_uri b key)) (\<lambda>uri.
        let md = normalize_minio_metadata (st_metadata r) in returnE (Some
          \<lparr>so_bucket = b, so_object_key = key, so_uri = uri,
           so_checksum_sha256 = (case map_of md ''checksum_sha256'' of None \<Rightarrow> [] | Some c \<Rightarrow> c),
           so_size_bytes = st_size r, so_content_type = st_content_type r, so_metadata = md,
           so_already_exists = False\<rparr>))) ?post (\<lambda>_ t. s3_keeps contents s t) t"
    if "s3_keeps contents s t" "?seen r t" for r t
    using that Inr idem
    by (auto simp: wp_rules Let_def found_def minio_build_uri_def describes_def minio_obj_def
        all_sealed_def sealed_def)
  have "wp (minio_retry M ''stat object'' (stat_object (mb_client M) b key) True)
      (\<lambda>r t. s3_keeps contents s t \<and> ?seen r t) (\<lambda>_ t. s3_keeps contents s t) s"
    by (rule wp_minio_retry) (rule s3_stat)
  then show ?thesis
    unfolding minio_stat_def Inr wp_bindE [of "liftE (Inr key)"] wp_liftE sum.case
    unfolding wp_bindE [of "catchE _ _"] wp_catchE wp_bindE [of "minio_retry _ _ _ _"] wp_returnE
    by (rule wp_mono) (auto intro: answer simp: wp_returnE wp_raiseE split: exn.splits)
qed

lemma wp_minio_stat_sealed:
  assumes "all_sealed contents s"
  shows "wp (minio_stat M b k) (\<lambda>r t. store_keeps (all_sealed contents) (minio_obj contents) s t
      \<and> (\<forall>x. r = Some x \<longrightarrow> describes (minio_obj contents) t b k x \<and> minio_build_uri b k = Inr (so_uri x)))
     (\<lambda>_ t. store_keeps (all_sealed contents) (minio_obj contents) s t) s"
  by (rule wp_mono [OF wp_minio_stat [where s = s]])
    (use assms minio_obj_keeps in \<open>auto simp: found_def s3_keeps_def\<close>)

lemma found_keeps: "found b k x s \<Longrightarrow> s3_keeps contents s t \<Longrightarrow> all_sealed contents s \<Longrightarrow> found b k x t"
  using minio_obj_keeps [of s t] by (auto simp: found_def describes_def store_keeps_def)

lemma found_exists [simp]: "found b k (x\<lparr>so_already_exists := v\<rparr>) t = found b k x t"
  by (simp add: found_def describes_def)

lemma wp_minio_store:
  assumes "plain_metadata md"
  shows "wp (minio_store M b k d (sha256_hex d) ct md)
      (\<lambda>x t. s3_keeps contents s t \<and> found b k x t \<and> so_checksum_sha256 x = sha256_hex d)
      (\<lambda>_ t. s3_keeps contents s t) s"
proof (cases "validate_object_key k")
  case (Inl e)
  then show ?thesis by (simp add: minio_store_def wp_rules)
next
  case (Inr key)
  have key: "found b key x t \<longleftrightarrow> found b k x t" for x t
    using validate_object_key_idem [OF Inr] Inr by (simp add: found_def describes_def minio_obj_def minio_build_uri_def)
  let ?E = "\<lambda>_ t. s3_keeps contents s t"
  let ?Q = "\<lambda>x t. s3_keeps contents s t \<and> found b k x t \<and> so_checksum_sha256 x = sha256_hex d"
  have res: "wp (liftE (minio_resolve_existing x (sha256_hex d))) ?Q ?E t"
    if "s3_keeps contents s t" "found b k x t" for x t
    using that by (simp add: wp_liftE minio_resolve_existing_def)
  have stat: "wp (minio_stat M b key) (\<lambda>r t. s3_keeps contents s t \<and> (\<forall>x. r = Some x \<longrightarrow> found b k x t)) ?E t"
    if "s3_keeps contents s t" for t
    by (rule wp_mono [OF wp_minio_stat [of b key t]]) (auto simp: key intro: s3_keeps_trans [OF that])
  have verify: "wp (minio_verify_upload M b key (sha256_hex d) (int (length d))) ?Q ?E t"
    if "s3_keeps contents s t" for t
    unfolding minio_verify_upload_def wp_bindE
    by (rule wp_mono [OF stat [OF that]]) (auto simp: wp_rules split: option.splits)
  have conflict: "wp (bindE (minio_stat M b key) (\<lambda>winner. case winner of
         None \<Rightarrow> raiseE (Storage_Backend_Error ''Conditional object collision could not be inspected'')
       | Some x \<Rightarrow> liftE (minio_resolve_existing x (sha256_hex d)))) ?Q ?E t" if "s3_keeps contents s t" for t
    unfolding wp_bindE
    by (rule wp_mono [OF stat [OF that]]) (auto simp: wp_raiseE res split: option.splits)
  have put: "wp (minio_retry M ''upload object'' (put_object_if_absent (mb_client M) b key d ct
      (minio_wire_metadata md (sha256_hex d))) False) (\<lambda>_ t. s3_keeps contents s t) ?E t"
    if "s3_keeps contents s t" for t
  proof -
    have "sealed \<lparr>s3_data = d, s3_headers = minio_wire_metadata md (sha256_hex d)\<rparr>"
      using wire_metadata_checksum [OF assms] by (simp add: sealed_def)
    from wp_minio_retry [where P = "\<lambda>_ _. True" and s = t, OF conjI [OF conjunct1 [OF s3_put [OF _ this]]]]
    show ?thesis by (rule wp_mono) (auto intro: s3_keeps_trans [OF that])
  qed
  show ?thesis
    unfolding minio_store_def Inr wp_bindE [of "liftE (Inr key)"] wp_liftE sum.case
      wp_bindE [of "minio_stat M b key"]
    by (rule wp_mono [OF stat [OF s3_keeps_refl]])
      (auto split: option.splits exn.splits simp: res wp_bindE [of "catchE _ _"] wp_catchE wp_seqE wp_returnE
        wp_raiseE verify conflict intro!: wp_mono [OF put])
qed

end

lemma describes_key: "validate_object_key k = Inr key \<Longrightarrow>
    describes (minio_obj contents) t b key x = describes (minio_obj contents) t b k x"
  using validate_object_key_idem [of k key] by (simp add: describes_def minio_obj_def)

context s3_store
begin

lemma wp_minio_list_objects:
  assumes "all_sealed contents s"
  shows "wp (minio_list_objects M b prefix)
     (\<lambda>xs t. s3_keeps contents s t \<and> (\<forall>x \<in> set xs. describes (minio_obj contents) t b (so_object_key x) x))
     (\<lambda>_ t. s3_keeps contents s t) s"
proof -
  let ?P = "\<lambda>x t. all_sealed contents t \<and> describes (minio_obj contents) t b (so_object_key x) x"
  have all: "wp (stat_all (minio_stat M b) ks) (\<lambda>xs t. s3_keeps contents a t \<and> (\<forall>x \<in> set xs. ?P x t))
      (\<lambda>_ t. s3_keeps contents a t) a" if a: "all_sealed contents a" for ks a
  proof (rule wp_stat_all [where P = ?P])
    show "?P x t" if "?P x c" "s3_keeps contents c t" for x c t
      using that minio_obj_keeps [of c t] by (auto simp: describes_def store_keeps_def)
    show "wp (minio_stat M b k) (\<lambda>r t. s3_keeps contents c t \<and> (\<forall>x. r = Some x \<longrightarrow> ?P x t))
        (\<lambda>_ t. s3_keeps contents c t) c" if "s3_keeps contents a c" for k c
      by (rule wp_mono [OF wp_minio_stat [of b k c]])
        (use that a in \<open>auto simp: found_def s3_keeps_def describes_key\<close>)
  qed (auto intro: s3_keeps_trans)
  have "wp (minio_retry M ''list objects'' (list_object_names (mb_client M) b (strip_char (CHR ''/'') prefix)) False)
      (\<lambda>_ t. s3_keeps contents s t \<and> True) (\<lambda>_ t. s3_keeps contents s t) s"
    by (rule wp_minio_retry) (use s3_list in blast)
  then show ?thesis
    unfolding minio_list_objects_def wp_bindE
  proof (rule wp_mono)
    fix names t assume t: "s3_keeps contents s t \<and> True"
    with assms have "all_sealed contents t" by (simp add: s3_keeps_def)
    from all [OF this, of "filter (\<lambda>n. n \<noteq> []) names"]
    show "wp (stat_all (minio_stat M b) (filter (\<lambda>n. n \<noteq> []) names))
        (\<lambda>xs t. s3_keeps contents s t \<and> (\<forall>x \<in> set xs. describes (minio_obj contents) t b (so_object_key x) x))
        (\<lambda>_ t. s3_keeps contents s t) t"
      by (rule wp_mono) (use t in \<open>auto intro: s3_keeps_trans\<close>)
  qed simp
qed

end

sublocale s3_store \<subseteq> minio: immutable_backend "minio_backend M" "all_sealed contents" "minio_obj contents"
proof
  fix s :: 's and b k source checksum ct data prefix :: string and md :: metadata
  assume ok: "all_sealed contents s"
  let ?K = "store_keeps (all_sealed contents) (minio_obj contents) s"
  note keeps = minio_obj_keeps [OF _ ok]
  show "wp (sb_stat (minio_backend M) b k)
      (\<lambda>r t. ?K t \<and> (\<forall>x. r = Some x \<longrightarrow> describes (minio_obj contents) t b k x
         \<and> sb_build_uri (minio_backend M) b k = Inr (so_uri x))) (\<lambda>_ t. ?K t) s"
    using wp_minio_stat_sealed [OF ok] by (simp add: minio_backend_def)
  show "wp (sb_read_bytes (minio_backend M) b k) (\<lambda>d t. ?K t \<and> minio_obj contents t b k = Some d) (\<lambda>_ t. ?K t) s"
  proof (cases "validate_object_key k")
    case (Inr key)
    have "wp (minio_retry M ''read object'' (get_object (mb_client M) b key) False)
        (\<lambda>d t. s3_keeps contents s t \<and> (\<exists>x. contents t (b, key) = Some x \<and> s3_data x = d))
        (\<lambda>_ t. s3_keeps contents s t) s" by (rule wp_minio_retry) (rule s3_get)
    then show ?thesis
      unfolding minio_backend_def minio_read_bytes_def Inr
      by (simp add: wp_rules Inr) (erule wp_mono, auto intro: keeps simp: minio_obj_def Inr)
  qed (use ok in \<open>simp add: minio_backend_def minio_read_bytes_def wp_rules store_keeps_def\<close>)
  show "wp (sb_list_objects (minio_backend M) b prefix)
      (\<lambda>xs t. ?K t \<and> (\<forall>x \<in> set xs. describes (minio_obj contents) t b (so_object_key x) x)) (\<lambda>_ t. ?K t) s"
    unfolding minio_backend_def
    by (simp, rule wp_mono [OF wp_minio_list_objects [OF ok]]) (auto intro: keeps)
  assume md: "plain_metadata md"
  have st: "wp (minio_store M b k d (sha256_hex d) ct md)
      (\<lambda>x t. ?K t \<and> describes (minio_obj contents) t b k x \<and> minio_build_uri b k = Inr (so_uri x)
         \<and> so_checksum_sha256 x = sha256_hex d) (\<lambda>_ t. ?K t) s" for d
    by (rule wp_mono [OF wp_minio_store [OF md, where s = s]])
      (use ok in \<open>auto simp: found_def s3_keeps_def intro: keeps\<close>)
  show "wp (sb_put_immutable (minio_backend M) b k source checksum ct md)
      (\<lambda>x t. ?K t \<and> describes (minio_obj contents) t b k x \<and> sb_build_uri (minio_backend M) b k = Inr (so_uri x)
         \<and> so_checksum_sha256 x = checksum \<and> sha256_hex source = checksum) (\<lambda>_ t. ?K t) s"
    using st [of source] ok
    by (auto simp: minio_backend_def minio_put_immutable_def wp_raiseE store_keeps_def elim: wp_mono)
  show "wp (sb_put_bytes_immutable (minio_backend M) b k data ct md)
      (\<lambda>x t. ?K t \<and> describes (minio_obj contents) t b k x \<and> sb_build_uri (minio_backend M) b k = Inr (so_uri x)
         \<and> so_checksum_sha256 x = sha256_hex data) (\<lambda>_ t. ?K t) s"
    using st [of data] by (simp add: minio_backend_def minio_put_bytes_immutable_def)
qed

context s3_store
begin

lemma minio_immutable_backend:
  "immutable_backend (minio_backend M) (all_sealed contents) (minio_obj contents)"
  by (rule minio.immutable_backend_axioms)

end

subsection \<open>A concrete server\<close>

text \<open>An in-memory bucket store with the conditional put of S3: it meets the laws.\<close>

type_synonym mem_s3 = "((string \<times> string) \<times> s3_object) list"

definition mem_client :: "mem_s3 MinioClient" where
  "mem_client =
     \<lparr>stat_object = (\<lambda>b key s. (case map_of s (b, key) of
          None \<Rightarrow> Inl (S3_Error ''NoSuchKey'')
        | Some x \<Rightarrow> Inr \<lparr>st_size = int (length (s3_data x)), st_content_type = ''application/octet-stream'',
                        st_metadata = s3_prefix (s3_headers x)\<rparr>, s)),
      put_object_if_absent = (\<lambda>b key d ct h s. (case map_of s (b, key) of
          None \<Rightarrow> (Inr (), s @ [((b, key), \<lparr>s3_data = d, s3_headers = h\<rparr>)])
        | Some x \<Rightarrow> (Inl (S3_Error ''PreconditionFailed''), s))),
      get_object = (\<lambda>b key s. (case map_of s (b, key) of
          None \<Rightarrow> Inl (S3_Error ''NoSuchKey'') | Some x \<Rightarrow> Inr (s3_data x), s)),
      list_object_names = (\<lambda>b prefix s.
        (Inr (filter (starts_with prefix) (map (snd \<circ> fst) (filter (\<lambda>x. fst (fst x) = b) s))), s))\<rparr>"

definition mem_minio :: "mem_s3 MinioStorageBackend" where
  "mem_minio = \<lparr>mb_client = mem_client, mb_max_attempts = 3, mb_backoff_seconds = 1 / 10,
     mb_sleeper = (\<lambda>_ s. s)\<rparr>"

interpretation mem: s3_store mem_minio map_of
proof
  show "s3_keeps map_of s t \<and> (q2 = Inr () \<longrightarrow> map_of t (b, key) = Some \<lparr>s3_data = d, s3_headers = h\<rparr>)"
    if "put_object_if_absent (mb_client mem_minio) b key d ct h s = (q2, t)" "sealed \<lparr>s3_data = d, s3_headers = h\<rparr>"
    for b key d ct h s q2 t
    using that
    by (auto simp: mem_minio_def mem_client_def s3_keeps_def all_sealed_def map_le_def map_add_def
        split: option.splits if_splits)
qed (auto simp: mem_minio_def mem_client_def split: option.splits)

section \<open>Properties\<close>

text \<open>
  C7. The local backend is write-once: after a successful \<open>put_immutable\<close>, whatever further
  calls, I/O faults and concurrent file creations happen, the key keeps holding bytes with the
  declared SHA-256, every later put of other content raises, and every successful read returns
  bytes with that hash.
\<close>

theorem local_write_once:
  assumes "local_put_immutable roots b k source checksum ct md fs = (Inr x, fs1)"
    and "plain_metadata md" and "(store_step (local_backend roots))\<^sup>*\<^sup>* fs1 fs2"
  shows "(\<exists>d. local_obj roots fs2 b k = Some d \<and> sha256_hex d = checksum)
    \<and> (plain_metadata md' \<and> checksum' \<noteq> checksum \<longrightarrow>
         (\<exists>e. fst (local_put_immutable roots b k source' checksum' ct' md' fs2) = Inl e))
    \<and> (\<forall>data fs3. local_read_bytes roots b k fs2 = (Inr data, fs3) \<longrightarrow> sha256_hex data = checksum)"
proof -
  have put: "sb_put_immutable (local_backend roots) b k source checksum ct md fs = (Inr x, fs1)"
    using assms(1) by (simp add: local_backend_def)
  show ?thesis
    using local.immutable_put [OF TrueI assms(2) put assms(3)]
    by (simp add: local_backend_def)
qed

definition sample_fs :: local_fs where
  "sample_fs = \<lparr>lf_objects = [], lf_sidecars = [], lf_faults = \<lambda>_. None,
     lf_rival_objects = \<lambda>_. [], lf_tick = 0\<rparr>"

lemma sample_put:
  "\<exists>x fs. local_put_immutable [(''bronze'', [''data''])] ''bronze'' ''a/b'' ''xyz'' (sha256_hex ''xyz'') ct [] sample_fs
     = (Inr x, fs)"
  by (simp add: local_put_immutable_def local_store_def object_path_def bucket_root_def validate_object_key_def
      posix_parts_def as_posix_def local_stat_def bindE_def liftE_def fs_step_def sample_fs_def link_file_def
      write_metadata_def seqE_def returnE_def Let_def)

theorem local_write_once_witness:
  "\<exists>x fs. local_put_immutable [(''bronze'', [''data''])] ''bronze'' ''a/b'' ''xyz'' (sha256_hex ''xyz'') ''t'' [] sample_fs
      = (Inr x, fs)
    \<and> (\<exists>d. local_obj [(''bronze'', [''data''])] fs ''bronze'' ''a/b'' = Some d \<and> sha256_hex d = sha256_hex ''xyz'')"
proof -
  have md: "plain_metadata []" by (simp add: plain_metadata_def)
  obtain x fs where "local_put_immutable [(''bronze'', [''data''])] ''bronze'' ''a/b'' ''xyz'' (sha256_hex ''xyz'') ''t'' []
      sample_fs = (Inr x, fs)" using sample_put by blast
  with local_write_once [OF this md rtranclp.rtrancl_refl] show ?thesis by blast
qed

text \<open>
  C6. The MinIO backend is write-once on every server with the documented conditional-write
  behaviour, including lost responses, retries and races with other writers: after a successful
  put the bucket keeps bytes with the declared SHA-256 under the key, other content is refused,
  and reads return bytes with that hash.
\<close>

theorem minio_write_once:
  assumes "s3_store M contents" and "all_sealed contents s"
    and "minio_put_immutable M b k source checksum ct md s = (Inr x, t)"
    and "plain_metadata md" and "(store_step (minio_backend M))\<^sup>*\<^sup>* t u"
  shows "(\<exists>d. minio_obj contents u b k = Some d \<and> sha256_hex d = checksum)
    \<and> (plain_metadata md' \<and> checksum' \<noteq> checksum \<longrightarrow>
         (\<exists>e. fst (minio_put_immutable M b k source' checksum' ct' md' u) = Inl e))
    \<and> (\<forall>data v. minio_read_bytes M b k u = (Inr data, v) \<longrightarrow> sha256_hex data = checksum)"
proof -
  have im: "immutable_backend (minio_backend M) (all_sealed contents) (minio_obj contents)"
    using assms(1) by (rule s3_store.minio_immutable_backend)
  have put: "sb_put_immutable (minio_backend M) b k source checksum ct md s = (Inr x, t)"
    using assms(3) by (simp add: minio_backend_def)
  show ?thesis
    using immutable_backend.immutable_put [OF im assms(2,4) put assms(5)]
    by (simp add: minio_backend_def)
qed

lemma mem_put:
  "\<exists>x t. minio_put_immutable mem_minio ''bronze'' ''a/b'' ''xyz'' (sha256_hex ''xyz'') ct [] [] = (Inr x, t)"
proof -
  have seal: "map_of (normalize_minio_metadata (s3_prefix (minio_wire_metadata [] (sha256_hex ''xyz'')))) ''checksum_sha256''
      = Some (sha256_hex ''xyz'')"
    by (rule wire_metadata_checksum) (simp add: plain_metadata_def)
  have "mb_max_attempts mem_minio = 3" by (simp add: mem_minio_def)
  then show ?thesis
    using seal
    by (simp add: minio_put_immutable_def minio_store_def minio_stat_def minio_retry_def minio_verify_upload_def
        validate_object_key_def posix_parts_def as_posix_def minio_build_uri_def bindE_def liftE_def catchE_def
        seqE_def returnE_def mem_minio_def mem_client_def Let_def eval_nat_numeral NOT_FOUND_S3_CODES_def)
qed

theorem minio_write_once_witness:
  "\<exists>x t. minio_put_immutable mem_minio ''bronze'' ''a/b'' ''xyz'' (sha256_hex ''xyz'') ''t'' [] [] = (Inr x, t)
    \<and> (\<exists>d. minio_obj map_of t ''bronze'' ''a/b'' = Some d \<and> sha256_hex d = sha256_hex ''xyz'')"
proof -
  have md: "plain_metadata []" and s: "all_sealed map_of []" by (simp_all add: plain_metadata_def all_sealed_def)
  obtain x t where "minio_put_immutable mem_minio ''bronze'' ''a/b'' ''xyz'' (sha256_hex ''xyz'') ''t'' [] [] = (Inr x, t)"
    using mem_put by blast
  with minio_write_once [OF mem.s3_store_axioms s this md rtranclp.rtrancl_refl] show ?thesis by blast
qed

text \<open>
  C16. Object keys cannot escape their bucket: an accepted key is normal (validating it again
  gives it back), none of its segments is a parent reference, and the local file it names lies
  below the directory of its bucket.
\<close>

theorem object_key_confined:
  assumes "validate_object_key k = Inr key"
  shows "validate_object_key key = Inr key
    \<and> (\<forall>p \<in> set (split_on (CHR ''/'') key). p \<noteq> ''..'' \<and> (key \<noteq> ''.'' \<longrightarrow> p \<noteq> [] \<and> p \<noteq> ''.''))
    \<and> (\<forall>base. map_of roots b = Some base \<longrightarrow> (\<exists>segments. object_path roots b k = Inr (base @ segments)
         \<and> ''..'' \<notin> set segments \<and> (\<forall>p \<in> set segments. CHR ''/'' \<notin> set p)))"
proof -
  let ?ps = "posix_parts k"
  from assms have key: "key = as_posix ?ps" and dd: "''..'' \<notin> set ?ps"
    by (auto simp: validate_object_key_def split: if_splits)
  have clean: "\<forall>p \<in> set ?ps. p \<noteq> [] \<and> p \<noteq> ''.'' \<and> CHR ''/'' \<notin> set p" using posix_parts_clean by blast
  then have split: "split_on (CHR ''/'') key = (if ?ps = [] then [''.''] else ?ps)"
    by (simp add: key as_posix_def split_on_join)
  have "object_path roots b k = Inr (base @ ?ps)" if "map_of roots b = Some base" for base
    using that assms posix_parts_as_posix [of k] by (simp add: object_path_def bucket_root_def key)
  then show ?thesis
    using validate_object_key_idem [OF assms] clean dd split by (auto simp: key as_posix_def)
qed

theorem object_key_confined_witness:
  "validate_object_key ''cdc//a/./b.parquet'' = Inr ''cdc/a/b.parquet''
    \<and> validate_object_key ''cdc/a/b.parquet'' = Inr ''cdc/a/b.parquet''
    \<and> validate_object_key ''../x'' = Inl (Storage_Backend_Error
         ''Object key must not be absolute or contain traversal segments'')"
proof -
  have k: "validate_object_key ''cdc//a/./b.parquet'' = Inr ''cdc/a/b.parquet''" by code_simp
  moreover have "validate_object_key ''../x'' = Inl (Storage_Backend_Error
         ''Object key must not be absolute or contain traversal segments'')" by code_simp
  ultimately show ?thesis using object_key_confined [OF k, of "[]" "[]"] by blast
qed

lemma update_subset: "set (AList.update k v al) \<subseteq> insert (k, v) (set al)"
  by (induction al) auto

lemma set_py_strip: "set (py_strip s) \<subseteq> set s"
  unfolding py_strip_def by (metis set_dropWhileD set_rev subsetI)

text \<open>What a header value may be.\<close>

definition header_value :: "string \<Rightarrow> bool" where
  "header_value v \<longleftrightarrow> v \<noteq> [] \<and> length v \<le> 1024 \<and> CHR 0x0A \<notin> set v \<and> CHR 0x0D \<notin> set v"

lemma header_value_clean: "meta_clean v \<noteq> [] \<Longrightarrow> header_value (take 1024 (meta_clean v))"
proof -
  assume v: "meta_clean v \<noteq> []"
  have "CHR 0x0A \<notin> set (meta_clean v)" "CHR 0x0D \<notin> set (meta_clean v)"
    using set_py_strip unfolding meta_clean_def by (fastforce simp: replace_char_def)+
  with v show ?thesis by (auto simp: header_value_def dest: in_set_takeD)
qed

lemma sanitize_values: "(k, v) \<in> set (sanitize_metadata md) \<Longrightarrow> header_value v"
proof -
  have step: "\<forall>(k, v) \<in> set (sanitize_step acc kv). header_value v"
    if "\<forall>(k, v) \<in> set acc. header_value v" for acc kv
    using that header_value_clean [of "meta_text (snd kv)"]
      update_subset [of "meta_key (fst kv)" "take 1024 (meta_clean (meta_text (snd kv)))" acc]
    by (auto simp: sanitize_step_def Let_def)
  have "\<forall>(k, v) \<in> set (foldl sanitize_step acc md). header_value v"
    if "\<forall>(k, v) \<in> set acc. header_value v" for acc
    using that
  proof (induction md arbitrary: acc)
    case (Cons kv md)
    from Cons.IH [OF step [OF Cons.prems]] show ?case by simp
  qed simp
  from this [of "[]"] show "(k, v) \<in> set (sanitize_metadata md) \<Longrightarrow> header_value v"
    by (auto simp: sanitize_metadata_def)
qed

text \<open>
  C17. Metadata that reaches object headers is safe: only allow-listed fields, each once, with
  non-empty values of at most 1024 characters and no line break, whatever the caller passes; and
  the checksum header a backend writes always names the SHA-256 of the bytes it uploads.
\<close>

theorem sanitized_metadata_safe:
  assumes "plain_metadata md"
  shows "distinct (map fst (sanitize_metadata md'))
    \<and> (\<forall>(k, v) \<in> set (sanitize_metadata md').
         k \<in> set SAFE_METADATA_FIELDS \<and> v \<noteq> [] \<and> length v \<le> 1024 \<and> CHR 0x0A \<notin> set v \<and> CHR 0x0D \<notin> set v)
    \<and> map_of (normalize_minio_metadata (s3_prefix (minio_wire_metadata md (sha256_hex d)))) ''checksum_sha256''
        = Some (sha256_hex d)"
  using sanitize_keys [of md'] sanitize_values [of _ _ md'] wire_metadata_checksum [OF assms, of d]
  by (auto simp: header_value_def image_subset_iff)

theorem sanitized_metadata_safe_witness:
  "sanitize_metadata [('' Partition '', M_int 3), (''password'', M_str ''x'')] = [(''partition'', ''3'')]
    \<and> map_of (normalize_minio_metadata (s3_prefix (minio_wire_metadata [(''topic'', M_str ''t'')] (sha256_hex ''d''))))
        ''checksum_sha256'' = Some (sha256_hex ''d'')"
proof -
  have md: "plain_metadata [(''topic'', M_str ''t'')]" unfolding plain_metadata_def by code_simp
  have "sanitize_metadata [('' Partition '', M_int 3), (''password'', M_str ''x'')] = [(''partition'', ''3'')]"
    by code_simp
  with sanitized_metadata_safe [OF md, of "[]" "''d''"] show ?thesis by blast
qed

end
