(* ===== verification/Py_Json.thy ===== *)
theory Py_Json
  imports Py_Time
begin

text \<open>
  The parts of Python's standard library that the CDC and Silver parsers use on text: UTF-8
  validation, \<open>json.loads\<close> with \<open>parse_float=Decimal\<close>, \<open>json.dumps\<close> with sorted keys and compact
  separators, \<open>decimal.Decimal\<close> text, \<open>int()\<close> of text, and base64. A Python text is its UTF-8 bytes,
  so decoding is validation. The interpreter's recursion limit is not modelled.
\<close>

section \<open>UTF-8\<close>

definition cont_byte :: "char \<Rightarrow> bool" where
  "cont_byte c \<longleftrightarrow> 128 \<le> (of_char c :: nat) \<and> (of_char c :: nat) < 192"

fun utf8_valid :: "bytes \<Rightarrow> bool" where
  "utf8_valid [] = True"
| "utf8_valid (a # r) =
     (let n = of_char a :: nat in
      if n < 128 then utf8_valid r
      else if 194 \<le> n \<and> n \<le> 223
      then (case r of b # r1 \<Rightarrow> cont_byte b \<and> utf8_valid r1 | [] \<Rightarrow> False)
      else if 224 \<le> n \<and> n \<le> 239
      then (case r of b # c # r2 \<Rightarrow> cont_byte b \<and> cont_byte c
              \<and> (n = 224 \<longrightarrow> 160 \<le> (of_char b :: nat)) \<and> (n = 237 \<longrightarrow> (of_char b :: nat) < 160)
              \<and> utf8_valid r2 | _ \<Rightarrow> False)
      else if 240 \<le> n \<and> n \<le> 244
      then (case r of b # c # d # r3 \<Rightarrow> cont_byte b \<and> cont_byte c \<and> cont_byte d
              \<and> (n = 240 \<longrightarrow> 144 \<le> (of_char b :: nat)) \<and> (n = 244 \<longrightarrow> (of_char b :: nat) < 144)
              \<and> utf8_valid r3 | _ \<Rightarrow> False)
      else False)"

definition utf8_encode :: "nat \<Rightarrow> string" where
  "utf8_encode p =
     (if p < 128 then [char_of p]
      else if p < 2048 then [char_of (192 + p div 64), char_of (128 + p mod 64)]
      else if p < 65536
      then [char_of (224 + p div 4096), char_of (128 + p div 64 mod 64), char_of (128 + p mod 64)]
      else [char_of (240 + p div 262144), char_of (128 + p div 4096 mod 64),
            char_of (128 + p div 64 mod 64), char_of (128 + p mod 64)])"

section \<open>Decimal numbers\<close>

text \<open>A finite \<open>Decimal\<close>: sign, coefficient and exponent.\<close>

datatype decimal = Decimal (dec_neg: bool) (dec_coeff: nat) (dec_exp: int)

text \<open>\<open>Decimal.__str__\<close>: plain notation for exponents in \<open>-6 .. 0\<close> of the leading digit, else scientific.\<close>

definition decimal_str :: "decimal \<Rightarrow> string" where
  "decimal_str d =
     (let digits = show_nat (dec_coeff d); n = int (length digits); e = dec_exp d;
          leftdigits = e + n;
          dotplace = (if e \<le> 0 \<and> leftdigits > - 6 then leftdigits else 1);
          body = (if dotplace \<le> 0 then ''0.'' @ replicate (nat (- dotplace)) (CHR ''0'') @ digits
                  else if dotplace \<ge> n then digits @ replicate (nat (dotplace - n)) (CHR ''0'')
                  else take (nat dotplace) digits @ ''.'' @ drop (nat dotplace) digits);
          expo = (if leftdigits = dotplace then []
                  else ''E'' @ (if leftdigits - dotplace \<ge> 0 then ''+'' else []) @ show_int (leftdigits - dotplace))
      in (if dec_neg d then ''-'' else []) @ body @ expo)"

text \<open>
  The numbers \<open>Decimal(text)\<close> can hold exactly: the exponent of the leading digit and the last
  digit's place are bounded. Other texts raise \<open>InvalidOperation\<close>.
\<close>

definition decimal_limit :: int where
  "decimal_limit = 999999999999999999"

definition digit_count :: "nat \<Rightarrow> nat" where
  "digit_count n = length (show_nat n)"

text \<open>
  \<open>Decimal.quantize\<close> in the default context: the coefficient is scaled or rounded half to even,
  and more than 28 digits raise \<open>InvalidOperation\<close>.
\<close>

definition quantize :: "nat \<Rightarrow> decimal \<Rightarrow> decimal option" where
  "quantize scale d =
     (let shift = dec_exp d + int scale;
          c = (if dec_coeff d = 0 then 0
               else if 0 \<le> shift then dec_coeff d * 10 ^ nat shift
               else nat (half_even_div (int (dec_coeff d)) (10 ^ nat (- shift))))
      in if 28 < digit_count c then None else Some (Decimal (dec_neg d) c (- int scale)))"

definition decimal_in_range :: "decimal \<Rightarrow> bool" where
  "decimal_in_range d \<longleftrightarrow> dec_exp d + int (digit_count (dec_coeff d)) - 1 \<le> decimal_limit
     \<and> 1 - 2 * decimal_limit \<le> dec_exp d"

text \<open>\<open>int(Decimal)\<close> truncates towards zero.\<close>

definition decimal_int :: "decimal \<Rightarrow> int" where
  "decimal_int d =
     (let m = (if 0 \<le> dec_exp d then int (dec_coeff d) * 10 ^ nat (dec_exp d)
               else int (dec_coeff d div 10 ^ nat (- dec_exp d)))
      in if dec_neg d then - m else m)"

section \<open>JSON values\<close>

text \<open>\<open>JFloat\<close> holds one of the constants \<open>NaN\<close>, \<open>Infinity\<close> and \<open>-Infinity\<close>, the only floats.\<close>

datatype json =
    JNull
  | JBool bool
  | JInt int
  | JDecimal decimal
  | JFloat string
  | JString string
  | JArray "json list"
  | JObject "(string \<times> json) list"

fun jobject_get :: "json \<Rightarrow> string \<Rightarrow> json option" where
  "jobject_get (JObject kvs) k = map_of kvs k"
| "jobject_get _ k = None"

subsection \<open>Text to value\<close>

definition is_digit :: "char \<Rightarrow> bool" where
  "is_digit c \<longleftrightarrow> 48 \<le> (of_char c :: nat) \<and> (of_char c :: nat) \<le> 57"

definition digit_value :: "char \<Rightarrow> nat" where
  "digit_value c = of_char c - 48"

definition nat_of_digits :: "string \<Rightarrow> nat" where
  "nat_of_digits ds = foldl (\<lambda>a c. 10 * a + digit_value c) 0 ds"

definition json_space :: "char \<Rightarrow> bool" where
  "json_space c \<longleftrightarrow> c = CHR '' '' \<or> c = CHR 0x09 \<or> c = CHR 0x0A \<or> c = CHR 0x0D"

definition skip_space :: "string \<Rightarrow> string" where
  "skip_space = dropWhile json_space"

definition hex_value :: "char \<Rightarrow> nat option" where
  "hex_value c = (let n = of_char c :: nat in
     if 48 \<le> n \<and> n \<le> 57 then Some (n - 48)
     else if 97 \<le> n \<and> n \<le> 102 then Some (n - 87)
     else if 65 \<le> n \<and> n \<le> 70 then Some (n - 55) else None)"

fun hex4 :: "string \<Rightarrow> (nat \<times> string) option" where
  "hex4 (a # b # c # d # r) =
     (case (hex_value a, hex_value b, hex_value c, hex_value d) of
        (Some w, Some x, Some y, Some z) \<Rightarrow> Some (4096 * w + 256 * x + 16 * y + z, r)
      | _ \<Rightarrow> None)"
| "hex4 _ = None"

definition escape_char :: "char \<Rightarrow> char option" where
  "escape_char c =
     (if c = CHR 0x22 then Some (CHR 0x22) else if c = CHR 0x5C then Some (CHR 0x5C)
      else if c = CHR ''/'' then Some (CHR ''/'') else if c = CHR ''b'' then Some (CHR 0x08)
      else if c = CHR ''f'' then Some (CHR 0x0C) else if c = CHR ''n'' then Some (CHR 0x0A)
      else if c = CHR ''r'' then Some (CHR 0x0D) else if c = CHR ''t'' then Some (CHR 0x09) else None)"

definition json_error :: "'a result" where
  "json_error = Inl (Json_Decode_Error [])"

text \<open>The characters of a string literal after its opening quote; the fuel bounds its length.\<close>

fun scan_string :: "nat \<Rightarrow> string \<Rightarrow> (string \<times> string) result" where
  "scan_string 0 s = json_error"
| "scan_string (Suc n) [] = json_error"
| "scan_string (Suc n) (c # s) =
     (if c = CHR 0x22 then Inr ([], s)
      else if (of_char c :: nat) < 32 then json_error
      else if c \<noteq> CHR 0x5C then bindR (scan_string n s) (\<lambda>(t, r). Inr (c # t, r))
      else (case s of
          [] \<Rightarrow> json_error
        | e # s1 \<Rightarrow>
            if e = CHR ''u''
            then (case hex4 s1 of
                None \<Rightarrow> json_error
              | Some (hi, s2) \<Rightarrow>
                  let lone = bindR (scan_string n s2) (\<lambda>(t, r). Inr (utf8_encode hi @ t, r)) in
                  if 55296 \<le> hi \<and> hi \<le> 56319 \<and> take 2 s2 = [CHR 0x5C, CHR ''u'']
                  then (case hex4 (drop 2 s2) of
                      Some (lo, s3) \<Rightarrow>
                        if 56320 \<le> lo \<and> lo \<le> 57343
                        then bindR (scan_string n s3) (\<lambda>(t, r).
                               Inr (utf8_encode (65536 + (hi - 55296) * 1024 + (lo - 56320)) @ t, r))
                        else lone
                    | None \<Rightarrow> json_error)
                  else lone)
            else (case escape_char e of
                None \<Rightarrow> json_error
              | Some x \<Rightarrow> bindR (scan_string n s1) (\<lambda>(t, r). Inr (x # t, r)))))"

text \<open>
  A number: sign, integer part without leading zeros, fraction, exponent. Integers longer than
  4300 digits exceed the interpreter's conversion limit.
\<close>

definition scan_number :: "string \<Rightarrow> (json \<times> string) result" where
  "scan_number s0 =
     (let neg = (s0 \<noteq> [] \<and> hd s0 = CHR ''-''); s = (if neg then tl s0 else s0);
          whole = (if s \<noteq> [] \<and> hd s = CHR ''0'' then ''0'' else takeWhile is_digit s);
          s1 = drop (length whole) s;
          frac = (if s1 \<noteq> [] \<and> hd s1 = CHR ''.'' then takeWhile is_digit (tl s1) else []);
          s2 = (if frac = [] then s1 else drop (Suc (length frac)) s1);
          mark = (s2 \<noteq> [] \<and> (hd s2 = CHR ''e'' \<or> hd s2 = CHR ''E''));
          sgn = (if mark \<and> tl s2 \<noteq> [] \<and> (hd (tl s2) = CHR ''-'' \<or> hd (tl s2) = CHR ''+'') then [hd (tl s2)] else []);
          edigits = (if mark then takeWhile is_digit (drop (length sgn) (tl s2)) else []);
          s3 = (if edigits = [] then s2 else drop (Suc (length sgn + length edigits)) s2);
          e = (if edigits = [] then 0
               else if sgn = ''-'' then - int (nat_of_digits edigits) else int (nat_of_digits edigits))
      in if whole = [] then json_error
         else if frac = [] \<and> edigits = []
         then if 4300 < length whole then Inl (Value_Error ''Exceeds the limit for integer string conversion'')
              else Inr (JInt (if neg then - int (nat_of_digits whole) else int (nat_of_digits whole)), s3)
         else (let d = Decimal neg (nat_of_digits (whole @ frac)) (e - int (length frac)) in
               if decimal_in_range d then Inr (JDecimal d, s3) else Inl (Invalid_Operation [])))"

fun literal :: "(string \<times> json) list \<Rightarrow> string \<Rightarrow> (json \<times> string) option" where
  "literal [] s = None"
| "literal ((w, v) # ws) s = (if starts_with w s then Some (v, drop (length w) s) else literal ws s)"

definition json_words :: "(string \<times> json) list" where
  "json_words = [(''null'', JNull), (''true'', JBool True), (''false'', JBool False),
     (''NaN'', JFloat ''NaN''), (''Infinity'', JFloat ''Infinity''), (''-Infinity'', JFloat ''-Infinity'')]"

text \<open>Inserting a member: a repeated key keeps its place and takes the later value, as in a dict.\<close>

fun member :: "string \<Rightarrow> json \<Rightarrow> (string \<times> json) list \<Rightarrow> (string \<times> json) list" where
  "member k v [] = [(k, v)]"
| "member k v ((k', v') # kvs) = (if k = k' then (k, v) # kvs else (k', v') # member k v kvs)"

text \<open>The mutual recursion of \<open>json.scanner\<close>; the fuel bounds the number of calls.\<close>

fun scan_value :: "nat \<Rightarrow> string \<Rightarrow> (json \<times> string) result"
  and scan_items :: "nat \<Rightarrow> json list \<Rightarrow> string \<Rightarrow> (json \<times> string) result"
  and scan_members :: "nat \<Rightarrow> (string \<times> json) list \<Rightarrow> string \<Rightarrow> (json \<times> string) result" where
  "scan_value 0 s = json_error"
| "scan_value (Suc n) s =
     (case s of
        [] \<Rightarrow> json_error
      | c # r \<Rightarrow>
          if c = CHR 0x22 then bindR (scan_string (Suc (length r)) r) (\<lambda>(t, r1). Inr (JString t, r1))
          else if c = CHR ''{''
          then (let r1 = skip_space r in
                if r1 \<noteq> [] \<and> hd r1 = CHR ''}'' then Inr (JObject [], tl r1) else scan_members n [] r1)
          else if c = CHR ''[''
          then (let r1 = skip_space r in
                if r1 \<noteq> [] \<and> hd r1 = CHR '']'' then Inr (JArray [], tl r1) else scan_items n [] r1)
          else (case literal json_words s of Some x \<Rightarrow> Inr x | None \<Rightarrow> scan_number s))"
| "scan_items 0 acc s = json_error"
| "scan_items (Suc n) acc s =
     bindR (scan_value n s) (\<lambda>(v, r).
       case skip_space r of
         [] \<Rightarrow> json_error
       | c # r1 \<Rightarrow> if c = CHR '']'' then Inr (JArray (acc @ [v]), r1)
                  else if c = CHR '','' then scan_items n (acc @ [v]) (skip_space r1)
                  else json_error)"
| "scan_members 0 acc s = json_error"
| "scan_members (Suc n) acc s =
     (case s of
        [] \<Rightarrow> json_error
      | q # r0 \<Rightarrow>
          if q \<noteq> CHR 0x22 then json_error
          else bindR (scan_string (Suc (length r0)) r0) (\<lambda>(k, r1).
            case skip_space r1 of
              [] \<Rightarrow> json_error
            | c # r2 \<Rightarrow>
                if c \<noteq> CHR '':'' then json_error
                else bindR (scan_value n (skip_space r2)) (\<lambda>(v, r3).
                  case skip_space r3 of
                    [] \<Rightarrow> json_error
                  | d # r4 \<Rightarrow> if d = CHR ''}'' then Inr (JObject (member k v acc), r4)
                             else if d = CHR '','' then scan_members n (member k v acc) (skip_space r4)
                             else json_error)))"

text \<open>\<open>json.loads(text, parse_float=Decimal)\<close>, and on bytes that are first decoded as UTF-8.\<close>

definition json_loads_text :: "string \<Rightarrow> json result" where
  "json_loads_text s =
     bindR (scan_value (Suc (2 * length s)) (skip_space s)) (\<lambda>(v, r).
       if skip_space r = [] then Inr v else json_error)"

definition json_loads :: "bytes \<Rightarrow> json result" where
  "json_loads b = (if \<not> utf8_valid b then Inl (Unicode_Decode_Error []) else json_loads_text b)"

subsection \<open>Value to text\<close>

definition hex_lower :: "nat \<Rightarrow> char" where
  "hex_lower n = (if n < 10 then char_of (48 + n) else char_of (87 + n))"

definition escape_json :: "char \<Rightarrow> string" where
  "escape_json c =
     (if c = CHR 0x22 then [CHR 0x5C, CHR 0x22] else if c = CHR 0x5C then [CHR 0x5C, CHR 0x5C]
      else if c = CHR 0x0A then [CHR 0x5C, CHR ''n''] else if c = CHR 0x0D then [CHR 0x5C, CHR ''r'']
      else if c = CHR 0x09 then [CHR 0x5C, CHR ''t''] else if c = CHR 0x0C then [CHR 0x5C, CHR ''f'']
      else if c = CHR 0x08 then [CHR 0x5C, CHR ''b'']
      else if (of_char c :: nat) < 32
      then [CHR 0x5C, CHR ''u'', CHR ''0'', CHR ''0'', hex_lower (of_char c div 16), hex_lower (of_char c mod 16)]
      else [c])"

definition json_quote :: "string \<Rightarrow> string" where
  "json_quote s = CHR 0x22 # concat (map escape_json s) @ [CHR 0x22]"

text \<open>\<open>json.dumps(v, sort_keys=True, separators=(",", ":"), ensure_ascii=False)\<close>, decimals as text.\<close>

fun deterministic_json :: "json \<Rightarrow> string" where
  "deterministic_json JNull = ''null''"
| "deterministic_json (JBool b) = (if b then ''true'' else ''false'')"
| "deterministic_json (JInt i) = show_int i"
| "deterministic_json (JDecimal d) = json_quote (decimal_str d)"
| "deterministic_json (JFloat w) = w"
| "deterministic_json (JString s) = json_quote s"
| "deterministic_json (JArray vs) = ''['' @ join_with '','' (map deterministic_json vs) @ '']''"
| "deterministic_json (JObject kvs) =
     ''{'' @ join_with '','' (map (\<lambda>(k, t). json_quote k @ '':'' @ t)
        (sort_key fst (map (\<lambda>(k, v). (k, deterministic_json v)) kvs))) @ ''}''"

section \<open>Conversions of Python values\<close>

text \<open>\<open>int(text)\<close>: surrounding white space, a sign, digits with single underscores between them.\<close>

fun underscored_digits :: "string \<Rightarrow> bool" where
  "underscored_digits [] = False"
| "underscored_digits [c] = is_digit c"
| "underscored_digits (c # d # s) =
     (is_digit c \<and> (if d = CHR ''_'' then underscored_digits s else underscored_digits (d # s)))"

definition int_of_text :: "string \<Rightarrow> int result" where
  "int_of_text t =
     (let s = py_strip t; neg = (s \<noteq> [] \<and> hd s = CHR ''-'');
          body = (if s \<noteq> [] \<and> (hd s = CHR ''-'' \<or> hd s = CHR ''+'') then tl s else s);
          digits = filter (\<lambda>c. c \<noteq> CHR ''_'') body
      in if \<not> underscored_digits body \<or> 4300 < length digits
         then Inl (Value_Error (''invalid literal for int() with base 10: '' @ t))
         else Inr (if neg then - int (nat_of_digits digits) else int (nat_of_digits digits)))"

section \<open>Base64\<close>

definition b64_char :: "nat \<Rightarrow> char" where
  "b64_char n = (if n < 26 then char_of (65 + n) else if n < 52 then char_of (71 + n)
     else if n < 62 then char_of (n - 4) else if n = 62 then CHR ''+'' else CHR ''/'')"

fun b64encode :: "bytes \<Rightarrow> string" where
  "b64encode [] = []"
| "b64encode [a] = (let x = of_char a :: nat in [b64_char (x div 4), b64_char (x mod 4 * 16), CHR ''='', CHR ''=''])"
| "b64encode [a, b] = (let x = of_char a :: nat; y = of_char b :: nat in
     [b64_char (x div 4), b64_char (x mod 4 * 16 + y div 16), b64_char (y mod 16 * 4), CHR ''=''])"
| "b64encode (a # b # c # r) = (let x = of_char a :: nat; y = of_char b :: nat; z = of_char c :: nat in
     b64_char (x div 4) # b64_char (x mod 4 * 16 + y div 16) # b64_char (y mod 16 * 4 + z div 64)
       # b64_char (z mod 64) # b64encode r)"

text \<open>Decoding of one base64 digit and of a well-formed text.\<close>

definition b64_value :: "char \<Rightarrow> nat" where
  "b64_value c =
     (let n = of_char c :: nat in
      if 65 \<le> n \<and> n \<le> 90 then n - 65 else if 97 \<le> n \<and> n \<le> 122 then n - 71
      else if 48 \<le> n \<and> n \<le> 57 then n + 4 else if n = 43 then 62 else 63)"

fun b64decode :: "string \<Rightarrow> bytes" where
  "b64decode (a # b # c # d # r) =
     (let w = b64_value a; x = b64_value b; y = b64_value c; z = b64_value d;
          first = char_of (w * 4 + x div 16); second = char_of (x mod 16 * 16 + y div 4);
          third = char_of (y mod 4 * 64 + z)
      in if c = CHR ''='' then [first] else if d = CHR ''='' then [first, second]
         else first # second # third # b64decode r)"
| "b64decode _ = []"

text \<open>
  \<open>base64.b64decode(text, validate=True)\<close>: alphabet characters, then the padding that completes
  the last group; after complete groups CPython 3.11 and 3.12 ignore further padding.
\<close>

definition b64_alphabet :: "char \<Rightarrow> bool" where
  "b64_alphabet c \<longleftrightarrow> is_alnum c \<or> c = CHR ''+'' \<or> c = CHR ''/''"

definition b64decode_strict :: "string \<Rightarrow> bytes option" where
  "b64decode_strict s =
     (let body = takeWhile (\<lambda>c. c \<noteq> CHR ''='') s; n = length body; pad = drop n s in
      if \<not> list_all b64_alphabet body \<or> \<not> list_all (\<lambda>c. c = CHR ''='') pad then None
      else if n mod 4 = 0 then (if n = 0 \<and> pad \<noteq> [] then None else Some (b64decode body))
      else if n mod 4 = 1 \<or> length pad \<noteq> 4 - n mod 4 then None
      else Some (b64decode s))"

text \<open>\<open>int.from_bytes(raw, byteorder="big", signed=True)\<close>.\<close>

definition signed_int_of_bytes :: "bytes \<Rightarrow> int" where
  "signed_int_of_bytes raw =
     (let v = foldl (\<lambda>a c. 256 * a + int (of_char c)) 0 raw
      in if raw \<noteq> [] \<and> 128 \<le> (of_char (hd raw) :: nat) then v - 256 ^ length raw else v)"

section \<open>Decimal numbers from text\<close>

text \<open>
  \<open>Decimal(text)\<close>: \<open>None\<close> for \<open>InvalidOperation\<close>, \<open>Some None\<close> for an infinity or a NaN. Only ASCII
  digits are numbers here.
\<close>

definition special_decimal :: "string \<Rightarrow> bool" where
  "special_decimal s \<longleftrightarrow> (let l = to_lower s; t = (if take 1 l = ''s'' then drop 1 l else l) in
     l = ''inf'' \<or> l = ''infinity'' \<or> take 3 t = ''nan'' \<and> list_all is_digit (drop 3 t))"

definition decimal_exponent :: "string \<Rightarrow> int option" where
  "decimal_exponent s =
     (if s = [] then Some 0
      else if hd s \<noteq> CHR ''e'' \<and> hd s \<noteq> CHR ''E'' then None
      else (let r = tl s; body = (if take 1 r = ''-'' \<or> take 1 r = ''+'' then tl r else r) in
            if body = [] \<or> \<not> list_all is_digit body then None
            else Some (if take 1 r = ''-'' then - int (nat_of_digits body) else int (nat_of_digits body))))"

definition decimal_of_text :: "string \<Rightarrow> decimal option option" where
  "decimal_of_text text =
     (let s = filter (\<lambda>c. c \<noteq> CHR ''_'') (py_strip text); neg = (take 1 s = ''-'');
          r = (if take 1 s = ''-'' \<or> take 1 s = ''+'' then tl s else s);
          whole = takeWhile is_digit r; r1 = drop (length whole) r;
          frac = (if take 1 r1 = ''.'' then takeWhile is_digit (tl r1) else []);
          r2 = (if take 1 r1 = ''.'' then drop (length frac) (tl r1) else r1)
      in if special_decimal r then Some None
         else if whole @ frac = [] then None
         else (case decimal_exponent r2 of
             None \<Rightarrow> None
           | Some e \<Rightarrow>
               (let d = Decimal neg (nat_of_digits (whole @ frac)) (e - int (length frac)) in
                if decimal_in_range d then Some (Some d) else None)))"

section \<open>Exceptions of the JSON parser\<close>

fun json_exn :: "exn \<Rightarrow> bool" where
  "json_exn (Json_Decode_Error m) = True"
| "json_exn (Value_Error m) = True"
| "json_exn (Invalid_Operation m) = True"
| "json_exn e = False"

lemma raises_json_error [raises_rules]: "raises json_exn json_error"
  by (simp add: json_error_def)

lemma scan_string_raises [raises_rules]: "raises json_exn (scan_string n s)"
proof (induction n arbitrary: s)
  case (Suc n)
  then show ?case
    by (cases s; simp only: scan_string.simps Let_def) (intro raises_rules; simp)+
qed (simp add: json_error_def)

lemma scan_number_raises [raises_rules]: "raises json_exn (scan_number s)"
  unfolding scan_number_def Let_def by (intro raises_rules; simp add: json_error_def)

lemma scan_raises:
  "(\<forall>s. raises json_exn (scan_value n s)) \<and> (\<forall>vs s. raises json_exn (scan_items n vs s))
   \<and> (\<forall>kvs s. raises json_exn (scan_members n kvs s))"
proof (induction n)
  case (Suc n)
  then have [raises_rules]: "raises json_exn (scan_value n s)" "raises json_exn (scan_items n vs s)"
    "raises json_exn (scan_members n kvs s)" for s vs kvs by simp_all
  show ?case
    unfolding scan_value.simps scan_items.simps scan_members.simps Let_def
    by (intro conjI allI raises_rules)
qed (simp add: json_error_def)

lemma json_loads_text_raises [raises_rules]: "raises json_exn (json_loads_text s)"
  unfolding json_loads_text_def by (intro raises_rules scan_raises [THEN conjunct1, THEN spec])

section \<open>Base64 round trip\<close>

lemma b64_value_char: "n < 64 \<Longrightarrow> b64_value (b64_char n) = n"
  by (auto simp: b64_value_def b64_char_def Let_def)

lemma b64_char_not_pad: "n < 64 \<Longrightarrow> b64_char n \<noteq> CHR ''=''"
  by (auto simp: b64_char_def dest: arg_cong [where f = "of_char :: char \<Rightarrow> nat"])

lemma digit_pair:
  fixes a b k :: nat
  assumes "b < k"
  shows "(a * k + b) div k = a" "(a * k + b) mod k = b"
  using assms by simp_all

lemma digit_pair_bound:
  fixes a b k m :: nat
  assumes "b < k" and "a < m"
  shows "a * k + b < m * k"
proof -
  from assms have "a * k + b < (a + 1) * k" by simp
  also have "\<dots> \<le> m * k" using assms(2) by (intro mult_right_mono) auto
  finally show ?thesis .
qed

lemma b64_triple:
  fixes x y z :: nat
  assumes "x < 256" "y < 256" "z < 256"
  shows "x div 4 < 64" "x mod 4 * 16 + y div 16 < 64" "y mod 16 * 4 + z div 64 < 64" "z mod 64 < 64"
    "x mod 4 * 16 < 64" "y mod 16 * 4 < 64"
    "x div 4 * 4 + (x mod 4 * 16 + y div 16) div 16 = x"
    "(x mod 4 * 16 + y div 16) mod 16 * 16 + (y mod 16 * 4 + z div 64) div 4 = y"
    "(y mod 16 * 4 + z div 64) mod 4 * 64 + z mod 64 = z"
    "x div 4 * 4 + x mod 4 * 16 div 16 = x"
    "(x mod 4 * 16 + y div 16) mod 16 * 16 + y mod 16 * 4 div 4 = y"
proof -
  have b: "x div 4 < 64" "y div 16 < 16" "z div 64 < 4" using assms by auto
  show "x div 4 < 64" "z mod 64 < 64" "x mod 4 * 16 < 64" "y mod 16 * 4 < 64"
    using b by auto
  show "x mod 4 * 16 + y div 16 < 64" using digit_pair_bound [of "y div 16" 16 "x mod 4" 4] b by simp
  show "y mod 16 * 4 + z div 64 < 64" using digit_pair_bound [of "z div 64" 4 "y mod 16" 16] b by simp
  show "x div 4 * 4 + (x mod 4 * 16 + y div 16) div 16 = x" using b by (simp add: digit_pair)
  show "(x mod 4 * 16 + y div 16) mod 16 * 16 + (y mod 16 * 4 + z div 64) div 4 = y"
    using b by (simp only: digit_pair) simp
  show "(y mod 16 * 4 + z div 64) mod 4 * 64 + z mod 64 = z" using b by (simp only: digit_pair) simp
  show "x div 4 * 4 + x mod 4 * 16 div 16 = x" by simp
  show "(x mod 4 * 16 + y div 16) mod 16 * 16 + y mod 16 * 4 div 4 = y"
    using b by (simp only: digit_pair) simp
qed

lemma b64_round_trip: "b64decode (b64encode b) = b"
proof (induction b rule: b64encode.induct)
  case (4 a b c r)
  have "(of_char a :: nat) < 256" "(of_char b :: nat) < 256" "(of_char c :: nat) < 256" by simp_all
  note t = b64_triple [OF this]
  show ?case
    using 4 t by (simp add: Let_def b64_value_char b64_char_not_pad)
next
  case (2 a)
  have "(of_char a :: nat) < 256" by simp
  note t = b64_triple [OF this this this]
  show ?case using t by (simp add: Let_def b64_value_char b64_char_not_pad)
next
  case (3 a b)
  have "(of_char a :: nat) < 256" "(of_char b :: nat) < 256" by simp_all
  note t = b64_triple [OF this this(2)]
  show ?case using t by (simp add: Let_def b64_value_char b64_char_not_pad)
qed simp

section \<open>Decimal texts\<close>

lemma is_digit_digit_char: "m < 10 \<Longrightarrow> is_digit (digit_char m) \<and> digit_value (digit_char m) = m"
  by (simp add: is_digit_def digit_value_def)

lemma show_nat_digits: "c \<in> set (show_nat n) \<Longrightarrow> is_digit c"
proof (induction n rule: show_nat.induct)
  case (1 n)
  then show ?case
    using is_digit_digit_char [of "n mod 10"] is_digit_digit_char [of n]
    by (subst (asm) (2) show_nat.simps) (auto split: if_split_asm)
qed

lemma nat_of_digits_snoc: "nat_of_digits (s @ [c]) = 10 * nat_of_digits s + digit_value c"
  by (simp add: nat_of_digits_def)

lemma nat_of_show_nat [simp]: "nat_of_digits (show_nat n) = n"
proof (induction n rule: show_nat.induct)
  case (1 n)
  then show ?case
    using is_digit_digit_char [of "n mod 10"] is_digit_digit_char [of n]
    by (subst show_nat.simps) (auto simp: nat_of_digits_snoc, simp add: nat_of_digits_def)
qed

lemma show_nat_length: "n < 10 ^ Suc k \<Longrightarrow> length (show_nat n) \<le> Suc k"
proof (induction k arbitrary: n)
  case (Suc k)
  then have "n div 10 < 10 ^ Suc k" by (simp add: less_mult_imp_div_less)
  with Suc.IH show ?case by (subst show_nat.simps) auto
qed (subst show_nat.simps, simp)

lemma underscored_digits_all: "s \<noteq> [] \<Longrightarrow> \<forall>c\<in>set s. is_digit c \<Longrightarrow> underscored_digits s"
  by (induction s rule: underscored_digits.induct) (auto simp: is_digit_def)

lemma digit_plain: "is_digit c \<Longrightarrow> \<not> is_space c \<and> c \<noteq> CHR ''-'' \<and> c \<noteq> CHR ''+'' \<and> c \<noteq> CHR ''_''"
  by (auto simp: is_digit_def is_space_def Let_def)

lemma py_strip_plain: "s \<noteq> [] \<Longrightarrow> \<not> is_space (hd s) \<Longrightarrow> \<not> is_space (last s) \<Longrightarrow> py_strip s = s"
  using dropWhile_eq_self_iff [of is_space s] dropWhile_eq_self_iff [of is_space "rev s"] by (simp add: py_strip_def hd_rev)

lemma int_of_show_int:
  assumes "length (show_nat (nat \<bar>n\<bar>)) \<le> 4300"
  shows "int_of_text (show_int n) = Inr n"
proof -
  let ?d = "show_nat (nat \<bar>n\<bar>)"
  have digits: "\<forall>c\<in>set ?d. is_digit c" using show_nat_digits by blast
  then have plain: "filter (\<lambda>c. c \<noteq> CHR ''_'') ?d = ?d" using digit_plain by (simp add: filter_id_conv)
  have ends: "\<not> is_space (last ?d)" "\<not> is_space (hd ?d)" "hd ?d \<noteq> CHR ''-''" "hd ?d \<noteq> CHR ''+''"
    using digit_plain digits last_in_set [of ?d] hd_in_set [of ?d] by auto
  have u: "underscored_digits ?d" using underscored_digits_all digits by simp
  show ?thesis
  proof (cases "n < 0")
    case True
    then have "py_strip (show_int n) = CHR ''-'' # ?d"
      using ends by (subst py_strip_plain) (auto simp: show_int_def is_space_def)
    with True show ?thesis using assms plain u by (simp add: int_of_text_def Let_def)
  next
    case False
    then have "py_strip (show_int n) = ?d"
      using ends by (subst py_strip_plain) (auto simp: show_int_def)
    with False show ?thesis using assms plain u ends by (simp add: int_of_text_def Let_def)
  qed
qed
end
