(* ===== verification/Cdc_Storage.thy ===== *)
theory Cdc_Storage
  imports Cdc_Models Cdc_Retry Storage Py_Json
begin

text \<open>
  The object layout of the CDC consumer: \<open>ingestion/cdc_consumer/storage.py\<close> (Bronze batches),
  \<open>parquet.py\<close> (the rows handed to the Parquet writer) and \<open>dlq.py\<close> (poison evidence). The Parquet
  library is a parameter: a function from rows to the bytes it writes, or the error it raises.
\<close>

definition safe_value :: "string \<Rightarrow> string \<Rightarrow> string result" where
  "safe_value v name =
     (if safe_token 249 v then Inr v
      else Inl (Value_Error (name @ '' contains unsafe object-key characters'')))"

definition build_cdc_object_key :: "CdcBatch \<Rightarrow> string result" where
  "build_cdc_object_key b =
     bindR (safe_value (cb_entity_name b) ''entity_name'') (\<lambda>entity.
     bindR (safe_value (cb_topic b) ''topic'') (\<lambda>topic.
       Inr (''cdc/entity='' @ entity @ ''/event_date='' @ cb_event_date b @ ''/topic='' @ topic
            @ ''/partition='' @ show_int (cb_partition b)
            @ ''/offset_start='' @ show_int (cb_offset_start b) @ ''/offset_end='' @ show_int (cb_offset_end b)
            @ ''/batch_id='' @ cb_batch_id b @ ''.parquet'')))"

definition build_dlq_object_key :: "string \<Rightarrow> string \<Rightarrow> string \<Rightarrow> int \<Rightarrow> int \<Rightarrow> string \<Rightarrow> string result" where
  "build_dlq_object_key dlq_name grp topic part offset event_id =
     bindR (safe_value dlq_name ''dlq_name'') (\<lambda>dlq.
     bindR (safe_value grp ''consumer_group'') (\<lambda>g.
     bindR (safe_value topic ''topic'') (\<lambda>t.
       Inr (''cdc-dlq/dlq='' @ dlq @ ''/consumer_group='' @ g @ ''/topic='' @ t
            @ ''/partition='' @ show_int part @ ''/offset='' @ show_int offset
            @ ''/event_id='' @ event_id @ ''.json''))))"

section \<open>Parquet rows\<close>

text \<open>The columns of \<open>CDC_ARROW_SCHEMA\<close>: name, Arrow type, nullable.\<close>

definition CDC_ARROW_SCHEMA :: "(string \<times> string \<times> bool) list" where
  "CDC_ARROW_SCHEMA =
     [(''event_id'', ''string'', False), (''entity_name'', ''string'', False),
      (''operation'', ''string'', False), (''is_snapshot'', ''bool'', False),
      (''is_deleted'', ''bool'', False), (''is_tombstone'', ''bool'', False),
      (''event_key_json'', ''large_string'', True), (''before_json'', ''large_string'', True),
      (''after_json'', ''large_string'', True), (''source_metadata_json'', ''large_string'', True),
      (''source_lsn'', ''int64'', True), (''source_tx_id'', ''int64'', True),
      (''source_ts_ms'', ''int64'', True), (''connector_ts_ms'', ''int64'', True),
      (''kafka_topic'', ''string'', False), (''kafka_partition'', ''int32'', False),
      (''kafka_offset'', ''int64'', False), (''kafka_message_ts_ms'', ''int64'', True),
      (''ingested_at'', ''timestamp[us, tz=UTC]'', False), (''schema_version'', ''string'', False),
      (''raw_event_json'', ''large_string'', True)]"

record ParquetRow =
  pq_event_id :: string
  pq_entity_name :: string
  pq_operation :: string
  pq_is_snapshot :: bool
  pq_is_deleted :: bool
  pq_is_tombstone :: bool
  pq_event_key_json :: "string option"
  pq_before_json :: "string option"
  pq_after_json :: "string option"
  pq_source_metadata_json :: "string option"
  pq_source_lsn :: "int option"
  pq_source_tx_id :: "int option"
  pq_source_ts_ms :: "int option"
  pq_connector_ts_ms :: "int option"
  pq_kafka_topic :: string
  pq_kafka_partition :: int
  pq_kafka_offset :: int
  pq_kafka_message_ts_ms :: "int option"
  pq_ingested_at :: instant
  pq_schema_version :: string
  pq_raw_event_json :: "string option"

definition parquet_row :: "instant \<Rightarrow> BronzeEvent \<Rightarrow> ParquetRow" where
  "parquet_row t e =
     \<lparr>pq_event_id = be_event_id e, pq_entity_name = be_entity_name e, pq_operation = be_operation e,
      pq_is_snapshot = be_is_snapshot e, pq_is_deleted = be_is_deleted e,
      pq_is_tombstone = be_is_tombstone e, pq_event_key_json = be_event_key_json e,
      pq_before_json = be_before_json e, pq_after_json = be_after_json e,
      pq_source_metadata_json = be_source_metadata_json e, pq_source_lsn = be_source_lsn e,
      pq_source_tx_id = be_source_tx_id e, pq_source_ts_ms = be_source_ts_ms e,
      pq_connector_ts_ms = be_connector_ts_ms e, pq_kafka_topic = be_kafka_topic e,
      pq_kafka_partition = be_kafka_partition e, pq_kafka_offset = be_kafka_offset e,
      pq_kafka_message_ts_ms = be_kafka_message_ts_ms e, pq_ingested_at = t,
      pq_schema_version = be_schema_version e, pq_raw_event_json = be_raw_event_json e\<rparr>"

definition records_for_batch :: "CdcBatch \<Rightarrow> instant \<Rightarrow> ParquetRow list" where
  "records_for_batch b t = map (parquet_row t) (cb_events b)"

record SerializedParquet =
  sp_payload :: bytes
  sp_checksum_sha256 :: string
  sp_size_bytes :: int

type_synonym parquet_writer = "ParquetRow list \<Rightarrow> bytes result"

definition serialize_batch :: "parquet_writer \<Rightarrow> CdcBatch \<Rightarrow> instant \<Rightarrow> SerializedParquet result" where
  "serialize_batch writer b t =
     bindR (writer (records_for_batch b t)) (\<lambda>payload.
       Inr \<lparr>sp_payload = payload, sp_checksum_sha256 = sha256_hex payload,
            sp_size_bytes = int (length payload)\<rparr>)"

section \<open>Bronze objects\<close>

record 's CdcObjectStorage =
  os_backend :: "'s storage_backend"
  os_bronze_bucket :: string
  os_quarantine_bucket :: string

definition batch_metadata :: "CdcBatch \<Rightarrow> string \<Rightarrow> instant \<Rightarrow> metadata" where
  "batch_metadata b grp t =
     [(''source_name'', M_str ''postgresql-debezium-kafka''), (''artifact_type'', M_str ''cdc_bronze_parquet''),
      (''entity_name'', M_str (cb_entity_name b)), (''topic'', M_str (cb_topic b)),
      (''partition'', M_int (cb_partition b)), (''offset_start'', M_int (cb_offset_start b)),
      (''offset_end'', M_int (cb_offset_end b)), (''record_count'', M_int (record_count b)),
      (''schema_version'', M_str (cb_schema_version b)), (''consumer_group'', M_str grp),
      (''ingested_at'', M_str (utc_isoformat t)), (''contains_snapshot'', M_bool (contains_snapshot b)),
      (''contains_delete'', M_bool (contains_delete b)), (''contains_tombstone'', M_bool (contains_tombstone b))]"

definition verify_stored :: "StoredObject \<Rightarrow> string \<Rightarrow> int option \<Rightarrow> unit result" where
  "verify_stored x checksum expected_size =
     (if so_checksum_sha256 x \<noteq> checksum
      then Inl (Runtime_Error ''CDC Bronze object failed checksum verification'')
      else if (case expected_size of None \<Rightarrow> False | Some n \<Rightarrow> so_size_bytes x \<noteq> n)
      then Inl (Runtime_Error ''CDC Bronze object failed size verification'')
      else Inr ())"

definition put_batch :: "'s CdcObjectStorage \<Rightarrow> CdcBatch \<Rightarrow> SerializedParquet \<Rightarrow> string \<Rightarrow> instant
    \<Rightarrow> ('s, StoredObject) eff" where
  "put_batch S b serialized grp t =
     bindE (liftE (build_cdc_object_key b)) (\<lambda>key.
     bindE (sb_put_immutable (os_backend S) (os_bronze_bucket S) key (sp_payload serialized)
              (sp_checksum_sha256 serialized) ''application/vnd.apache.parquet'' (batch_metadata b grp t))
       (\<lambda>stored.
          seqE (liftE (verify_stored stored (sp_checksum_sha256 serialized) (Some (sp_size_bytes serialized))))
            (returnE stored)))"

definition stat_batch :: "'s CdcObjectStorage \<Rightarrow> CdcBatch \<Rightarrow> ('s, StoredObject option) eff" where
  "stat_batch S b =
     bindE (liftE (build_cdc_object_key b)) (\<lambda>key. sb_stat (os_backend S) (os_bronze_bucket S) key)"

definition verify_batch :: "'s CdcObjectStorage \<Rightarrow> CdcBatch \<Rightarrow> string \<Rightarrow> string option
    \<Rightarrow> ('s, StoredObject) eff" where
  "verify_batch S b checksum expected_uri =
     bindE (stat_batch S b) (\<lambda>stored. case stored of
       None \<Rightarrow> raiseE (Runtime_Error ''Manifest references a missing CDC Bronze object'')
     | Some x \<Rightarrow>
         if expected_uri \<noteq> None \<and> Some (so_uri x) \<noteq> expected_uri
         then raiseE (Runtime_Error ''CDC Bronze object URI differs from manifest evidence'')
         else seqE (liftE (verify_stored x checksum None)) (returnE x))"

section \<open>The dead-letter quarantine\<close>

definition option_json :: "string option \<Rightarrow> json" where
  "option_json v = (case v of None \<Rightarrow> JNull | Some s \<Rightarrow> JString s)"

definition poison_dict :: "PoisonEvent \<Rightarrow> string \<Rightarrow> json" where
  "poison_dict e grp = JObject
     [(''event_id'', JString (pe_event_id e)), (''error_code'', JString (pe_error_code e)),
      (''error_message'', JString (pe_error_message e)), (''original_topic'', JString (pe_original_topic e)),
      (''original_partition'', JInt (pe_original_partition e)), (''original_offset'', JInt (pe_original_offset e)),
      (''original_key'', option_json (pe_original_key e)), (''raw_value'', option_json (pe_raw_value e)),
      (''value_encoding'', JString (pe_encoding e)), (''failed_at'', JString (utc_isoformat (pe_failed_at e))),
      (''consumer_group'', JString grp), (''retry_count'', JInt (pe_retry_count e))]"

record DlqResult =
  dr_object_uri :: string
  dr_checksum_sha256 :: string
  dr_already_exists :: bool

record 's MinioQuarantineDlq =
  dq_storage :: "'s CdcObjectStorage"
  dq_dlq_name :: string
  dq_consumer_group :: string
  dq_retry_policy :: RetryPolicy

definition dlq_metadata :: "PoisonEvent \<Rightarrow> string \<Rightarrow> string \<Rightarrow> metadata" where
  "dlq_metadata e dlq_name grp =
     [(''source_name'', M_str ''kafka-cdc-consumer''), (''artifact_type'', M_str ''cdc_poison_record''),
      (''consumer_group'', M_str grp), (''dlq_topic'', M_str dlq_name),
      (''topic'', M_str (pe_original_topic e)), (''partition'', M_int (pe_original_partition e)),
      (''kafka_offset'', M_int (pe_original_offset e)), (''error_code'', M_str (pe_error_code e))]"

definition poison_bytes :: "PoisonEvent \<Rightarrow> string \<Rightarrow> bytes" where
  "poison_bytes e grp = deterministic_json (poison_dict e grp) @ [CHR 0x0A]"

definition poison_key :: "'s MinioQuarantineDlq \<Rightarrow> PoisonEvent \<Rightarrow> string result" where
  "poison_key D e = build_dlq_object_key (dq_dlq_name D) (dq_consumer_group D) (pe_original_topic e)
     (pe_original_partition e) (pe_original_offset e) (pe_event_id e)"

definition dlq_write :: "'s MinioQuarantineDlq \<Rightarrow> (rat \<Rightarrow> ('s, unit) eff) \<Rightarrow> PoisonEvent \<Rightarrow> ('s, DlqResult) eff" where
  "dlq_write D sleeper e =
     bindE (liftE (poison_key D e)) (\<lambda>key.
     bindE (retry_call (dq_retry_policy D) is_retryable sleeper
              (sb_put_bytes_immutable (os_backend (dq_storage D)) (os_quarantine_bucket (dq_storage D)) key
                 (poison_bytes e (dq_consumer_group D)) ''application/json''
                 (dlq_metadata e (dq_dlq_name D) (dq_consumer_group D))))
       (\<lambda>stored. returnE \<lparr>dr_object_uri = so_uri stored, dr_checksum_sha256 = so_checksum_sha256 stored,
                          dr_already_exists = so_already_exists stored\<rparr>))"

section \<open>Uses of the backend\<close>

lemma plain_batch_metadata [simp]: "plain_metadata (batch_metadata b grp t)"
  by (rule plain_metadata_safe) (simp_all add: batch_metadata_def SAFE_METADATA_FIELDS_def)

lemma plain_dlq_metadata [simp]: "plain_metadata (dlq_metadata e dlq grp)"
  by (rule plain_metadata_safe) (simp_all add: dlq_metadata_def SAFE_METADATA_FIELDS_def)

lemma verify_stored_ok:
  "verify_stored x c n = Inr u \<longleftrightarrow> so_checksum_sha256 x = c \<and> (\<forall>m. n = Some m \<longrightarrow> so_size_bytes x = m)"
  by (auto simp: verify_stored_def split: option.splits)

context immutable_backend
begin

lemma keeps_refl: "ok s \<Longrightarrow> store_keeps ok obj s s"
  by (simp add: store_keeps_def)

lemma keeps_trans: "store_keeps ok obj a b \<Longrightarrow> store_keeps ok obj b c \<Longrightarrow> store_keeps ok obj a c"
  by (simp add: store_keeps_def)

text \<open>The object of a batch has the given hash.\<close>

definition batch_hash :: "'s CdcObjectStorage \<Rightarrow> CdcBatch \<Rightarrow> string \<Rightarrow> 's \<Rightarrow> bool" where
  "batch_hash S b c s \<longleftrightarrow> (\<exists>key d. build_cdc_object_key b = Inr key
     \<and> obj s (os_bronze_bucket S) key = Some d \<and> sha256_hex d = c)"

lemma batch_hash_keeps: "batch_hash S b c s \<Longrightarrow> store_keeps ok obj s t \<Longrightarrow> batch_hash S b c t"
  by (auto simp: batch_hash_def store_keeps_def)

lemma wp_stat_batch:
  assumes "os_backend S = B" and "ok s"
  shows "wp (stat_batch S b) (\<lambda>r t. store_keeps ok obj s t
      \<and> (\<forall>x. r = Some x \<longrightarrow> batch_hash S b (so_checksum_sha256 x) t)) (\<lambda>_ t. store_keeps ok obj s t) s"
proof (cases "build_cdc_object_key b")
  case (Inr key)
  show ?thesis
    unfolding stat_batch_def Inr assms(1) wp_bindE wp_liftE sum.case
    by (rule wp_mono [OF stat_law [OF assms(2)]]) (auto simp: batch_hash_def describes_def Inr)
qed (simp add: stat_batch_def wp_rules keeps_refl assms)

lemma wp_verify_batch:
  assumes "os_backend S = B" and "ok s"
  shows "wp (verify_batch S b c (Some uri)) (\<lambda>x t. store_keeps ok obj s t \<and> batch_hash S b c t)
      (\<lambda>_ t. store_keeps ok obj s t) s"
  unfolding verify_batch_def wp_bindE
  by (rule wp_mono [OF wp_stat_batch [OF assms]])
    (auto simp: wp_rules verify_stored_def split: option.splits sum.splits if_splits)

lemma wp_put_batch:
  assumes "os_backend S = B" and "ok s"
  shows "wp (put_batch S b ser grp t) (\<lambda>x u. store_keeps ok obj s u \<and> batch_hash S b (sp_checksum_sha256 ser) u)
      (\<lambda>_ u. store_keeps ok obj s u) s"
proof (cases "build_cdc_object_key b")
  case (Inr key)
  have "wp (sb_put_immutable B (os_bronze_bucket S) key (sp_payload ser) (sp_checksum_sha256 ser)
      ''application/vnd.apache.parquet'' (batch_metadata b grp t))
      (\<lambda>x u. store_keeps ok obj s u \<and> batch_hash S b (sp_checksum_sha256 ser) u) (\<lambda>_ u. store_keeps ok obj s u) s"
    by (rule wp_mono [OF put_law [OF assms(2) plain_batch_metadata]])
      (auto simp: batch_hash_def describes_def Inr)
  then show ?thesis
    unfolding put_batch_def Inr assms(1) wp_rules sum.case
    by (rule wp_mono) (auto split: sum.splits)
qed (simp add: put_batch_def wp_rules keeps_refl assms)

end

end
