(* ===== verification/Cdc_Recovery.thy ===== *)
theory Cdc_Recovery
  imports Cdc_Manifest Cdc_Storage
begin

text \<open>
  \<open>ingestion/cdc_consumer/recovery.py\<close>: the upload-before-commit protocol. The world of the
  processor is the manifest database, the object store (of any backend), the Kafka group
  coordinator and the delays slept between retries. Every component may fail at every call, so a
  run whose calls fail from some point on has the effects of a crash at that point. The Kafka
  client is a parameter; \<open>kafka_offsets\<close> states what a synchronous offset commit does, including
  commits whose acknowledgement is lost.
\<close>

record ('st, 'k) cdc_world =
  w_db :: manifest_db
  w_store :: 'st
  w_kafka :: 'k
  w_slept :: "rat list"

definition on_db :: "(manifest_db, 'a) eff \<Rightarrow> (('st, 'k) cdc_world, 'a) eff" where
  "on_db m w = (case m (w_db w) of (r, d) \<Rightarrow> (r, w\<lparr>w_db := d\<rparr>))"

definition on_store :: "('st, 'a) eff \<Rightarrow> (('st, 'k) cdc_world, 'a) eff" where
  "on_store m w = (case m (w_store w) of (r, s) \<Rightarrow> (r, w\<lparr>w_store := s\<rparr>))"

definition on_kafka :: "('k, 'a) eff \<Rightarrow> (('st, 'k) cdc_world, 'a) eff" where
  "on_kafka m w = (case m (w_kafka w) of (r, k) \<Rightarrow> (r, w\<lparr>w_kafka := k\<rparr>))"

definition sleep :: "rat \<Rightarrow> (('st, 'k) cdc_world, unit) eff" where
  "sleep d = modifyE (\<lambda>w. w\<lparr>w_slept := w_slept w @ [d]\<rparr>)"

text \<open>
  The synchronous commit of one offset by the client: it raises \<open>KafkaException\<close> or returns the
  list of per-partition error flags (or nothing).
\<close>

type_synonym 'k offset_client = "TopicPartitionKey \<Rightarrow> int \<Rightarrow> 'k \<Rightarrow> (string + bool list option) \<times> 'k"

definition kafka_commit :: "'k offset_client \<Rightarrow> TopicPartitionKey \<Rightarrow> int \<Rightarrow> ('k, unit) eff" where
  "kafka_commit client tp next k =
     (case client tp next k of
        (Inl _, k') \<Rightarrow> (Inl (Connection_Error ''Synchronous Kafka offset commit failed''), k')
      | (Inr r, k') \<Rightarrow>
          if list_ex (\<lambda>e. e) (case r of None \<Rightarrow> [] | Some es \<Rightarrow> es)
          then (Inl (Connection_Error ''Kafka rejected a partition offset commit''), k')
          else (Inr (), k'))"

record ('st, 'k) CdcBatchProcessor =
  bp_storage :: "'st CdcObjectStorage"
  bp_committer :: "'k offset_client"
  bp_consumer_group :: string
  bp_writer :: parquet_writer
  bp_retry_policy :: RetryPolicy

record BatchProcessResult =
  br_batch_id :: string
  br_object_uri :: string
  br_checksum_sha256 :: string
  br_committed_offset :: int
  br_replayed :: bool

definition retrying :: "('st, 'k) CdcBatchProcessor \<Rightarrow> (('st, 'k) cdc_world, 'a) eff
    \<Rightarrow> (('st, 'k) cdc_world, 'a) eff" where
  "retrying P m = retry_call (bp_retry_policy P) is_retryable sleep m"

definition commit_batch :: "('st, 'k) CdcBatchProcessor \<Rightarrow> CdcBatch \<Rightarrow> (('st, 'k) cdc_world, unit) eff" where
  "commit_batch P b =
     retrying P (on_kafka (kafka_commit (bp_committer P) (batch_topic_partition b) (next_offset b)))"

text \<open>The \<open>ingested_at\<close> text of an object, when there is a non-empty one.\<close>

definition first_ingestion :: "StoredObject option \<Rightarrow> string option" where
  "first_ingestion st = (case st of None \<Rightarrow> None | Some x \<Rightarrow>
     (case map_of (so_metadata x) ''ingested_at'' of None \<Rightarrow> None
      | Some t \<Rightarrow> if t = [] then None else Some t))"

definition stable_ingested_at :: "StoredObject option \<Rightarrow> instant \<Rightarrow> instant result" where
  "stable_ingested_at st created =
     (case first_ingestion st of None \<Rightarrow> Inr created | Some text \<Rightarrow> parse_utc text)"

definition publish :: "('st, 'k) CdcBatchProcessor \<Rightarrow> CdcBatch \<Rightarrow> SerializedParquet \<Rightarrow> instant
    \<Rightarrow> (('st, 'k) cdc_world, SerializedParquet \<times> StoredObject) eff" where
  "publish P b ser t =
     bindE (retrying P (on_store (put_batch (bp_storage P) b ser (bp_consumer_group P) t)))
       (\<lambda>stored. returnE (ser, stored))"

text \<open>The \<open>except ImmutableCollisionError\<close> branch: rebuild once with the winner's timestamp.\<close>

definition republish :: "('st, 'k) CdcBatchProcessor \<Rightarrow> CdcBatch \<Rightarrow> exn
    \<Rightarrow> (('st, 'k) cdc_world, SerializedParquet \<times> StoredObject) eff" where
  "republish P b e =
     bindE (on_store (stat_batch (bp_storage P) b)) (\<lambda>winner.
       case first_ingestion winner of
         None \<Rightarrow> raiseE e
       | Some text \<Rightarrow>
           bindE (liftE (parse_utc text)) (\<lambda>t.
           bindE (liftE (serialize_batch (bp_writer P) b t)) (\<lambda>ser. publish P b ser t)))"

text \<open>The body of the \<open>try\<close> block: serialise, upload, record the evidence.\<close>

definition upload_batch :: "('st, 'k) CdcBatchProcessor \<Rightarrow> CdcBatch
    \<Rightarrow> (('st, 'k) cdc_world, BatchManifestRecord) eff" where
  "upload_batch P b =
     seqE (retrying P (on_db (mark_serializing (cb_batch_id b))))
     (bindE (on_db (get_record (cb_batch_id b))) (\<lambda>stable. case stable of
        None \<Rightarrow> raiseE (Runtime_Error ''Manifest record disappeared during serialization'')
      | Some record \<Rightarrow>
          bindE (retrying P (on_store (stat_batch (bp_storage P) b))) (\<lambda>existing.
          bindE (liftE (stable_ingested_at existing (mr_created_at record))) (\<lambda>t.
          bindE (liftE (serialize_batch (bp_writer P) b t)) (\<lambda>ser.
          seqE (retrying P (on_db (mark_uploading (cb_batch_id b))))
          (bindE (catchE (publish P b ser t)
                   (\<lambda>e. case e of Immutable_Collision_Error _ \<Rightarrow> republish P b e | _ \<Rightarrow> raiseE e))
             (\<lambda>(ser', stored).
                retrying P (on_db (mark_uploaded (cb_batch_id b) (sp_checksum_sha256 ser') (so_uri stored)))))))))) "

text \<open>The \<open>except Exception\<close> clause around the upload.\<close>

definition note_upload_failure :: "CdcBatch \<Rightarrow> exn \<Rightarrow> (('st, 'k) cdc_world, 'a) eff" where
  "note_upload_failure b e =
     bindE (on_db (get_record (cb_batch_id b))) (\<lambda>current.
       seqE (case current of
               None \<Rightarrow> returnE ()
             | Some r \<Rightarrow> if mr_status r \<in> {UPLOADED, COMMITTED} then returnE ()
                         else seqE (on_db (mark_failed (cb_batch_id b) (exn_name e) (exn_message e))) (returnE ()))
         (raiseE e))"

text \<open>A batch whose manifest row already carries durable evidence.\<close>

definition replay_batch :: "('st, 'k) CdcBatchProcessor \<Rightarrow> CdcBatch \<Rightarrow> BatchManifestRecord
    \<Rightarrow> (('st, 'k) cdc_world, BatchProcessResult) eff" where
  "replay_batch P b record =
     (case (mr_checksum_sha256 record, mr_object_uri record) of
        (Some checksum, Some uri) \<Rightarrow>
          seqE (retrying P (on_store (verify_batch (bp_storage P) b checksum (Some uri))))
          (seqE (commit_batch P b)
          (seqE (if mr_status record = UPLOADED then seqE (on_db (mark_committed (cb_batch_id b))) (returnE ())
                 else returnE ())
            (returnE \<lparr>br_batch_id = cb_batch_id b, br_object_uri = uri, br_checksum_sha256 = checksum,
                      br_committed_offset = next_offset b, br_replayed = True\<rparr>)))
      | _ \<Rightarrow> raiseE (Runtime_Error ''Uploaded manifest record lacks durable object evidence''))"

definition commit_uploaded :: "('st, 'k) CdcBatchProcessor \<Rightarrow> CdcBatch
    \<Rightarrow> (('st, 'k) cdc_world, BatchProcessResult) eff" where
  "commit_uploaded P b =
     bindE (on_db (get_record (cb_batch_id b))) (\<lambda>uploaded.
       case uploaded of
         Some r \<Rightarrow>
           (case (mr_status r, mr_object_uri r, mr_checksum_sha256 r) of
              (UPLOADED, Some uri, Some checksum) \<Rightarrow>
                seqE (catchE (commit_batch P b)
                        (\<lambda>e. seqE (on_db (note_retryable_error (cb_batch_id b) ''KAFKA_COMMIT_FAILED'' (exn_message e)))
                               (raiseE e)))
                (seqE (retrying P (on_db (mark_committed (cb_batch_id b))))
                  (returnE \<lparr>br_batch_id = cb_batch_id b, br_object_uri = uri, br_checksum_sha256 = checksum,
                            br_committed_offset = next_offset b, br_replayed = False\<rparr>))
            | _ \<Rightarrow> raiseE (Runtime_Error ''Manifest did not confirm an uploaded CDC batch''))
       | None \<Rightarrow> raiseE (Runtime_Error ''Manifest did not confirm an uploaded CDC batch''))"

definition process_batch :: "('st, 'k) CdcBatchProcessor \<Rightarrow> CdcBatch
    \<Rightarrow> (('st, 'k) cdc_world, BatchProcessResult) eff" where
  "process_batch P b =
     bindE (retrying P (on_db (register_batch b (bp_consumer_group P)))) (\<lambda>record.
       if mr_status record \<in> {UPLOADED, COMMITTED} then replay_batch P b record
       else seqE (catchE (upload_batch P b) (note_upload_failure b))
              (commit_uploaded P b))"

definition reconcile_record :: "((string \<times> int) \<times> int) list \<Rightarrow> BatchManifestRecord
    \<Rightarrow> (manifest_db, int) eff" where
  "reconcile_record offsets r =
     (let kafka_next = (case map_of offsets (mr_topic r, mr_partition r) of None \<Rightarrow> - 1 | Some n \<Rightarrow> n) in
      if mr_status r = UPLOADED \<and> mr_offset_end r + 1 \<le> kafka_next
      then seqE (mark_committed (mr_batch_id r)) (returnE 1) else returnE 0)"

fun reconcile_records :: "((string \<times> int) \<times> int) list \<Rightarrow> BatchManifestRecord list \<Rightarrow> (manifest_db, int) eff" where
  "reconcile_records offsets [] = returnE 0"
| "reconcile_records offsets (r # rs) =
     bindE (reconcile_record offsets r) (\<lambda>n. bindE (reconcile_records offsets rs) (\<lambda>m. returnE (n + m)))"

definition reconcile_committed_offsets :: "string \<Rightarrow> ((string \<times> int) \<times> int) list \<Rightarrow> (manifest_db, int) eff" where
  "reconcile_committed_offsets grp offsets = bindE (recoverable grp) (reconcile_records offsets)"

section \<open>Rules\<close>

lemma wp_on_db [wp_rules]: "wp (on_db m) Q E w = wp m (\<lambda>x d. Q x (w\<lparr>w_db := d\<rparr>)) (\<lambda>e d. E e (w\<lparr>w_db := d\<rparr>)) (w_db w)"
  by (auto simp: wp_def on_db_def split: prod.splits sum.splits)

lemma wp_on_store [wp_rules]:
  "wp (on_store m) Q E w = wp m (\<lambda>x s. Q x (w\<lparr>w_store := s\<rparr>)) (\<lambda>e s. E e (w\<lparr>w_store := s\<rparr>)) (w_store w)"
  by (auto simp: wp_def on_store_def split: prod.splits sum.splits)

lemma wp_on_kafka [wp_rules]:
  "wp (on_kafka m) Q E w = wp m (\<lambda>x k. Q x (w\<lparr>w_kafka := k\<rparr>)) (\<lambda>e k. E e (w\<lparr>w_kafka := k\<rparr>)) (w_kafka w)"
  by (auto simp: wp_def on_kafka_def split: prod.splits sum.splits)

lemma wp_sleep [wp_rules]: "wp (sleep d) Q E w = Q () (w\<lparr>w_slept := w_slept w @ [d]\<rparr>)"
  by (simp add: sleep_def wp_rules)

text \<open>
  The Kafka coordinator: a commit moves only its own partition, and only to the given offset;
  one that reports success has moved it. A failed commit may still have been applied.
\<close>

locale kafka_offsets =
  fixes client :: "'k offset_client"
    and offsets :: "'k \<Rightarrow> TopicPartitionKey \<Rightarrow> int option"
  assumes commit_frame: "client tp n k = (q, k') \<Longrightarrow>
      offsets k' = offsets k \<or> offsets k' = (offsets k)(tp \<mapsto> n)"
    and commit_success: "client tp n k = (Inr r, k') \<Longrightarrow>
      \<not> list_ex (\<lambda>e. e) (case r of None \<Rightarrow> [] | Some es \<Rightarrow> es) \<Longrightarrow> offsets k' = (offsets k)(tp \<mapsto> n)"
begin

lemma wp_kafka_commit:
  "wp (kafka_commit client tp n) (\<lambda>_ k'. offsets k' = (offsets k)(tp \<mapsto> n))
     (\<lambda>_ k'. offsets k' = offsets k \<or> offsets k' = (offsets k)(tp \<mapsto> n)) k"
proof (cases "client tp n k")
  case (Pair q k')
  with commit_frame [OF Pair] commit_success [of tp n k _ k'] show ?thesis
    by (cases q) (auto simp: wp_def kafka_commit_def)
qed

end

locale batch_protocol =
  immutable_backend "os_backend (bp_storage P)" ok obj + kafka_offsets "bp_committer P" offsets
  for P :: "('st, 'k) CdcBatchProcessor" and ok obj offsets +
  assumes policy: "wf_policy (bp_retry_policy P)"
begin

text \<open>Manifest and store have only grown since the world \<open>w0\<close>; the offsets are untouched.\<close>

definition follows :: "('st, 'k) cdc_world \<Rightarrow> ('st, 'k) cdc_world \<Rightarrow> bool" where
  "follows w0 w \<longleftrightarrow> manifest_keeps (md_rows (w_db w0)) (w_db w) \<and> store_keeps ok obj (w_store w0) (w_store w)"

definition calm :: "('st, 'k) cdc_world \<Rightarrow> ('st, 'k) cdc_world \<Rightarrow> bool" where
  "calm w0 w \<longleftrightarrow> follows w0 w \<and> offsets (w_kafka w) = offsets (w_kafka w0)"

definition sound :: "('st, 'k) cdc_world \<Rightarrow> bool" where
  "sound w \<longleftrightarrow> manifest_inv (md_rows (w_db w)) \<and> ok (w_store w)"

lemma follows_sound: "follows w0 w \<Longrightarrow> sound w"
  by (simp add: follows_def sound_def manifest_keeps_def store_keeps_def)

lemma follows_refl: "sound w \<Longrightarrow> follows w w"
  by (simp add: follows_def sound_def manifest_keeps_def store_keeps_def)

lemma follows_trans: "follows a b \<Longrightarrow> follows b c \<Longrightarrow> follows a c"
  unfolding follows_def manifest_keeps_def using evolves_trans keeps_trans by blast

lemma calm_trans: "calm a b \<Longrightarrow> calm b c \<Longrightarrow> calm a c"
  using follows_trans by (auto simp: calm_def)

lemma calm_refl: "sound w \<Longrightarrow> calm w w"
  by (simp add: calm_def follows_refl)

lemma calm_db:
  assumes "calm w0 w" and "preserves (manifest_keeps (md_rows (w_db w0))) m"
    and "\<And>x d. m (w_db w) = (Inr x, d) \<Longrightarrow> manifest_inv (md_rows d) \<Longrightarrow> Q x (w\<lparr>w_db := d\<rparr>)"
  shows "wp (on_db m) (\<lambda>x v. calm w0 v \<and> Q x v) (\<lambda>_ v. calm w0 v) w"
proof -
  have k: "manifest_keeps (md_rows (w_db w0)) (snd (m (w_db w)))"
    using preservesD [OF assms(2)] assms(1) by (simp add: calm_def follows_def)
  then have "calm w0 (w\<lparr>w_db := snd (m (w_db w))\<rparr>)" using assms(1) by (simp add: calm_def follows_def)
  with k assms(3) [of _ "snd (m (w_db w))"] show ?thesis
    by (cases "m (w_db w)") (auto simp: wp_def on_db_def manifest_keeps_def split: sum.splits)
qed

lemma calm_store:
  assumes "calm w0 w"
    and "wp m (\<lambda>x s. store_keeps ok obj (w_store w) s \<and> R x s) (\<lambda>_ s. store_keeps ok obj (w_store w) s) (w_store w)"
    and "\<And>x s. R x s \<Longrightarrow> Q x (w\<lparr>w_store := s\<rparr>)"
  shows "wp (on_store m) (\<lambda>x v. calm w0 v \<and> Q x v) (\<lambda>_ v. calm w0 v) w"
proof -
  have "calm w0 (w\<lparr>w_store := s\<rparr>)" if "store_keeps ok obj (w_store w) s" for s
    using assms(1) that keeps_trans by (auto simp: calm_def follows_def)
  with assms(3) show ?thesis unfolding wp_on_store by (intro wp_mono [OF assms(2)]) auto
qed

lemma calm_retrying:
  assumes "calm w0 w"
    and "\<And>v. calm w0 v \<Longrightarrow> wp m (\<lambda>x u. calm w0 u \<and> Q x u) (\<lambda>_ u. calm w0 u) v"
  shows "wp (retrying P m) (\<lambda>x u. calm w0 u \<and> Q x u) (\<lambda>_ u. calm w0 u) w"
  unfolding retrying_def
proof (rule wp_retry_call [where I = "calm w0"])
  show "wp m (\<lambda>x u. calm w0 u \<and> Q x u) (\<lambda>e t. if is_retryable e then calm w0 t else calm w0 t) s"
    if "calm w0 s" for s using assms(2) [OF that] by simp
  show "wp (sleep d) (\<lambda>_. calm w0) (\<lambda>_. calm w0) s" if "calm w0 s" for d s
    using that by (simp add: wp_sleep calm_def follows_def)
qed (use assms(1) policy in auto)

subsection \<open>Evidence\<close>

definition logged :: "CdcBatch \<Rightarrow> string \<Rightarrow> ('st, 'k) cdc_world \<Rightarrow> bool" where
  "logged b c w \<longleftrightarrow> (\<exists>r. find_row (cb_batch_id b) (md_rows (w_db w)) = Some r \<and> durable r
     \<and> same_coordinates b (bp_consumer_group P) r \<and> mr_checksum_sha256 r = Some c)"

definition evidence :: "CdcBatch \<Rightarrow> ('st, 'k) cdc_world \<Rightarrow> bool" where
  "evidence b w \<longleftrightarrow> (\<exists>c. logged b c w \<and> batch_hash (bp_storage P) b c (w_store w))"

definition registered :: "CdcBatch \<Rightarrow> ('st, 'k) cdc_world \<Rightarrow> bool" where
  "registered b w \<longleftrightarrow> (\<exists>r. find_row (cb_batch_id b) (md_rows (w_db w)) = Some r
     \<and> same_coordinates b (bp_consumer_group P) r)"

lemma row_follows:
  assumes "sound w" and "follows w v" and "find_row i (md_rows (w_db w)) = Some r"
  shows "\<exists>r'. find_row i (md_rows (w_db v)) = Some r' \<and> row_evolves r r'"
proof -
  from find_row_SomeD [OF assms(3)] have r: "r \<in> set (md_rows (w_db w))" "mr_batch_id r = i" by simp_all
  from assms(2) have v: "manifest_inv (md_rows (w_db v))" "evolves (md_rows (w_db w)) (md_rows (w_db v))"
    by (simp_all add: follows_def manifest_keeps_def)
  from evolves_row [OF v(2) r(1)] obtain r' where "r' \<in> set (md_rows (w_db v))" "row_evolves r r'" by blast
  with v(1) r(2) show ?thesis by (auto simp: find_row_iff manifest_inv_def row_evolves_def)
qed

lemma same_coordinates_evolves: "row_evolves r r' \<Longrightarrow> same_coordinates b g r' = same_coordinates b g r"
  by (auto simp: same_coordinates_def row_evolves_def range_key_def)

lemma registered_follows: "sound w \<Longrightarrow> registered b w \<Longrightarrow> follows w v \<Longrightarrow> registered b v"
  unfolding registered_def using row_follows same_coordinates_evolves by blast

lemma logged_follows: "sound w \<Longrightarrow> logged b c w \<Longrightarrow> follows w v \<Longrightarrow> logged b c v"
proof -
  assume w: "sound w" "logged b c w" "follows w v"
  then obtain r where r: "find_row (cb_batch_id b) (md_rows (w_db w)) = Some r" "durable r"
      "same_coordinates b (bp_consumer_group P) r" "mr_checksum_sha256 r = Some c"
    by (auto simp: logged_def)
  from row_follows [OF w(1,3) r(1)] obtain r' where
    "find_row (cb_batch_id b) (md_rows (w_db v)) = Some r'" "row_evolves r r'" by blast
  with r same_coordinates_evolves [OF this(2)] show "logged b c v"
    by (auto simp: logged_def row_evolves_def)
qed

lemma evidence_follows: "sound w \<Longrightarrow> evidence b w \<Longrightarrow> follows w v \<Longrightarrow> evidence b v"
  unfolding evidence_def using logged_follows batch_hash_keeps [of _ _ _ "w_store w" "w_store v"]
  by (meson follows_def)

subsection \<open>The steps of the protocol\<close>

abbreviation row_of :: "CdcBatch \<Rightarrow> ('st, 'k) cdc_world \<Rightarrow> BatchManifestRecord option" where
  "row_of b w \<equiv> find_row (cb_batch_id b) (md_rows (w_db w))"

lemma calm_register:
  assumes "calm w0 w"
  shows "wp (retrying P (on_db (register_batch b (bp_consumer_group P))))
    (\<lambda>r v. calm w0 v \<and> row_of b v = Some r \<and> same_coordinates b (bp_consumer_group P) r) (\<lambda>_ v. calm w0 v) w"
  by (rule calm_retrying [OF assms], rule calm_db) (auto intro: keeps_register_batch dest: register_batch_ok)

lemma calm_get:
  assumes "calm w0 w"
  shows "wp (on_db (get_record (cb_batch_id b))) (\<lambda>r v. calm w0 v \<and> r = row_of b v) (\<lambda>_ v. calm w0 v) w"
  by (rule calm_db [OF assms]) (auto intro: keeps_get_record dest: get_record_result)

lemma calm_any_db:
  assumes "calm w0 w" and "\<And>rows0. preserves (manifest_keeps rows0) m"
  shows "wp (retrying P (on_db m)) (\<lambda>_ v. calm w0 v) (\<lambda>_ v. calm w0 v) w"
  by (rule wp_mono [OF calm_retrying [OF assms(1), where Q = "\<lambda>_ _. True"]])
    (rule calm_db, auto intro: assms(2))

lemma calm_any_db1:
  assumes "calm w0 w" and "\<And>rows0. preserves (manifest_keeps rows0) m"
  shows "wp (on_db m) (\<lambda>_ v. calm w0 v) (\<lambda>_ v. calm w0 v) w"
  by (rule wp_mono [OF calm_db [OF assms(1), where Q = "\<lambda>_ _. True"]]) (auto intro: assms(2))

lemma calm_stat:
  assumes "calm w0 w"
  shows "wp (on_store (stat_batch (bp_storage P) b)) (\<lambda>_ v. calm w0 v) (\<lambda>_ v. calm w0 v) w"
proof -
  have "ok (w_store w)" using assms by (simp add: calm_def follows_def store_keeps_def)
  from calm_store [OF assms wp_stat_batch [OF refl this], where Q = "\<lambda>_ _. True"]
  show ?thesis by (rule wp_mono) auto
qed

lemma calm_publish:
  assumes "calm w0 w"
  shows "wp (publish P b ser t) (\<lambda>(s, x) v. calm w0 v
      \<and> batch_hash (bp_storage P) b (sp_checksum_sha256 s) (w_store v)) (\<lambda>_ v. calm w0 v) w"
proof -
  have "wp (on_store (put_batch (bp_storage P) b ser (bp_consumer_group P) t))
      (\<lambda>x v. calm w0 v \<and> batch_hash (bp_storage P) b (sp_checksum_sha256 ser) (w_store v)) (\<lambda>_ v. calm w0 v) u"
    if u: "calm w0 u" for u
  proof -
    have "ok (w_store u)" using u by (simp add: calm_def follows_def store_keeps_def)
    from wp_put_batch [OF refl this] show ?thesis by (rule calm_store [OF u]) simp
  qed
  from calm_retrying [OF assms this] show ?thesis
    unfolding publish_def wp_rules by (rule wp_mono) (auto simp: wp_rules)
qed

lemma calm_republish:
  assumes "calm w0 w"
  shows "wp (republish P b e) (\<lambda>(s, x) v. calm w0 v
      \<and> batch_hash (bp_storage P) b (sp_checksum_sha256 s) (w_store v)) (\<lambda>_ v. calm w0 v) w"
  unfolding republish_def wp_bindE
  by (rule wp_mono [OF calm_stat [OF assms]])
    (auto simp: wp_rules split: option.splits sum.splits intro!: calm_publish)

lemma calm_upload:
  assumes "calm w0 w" and "registered b w0" and "sound w0"
  shows "wp (upload_batch P b) (\<lambda>_ v. calm w0 v \<and> evidence b v) (\<lambda>_ v. calm w0 v) w"
proof -
  have mark: "wp (retrying P (on_db (mark_uploaded (cb_batch_id b) (sp_checksum_sha256 s) uri)))
      (\<lambda>_ v. calm w0 v \<and> evidence b v) (\<lambda>_ v. calm w0 v) u"
    if u: "calm w0 u" and h: "batch_hash (bp_storage P) b (sp_checksum_sha256 s) (w_store u)" for u s uri
  proof -
    have su: "sound u" and reg: "registered b u"
      using u follows_sound registered_follows [OF assms(3,2)] by (auto simp: calm_def)
    have "wp (on_db (mark_uploaded (cb_batch_id b) (sp_checksum_sha256 s) uri))
        (\<lambda>_ v. calm u v \<and> evidence b v) (\<lambda>_ v. calm u v) v" if v: "calm u v" for v
    proof (rule calm_db [OF v keeps_mark_uploaded])
      fix r d assume m: "mark_uploaded (cb_batch_id b) (sp_checksum_sha256 s) uri (w_db v) = (Inr r, d)"
        and inv: "manifest_inv (md_rows d)"
      have "manifest_keeps (md_rows (w_db u)) d"
        using preservesD [OF keeps_mark_uploaded [of "md_rows (w_db u)" "cb_batch_id b" "sp_checksum_sha256 s" uri],
            of "w_db v"] v m by (simp add: calm_def follows_def)
      then have "follows u (v\<lparr>w_db := d\<rparr>)" using v by (simp add: calm_def follows_def)
      then have "registered b (v\<lparr>w_db := d\<rparr>)" "batch_hash (bp_storage P) b (sp_checksum_sha256 s) (w_store v)"
        using registered_follows [OF su reg] batch_hash_keeps [OF h] by (auto simp: follows_def)
      with mark_uploaded_ok [OF m] show "evidence b (v\<lparr>w_db := d\<rparr>)"
        by (auto simp: evidence_def logged_def registered_def)
    qed
    from calm_retrying [OF calm_refl [OF su] this] show ?thesis
      by (rule wp_mono) (auto intro: calm_trans [OF u])
  qed
  have pub: "wp (catchE (publish P b ser t) (\<lambda>e. case e of Immutable_Collision_Error _ \<Rightarrow> republish P b e | _ \<Rightarrow> raiseE e))
      (\<lambda>(s, x) v. calm w0 v \<and> batch_hash (bp_storage P) b (sp_checksum_sha256 s) (w_store v)) (\<lambda>_ v. calm w0 v) u"
    if "calm w0 u" for u ser t
    unfolding wp_catchE
    by (rule wp_mono [OF calm_publish [OF that]]) (auto simp: wp_rules calm_republish split: exn.splits)
  have tail: "wp (bindE (catchE (publish P b ser t)
        (\<lambda>e. case e of Immutable_Collision_Error _ \<Rightarrow> republish P b e | _ \<Rightarrow> raiseE e))
        (\<lambda>(ser', stored). retrying P (on_db (mark_uploaded (cb_batch_id b) (sp_checksum_sha256 ser') (so_uri stored)))))
      (\<lambda>_ v. calm w0 v \<and> evidence b v) (\<lambda>_ v. calm w0 v) u" if "calm w0 u" for u ser t
    unfolding wp_bindE by (rule wp_mono [OF pub [OF that]]) (auto intro: mark)
  have ser: "wp (bindE (liftE (stable_ingested_at existing created)) (\<lambda>t.
        bindE (liftE (serialize_batch (bp_writer P) b t)) (\<lambda>ser.
        seqE (retrying P (on_db (mark_uploading (cb_batch_id b))))
        (bindE (catchE (publish P b ser t)
           (\<lambda>e. case e of Immutable_Collision_Error _ \<Rightarrow> republish P b e | _ \<Rightarrow> raiseE e))
           (\<lambda>(ser', stored). retrying P (on_db (mark_uploaded (cb_batch_id b) (sp_checksum_sha256 ser') (so_uri stored))))))))
      (\<lambda>_ v. calm w0 v \<and> evidence b v) (\<lambda>_ v. calm w0 v) u" if "calm w0 u" for u existing created
    unfolding wp_bindE [of "liftE _"] wp_seqE wp_liftE
    by (auto split: sum.splits simp: that
        intro!: wp_mono [OF calm_any_db [OF that keeps_mark_uploading]] tail)
  have body: "wp (case stable of
        None \<Rightarrow> raiseE (Runtime_Error ''Manifest record disappeared during serialization'')
      | Some record \<Rightarrow>
          bindE (retrying P (on_store (stat_batch (bp_storage P) b))) (\<lambda>existing.
          bindE (liftE (stable_ingested_at existing (mr_created_at record))) (\<lambda>t.
          bindE (liftE (serialize_batch (bp_writer P) b t)) (\<lambda>ser.
          seqE (retrying P (on_db (mark_uploading (cb_batch_id b))))
          (bindE (catchE (publish P b ser t)
             (\<lambda>e. case e of Immutable_Collision_Error _ \<Rightarrow> republish P b e | _ \<Rightarrow> raiseE e))
             (\<lambda>(ser', stored). retrying P (on_db (mark_uploaded (cb_batch_id b) (sp_checksum_sha256 ser') (so_uri stored)))))))))
      (\<lambda>_ v. calm w0 v \<and> evidence b v) (\<lambda>_ v. calm w0 v) u" if u: "calm w0 u" for u stable
  proof (cases stable)
    case (Some row)
    have "wp (retrying P (on_store (stat_batch (bp_storage P) b))) (\<lambda>_ v. calm w0 v \<and> True) (\<lambda>_ v. calm w0 v) u"
      by (rule calm_retrying [OF u]) (simp add: calm_stat)
    then show ?thesis
      unfolding Some option.case wp_bindE [of "retrying _ _"] by (rule wp_mono) (auto intro: ser)
  qed (simp add: wp_raiseE u)
  have "wp (bindE (on_db (get_record (cb_batch_id b))) f) (\<lambda>_ v. calm w0 v \<and> evidence b v) (\<lambda>_ v. calm w0 v) u"
    if u: "calm w0 u" and f: "\<And>stable v. calm w0 v \<Longrightarrow> wp (f stable) (\<lambda>_ v. calm w0 v \<and> evidence b v) (\<lambda>_ v. calm w0 v) v"
    for u f unfolding wp_bindE by (rule wp_mono [OF calm_get [OF u]]) (auto intro: f)
  with body show ?thesis
    unfolding upload_batch_def wp_seqE
    by (intro wp_mono [OF calm_any_db [OF assms(1) keeps_mark_serializing]]) blast+
qed

text \<open>The offset of the batch's partition has moved to its next offset, all others are as before.\<close>

definition advanced :: "CdcBatch \<Rightarrow> ('st, 'k) cdc_world \<Rightarrow> ('st, 'k) cdc_world \<Rightarrow> bool" where
  "advanced b w0 w \<longleftrightarrow>
     offsets (w_kafka w) = (offsets (w_kafka w0))(batch_topic_partition b \<mapsto> next_offset b)"

text \<open>What holds after every run: the offset moved only if the batch is durable.\<close>

definition guarded :: "CdcBatch \<Rightarrow> ('st, 'k) cdc_world \<Rightarrow> ('st, 'k) cdc_world \<Rightarrow> bool" where
  "guarded b w0 w \<longleftrightarrow> follows w0 w
     \<and> (offsets (w_kafka w) = offsets (w_kafka w0) \<or> advanced b w0 w \<and> evidence b w)"

lemma calm_guarded: "calm w0 w \<Longrightarrow> guarded b w0 w"
  by (simp add: calm_def guarded_def)

lemma slept_frame: "guarded b w0 (w\<lparr>w_slept := x\<rparr>) = guarded b w0 w" "evidence b (w\<lparr>w_slept := x\<rparr>) = evidence b w"
  by (simp_all add: guarded_def follows_def advanced_def evidence_def logged_def)

lemma commit_guarded:
  assumes "guarded b w0 w" and "evidence b w"
  shows "wp (commit_batch P b) (\<lambda>_ v. guarded b w0 v \<and> evidence b v \<and> advanced b w0 v \<and> w_db v = w_db w)
    (\<lambda>_ v. guarded b w0 v \<and> evidence b v) w"
  unfolding commit_batch_def retrying_def
proof (rule wp_retry_call [where I = "\<lambda>v. guarded b w0 v \<and> evidence b v \<and> w_db v = w_db w"])
  fix v assume v: "guarded b w0 v \<and> evidence b v \<and> w_db v = w_db w"
  have "wp (kafka_commit (bp_committer P) (batch_topic_partition b) (next_offset b))
      (\<lambda>_ k'. guarded b w0 (v\<lparr>w_kafka := k'\<rparr>) \<and> evidence b (v\<lparr>w_kafka := k'\<rparr>) \<and> advanced b w0 (v\<lparr>w_kafka := k'\<rparr>))
      (\<lambda>_ k'. guarded b w0 (v\<lparr>w_kafka := k'\<rparr>) \<and> evidence b (v\<lparr>w_kafka := k'\<rparr>)) (w_kafka v)"
    by (rule wp_mono [OF wp_kafka_commit])
      (use v in \<open>auto simp: guarded_def advanced_def follows_def evidence_def logged_def\<close>)
  then show "wp (on_kafka (kafka_commit (bp_committer P) (batch_topic_partition b) (next_offset b)))
      (\<lambda>_ u. guarded b w0 u \<and> evidence b u \<and> advanced b w0 u \<and> w_db u = w_db w)
      (\<lambda>e u. if is_retryable e then guarded b w0 u \<and> evidence b u \<and> w_db u = w_db w
             else guarded b w0 u \<and> evidence b u) v"
    unfolding wp_on_kafka by (rule wp_mono) (use v in auto)
next
  fix d v assume "guarded b w0 v \<and> evidence b v \<and> w_db v = w_db w"
  then show "wp (sleep d) (\<lambda>_ v. guarded b w0 v \<and> evidence b v \<and> w_db v = w_db w)
      (\<lambda>_ v. guarded b w0 v \<and> evidence b v) v"
    by (simp add: wp_sleep slept_frame)
qed (use assms policy in auto)

text \<open>Manifest updates after the commit keep what the commit established.\<close>

lemma calm_keeps_guarded:
  assumes "guarded b w0 w" and "evidence b w" and "calm w v"
  shows "guarded b w0 v \<and> evidence b v \<and> (advanced b w0 w \<longrightarrow> advanced b w0 v)"
proof -
  have "sound w" using assms(1) follows_sound by (auto simp: guarded_def)
  with assms have "evidence b v" using evidence_follows by (auto simp: calm_def)
  with assms show ?thesis using follows_trans by (auto simp: guarded_def calm_def advanced_def)
qed

definition completed :: "CdcBatch \<Rightarrow> ('st, 'k) cdc_world \<Rightarrow> BatchProcessResult \<Rightarrow> ('st, 'k) cdc_world \<Rightarrow> bool" where
  "completed b w0 res w \<longleftrightarrow> guarded b w0 w \<and> advanced b w0 w \<and> evidence b w
     \<and> (\<exists>r. row_of b w = Some r \<and> mr_status r = COMMITTED)
     \<and> br_batch_id res = cb_batch_id b \<and> br_committed_offset res = next_offset b"

lemma mark_committed_completes:
  assumes "guarded b w0 w" and "evidence b w" and "advanced b w0 w"
  shows "wp (on_db (mark_committed (cb_batch_id b)))
      (\<lambda>_ v. calm w v \<and> (\<exists>r. row_of b v = Some r \<and> mr_status r = COMMITTED)) (\<lambda>_ v. calm w v) w"
proof -
  have "sound w" using assms(1) follows_sound by (auto simp: guarded_def)
  then show ?thesis
    by (intro calm_db calm_refl keeps_mark_committed) (auto dest: mark_committed_ok)
qed

lemma upload_failure_calm:
  assumes "calm w0 w"
  shows "wp (note_upload_failure b e :: (('st, 'k) cdc_world, 'a) eff) Q (\<lambda>_ v. calm w0 v) w"
  unfolding note_upload_failure_def wp_bindE
  by (rule wp_mono [OF calm_get [OF assms]])
    (auto simp: wp_seqE wp_returnE wp_raiseE split: option.splits
      intro!: wp_mono [OF calm_any_db1 [OF _ keeps_mark_failed]])

lemma commit_uploaded_guarded:
  assumes "calm w0 w" and "evidence b w"
  shows "wp (commit_uploaded P b) (completed b w0) (\<lambda>_ v. guarded b w0 v) w"
proof -
  have sw: "sound w" using assms(1) follows_sound by (auto simp: calm_def)
  have note_err: "wp (seqE (on_db (note_retryable_error (cb_batch_id b) ''KAFKA_COMMIT_FAILED'' m)) (raiseE e))
      Q (\<lambda>_ v. guarded b w0 v) u" if u: "guarded b w0 u" "evidence b u" for u m e Q
  proof -
    have "sound u" using u follows_sound by (auto simp: guarded_def)
    from calm_any_db1 [OF calm_refl [OF this] keeps_note_retryable_error]
    show ?thesis unfolding wp_seqE wp_raiseE by (rule wp_mono) (simp_all add: calm_keeps_guarded [OF u])
  qed
  have final: "wp (seqE (retrying P (on_db (mark_committed (cb_batch_id b)))) (returnE
        \<lparr>br_batch_id = cb_batch_id b, br_object_uri = uri, br_checksum_sha256 = c,
         br_committed_offset = next_offset b, br_replayed = False\<rparr>)) (completed b w0) (\<lambda>_ v. guarded b w0 v) u"
    if u: "guarded b w0 u" "evidence b u" "advanced b w0 u" for u uri c
  proof -
    have su: "sound u" using u follows_sound by (auto simp: guarded_def)
    have step: "wp (on_db (mark_committed (cb_batch_id b)))
        (\<lambda>_ v'. calm u v' \<and> (\<exists>r. row_of b v' = Some r \<and> mr_status r = COMMITTED)) (\<lambda>_ v'. calm u v') v"
      if v: "calm u v" for v
      by (rule calm_db [OF v keeps_mark_committed]) (auto dest: mark_committed_ok)
    from calm_retrying [OF calm_refl [OF su] step] show ?thesis
      unfolding wp_seqE wp_returnE
      by (rule wp_mono) (simp_all add: u(3) calm_keeps_guarded [OF u(1,2)] completed_def)
  qed
  have comm: "wp (seqE (catchE (commit_batch P b)
        (\<lambda>e. seqE (on_db (note_retryable_error (cb_batch_id b) ''KAFKA_COMMIT_FAILED'' (exn_message e))) (raiseE e)))
      (seqE (retrying P (on_db (mark_committed (cb_batch_id b)))) (returnE
        \<lparr>br_batch_id = cb_batch_id b, br_object_uri = uri, br_checksum_sha256 = c,
         br_committed_offset = next_offset b, br_replayed = False\<rparr>)))
      (completed b w0) (\<lambda>_ v. guarded b w0 v) u" if u: "calm w0 u" "evidence b u" for u uri c
    unfolding wp_seqE [of "catchE _ _"] wp_catchE
    by (rule wp_mono [OF commit_guarded [OF calm_guarded [OF u(1)] u(2)]]) (auto intro: final note_err)
  have got: "calm w0 v \<and> evidence b v" if "calm w v" for v
    using calm_trans [OF assms(1) that] evidence_follows [OF sw assms(2)] that by (simp add: calm_def)
  have body: "wp (case uploaded of
         Some r \<Rightarrow>
           (case (mr_status r, mr_object_uri r, mr_checksum_sha256 r) of
              (UPLOADED, Some uri, Some checksum) \<Rightarrow>
                seqE (catchE (commit_batch P b)
                        (\<lambda>e. seqE (on_db (note_retryable_error (cb_batch_id b) ''KAFKA_COMMIT_FAILED'' (exn_message e)))
                               (raiseE e)))
                (seqE (retrying P (on_db (mark_committed (cb_batch_id b))))
                  (returnE \<lparr>br_batch_id = cb_batch_id b, br_object_uri = uri, br_checksum_sha256 = checksum,
                            br_committed_offset = next_offset b, br_replayed = False\<rparr>))
            | _ \<Rightarrow> raiseE (Runtime_Error ''Manifest did not confirm an uploaded CDC batch''))
       | None \<Rightarrow> raiseE (Runtime_Error ''Manifest did not confirm an uploaded CDC batch''))
      (completed b w0) (\<lambda>_ v. guarded b w0 v) v" if "calm w v" for uploaded v
  proof (cases "\<exists>r uri c. uploaded = Some r \<and> mr_status r = UPLOADED \<and> mr_object_uri r = Some uri \<and> mr_checksum_sha256 r = Some c")
    case True
    then show ?thesis using got [OF that] comm by auto
  next
    case False
    then show ?thesis using got [OF that] calm_guarded
      by (auto simp: wp_raiseE split: option.splits BatchStatus.splits)
  qed
  show ?thesis
    unfolding commit_uploaded_def wp_bindE
    by (rule wp_mono [OF calm_get [OF calm_refl [OF sw]]])
      (elim conjE, rule body, assumption, use got calm_guarded in blast)
qed

lemma replay_guarded:
  assumes "calm w0 w" and row: "row_of b w = Some r" "same_coordinates b (bp_consumer_group P) r" "durable r"
  shows "wp (replay_batch P b r) (completed b w0) (\<lambda>_ v. guarded b w0 v) w"
proof (cases "mr_checksum_sha256 r = None \<or> mr_object_uri r = None")
  case True
  then show ?thesis
    using assms(1) calm_guarded by (auto simp: replay_batch_def wp_raiseE split: option.splits)
next
  case False
  then obtain c uri where c: "mr_checksum_sha256 r = Some c" "mr_object_uri r = Some uri" by auto
  have sw: "sound w" using assms(1) follows_sound by (auto simp: calm_def)
  have log: "logged b c w" using row c by (simp add: logged_def)
  let ?res = "\<lparr>br_batch_id = cb_batch_id b, br_object_uri = uri, br_checksum_sha256 = c,
    br_committed_offset = next_offset b, br_replayed = True\<rparr>"
  have verify: "wp (on_store (verify_batch (bp_storage P) b c (Some uri)))
      (\<lambda>_ v. calm w v \<and> batch_hash (bp_storage P) b c (w_store v)) (\<lambda>_ v. calm w v) v" if v: "calm w v" for v
  proof -
    have "ok (w_store v)" using v by (simp add: calm_def follows_def store_keeps_def)
    from wp_verify_batch [OF refl this] show ?thesis by (rule calm_store [OF v]) simp
  qed
  have final: "wp (seqE (if mr_status r = UPLOADED then seqE (on_db (mark_committed (cb_batch_id b))) (returnE ()) else returnE ())
      (returnE ?res)) (completed b w0) (\<lambda>_ v. guarded b w0 v) u"
    if u: "guarded b w0 u" "evidence b u" "advanced b w0 u" "row_of b u = Some ru" "row_evolves r ru" for u ru
  proof (cases "mr_status r = UPLOADED")
    case True
    then show ?thesis
      unfolding wp_seqE wp_returnE wp_if
      by simp (rule wp_mono [OF mark_committed_completes [OF u(1,2,3)]],
        simp_all add: u(3) calm_keeps_guarded [OF u(1,2)] completed_def)
  next
    case False
    with row(3) u show ?thesis by (auto simp: wp_rules completed_def durable_def row_evolves_def)
  qed
  have comm: "wp (seqE (commit_batch P b) (seqE (if mr_status r = UPLOADED
        then seqE (on_db (mark_committed (cb_batch_id b))) (returnE ()) else returnE ()) (returnE ?res)))
      (completed b w0) (\<lambda>_ v. guarded b w0 v) u"
    if u: "calm w u" "batch_hash (bp_storage P) b c (w_store u)" for u
  proof -
    have fol: "follows w u" using u(1) by (simp add: calm_def)
    have ev: "evidence b u" using logged_follows [OF sw log fol] u(2) by (auto simp: evidence_def)
    have g: "guarded b w0 u" using assms(1) u(1) calm_trans calm_guarded by blast
    from row_follows [OF sw fol row(1)] obtain ru where "row_of b u = Some ru" "row_evolves r ru" by blast
    then show ?thesis
      unfolding wp_seqE [of "commit_batch P b"]
      by (intro wp_mono [OF commit_guarded [OF g ev]], elim conjE, intro final [where ru = ru]) simp_all
  qed
  have "wp (retrying P (on_store (verify_batch (bp_storage P) b c (Some uri))))
      (\<lambda>_ v. calm w v \<and> batch_hash (bp_storage P) b c (w_store v)) (\<lambda>_ v. calm w v) w"
    by (rule calm_retrying [OF calm_refl [OF sw]]) (rule verify)
  then show ?thesis
    unfolding replay_batch_def c prod.case option.case wp_seqE [of "retrying _ _"]
    by (rule wp_mono) (elim conjE, rule comm, assumption+, use assms(1) calm_trans calm_guarded in blast)
qed

lemma process_guarded:
  assumes "sound w0"
  shows "wp (process_batch P b) (completed b w0) (\<lambda>_ v. guarded b w0 v) w0"
proof -
  have fresh: "wp (seqE (catchE (upload_batch P b) (note_upload_failure b)) (commit_uploaded P b))
      (completed b w0) (\<lambda>_ v. guarded b w0 v) w"
    if w: "calm w0 w" "row_of b w = Some r" "same_coordinates b (bp_consumer_group P) r" for w r
  proof -
    have sw: "sound w" using w(1) follows_sound by (auto simp: calm_def)
    have reg: "registered b w" using w(2,3) by (auto simp: registered_def)
    have early: "calm w v \<Longrightarrow> calm w0 v" for v using w(1) calm_trans by blast
    show ?thesis
      unfolding wp_seqE wp_catchE
      by (rule wp_mono [OF calm_upload [OF calm_refl [OF sw] reg sw]])
        (auto intro!: commit_uploaded_guarded wp_mono [OF upload_failure_calm [where Q = "\<lambda>_ _. False"]]
          intro: early calm_guarded)
  qed
  show ?thesis
    unfolding process_batch_def wp_bindE
    by (rule wp_mono [OF calm_register [OF calm_refl [OF assms]]])
      (auto simp: durable_def intro: fresh replay_guarded calm_guarded)
qed

end

section \<open>A concrete coordinator\<close>

text \<open>Every commit follows a script: acknowledged, applied without acknowledgement, or refused.\<close>

datatype commit_outcome = Acknowledged | Lost_Acknowledgement | Refused

record broker =
  kb_offsets :: "TopicPartitionKey \<Rightarrow> int option"
  kb_script :: "nat \<Rightarrow> commit_outcome"
  kb_tick :: nat

definition broker_commit :: "broker offset_client" where
  "broker_commit tp n k =
     (let k' = k\<lparr>kb_tick := Suc (kb_tick k)\<rparr>; moved = k'\<lparr>kb_offsets := (kb_offsets k)(tp \<mapsto> n)\<rparr> in
      case kb_script k (kb_tick k) of
        Acknowledged \<Rightarrow> (Inr (Some [False]), moved)
      | Lost_Acknowledgement \<Rightarrow> (Inl ''timed out'', moved)
      | Refused \<Rightarrow> (Inr (Some [True]), k'))"

interpretation broker: kafka_offsets broker_commit kb_offsets
  by unfold_locales (auto simp: broker_commit_def Let_def split: commit_outcome.splits)

section \<open>Properties\<close>

text \<open>The rows that reconciliation promotes for the given committed offsets.\<close>

definition promotes :: "((string \<times> int) \<times> int) list \<Rightarrow> BatchManifestRecord \<Rightarrow> bool" where
  "promotes offsets r \<longleftrightarrow> mr_status r = UPLOADED
     \<and> (\<exists>n. map_of offsets (mr_topic r, mr_partition r) = Some n \<and> mr_offset_end r + 1 \<le> n)"

lemma reconcile_record_promotes:
  "row_checks r \<Longrightarrow> reconcile_record offsets r =
     (if promotes offsets r then seqE (mark_committed (mr_batch_id r)) (returnE 1) else returnE 0)"
  by (auto simp: reconcile_record_def promotes_def row_checks_def split: option.splits)

lemma find_row_map_other:
  assumes "\<And>r. mr_batch_id (f r) = mr_batch_id r"
  shows "find_row j (map (\<lambda>r. if mr_batch_id r = i then f r else r) rows)
    = map_option (\<lambda>r. if i = j then f r else r) (find_row j rows)"
  unfolding find_row_def using assms by (induction rows) auto

lemma reconcile_records_run:
  assumes "md_faults db = (\<lambda>_. None)" and "manifest_inv (md_rows db)"
    and "\<forall>r \<in> set rs. find_row (mr_batch_id r) (md_rows db) = Some r" and "distinct (map mr_batch_id rs)"
  shows "\<exists>db'. reconcile_records offsets rs db = (Inr (int (length (filter (promotes offsets) rs))), db')
    \<and> (\<forall>r \<in> set rs. if promotes offsets r
         then \<exists>r'. find_row (mr_batch_id r) (md_rows db') = Some r' \<and> mr_status r' = COMMITTED
                \<and> mr_checksum_sha256 r' = mr_checksum_sha256 r \<and> mr_object_uri r' = mr_object_uri r
         else find_row (mr_batch_id r) (md_rows db') = Some r)
    \<and> (\<forall>i. i \<notin> mr_batch_id ` set rs \<longrightarrow> find_row i (md_rows db') = find_row i (md_rows db))"
  using assms
proof (induction rs arbitrary: db)
  case Nil
  then show ?case by (simp add: returnE_def)
next
  case (Cons r rs)
  have r: "find_row (mr_batch_id r) (md_rows db) = Some r" using Cons.prems by simp
  have chk: "row_checks r" using Cons.prems(2) find_row_SomeD [OF r] by (auto simp: manifest_inv_def row_ok_def)
  have other: "\<forall>x \<in> set rs. mr_batch_id x \<noteq> mr_batch_id r"
    using Cons.prems(4) by (metis distinct.simps(2) image_eqI list.set_map list.simps(9))
  obtain db1 where run1: "reconcile_record offsets r db = (Inr (if promotes offsets r then 1 else 0), db1)"
    and nf1: "md_faults db1 = (\<lambda>_. None)" and inv1: "manifest_inv (md_rows db1)"
    and at: "if promotes offsets r then \<exists>r'. find_row (mr_batch_id r) (md_rows db1) = Some r' \<and> mr_status r' = COMMITTED
          \<and> mr_checksum_sha256 r' = mr_checksum_sha256 r \<and> mr_object_uri r' = mr_object_uri r
        else find_row (mr_batch_id r) (md_rows db1) = Some r"
    and off: "\<forall>i. i \<noteq> mr_batch_id r \<longrightarrow> find_row i (md_rows db1) = find_row i (md_rows db)"
  proof (cases "promotes offsets r")
    case True
    then obtain x db' t where m: "mark_committed (mr_batch_id r) db = (Inr x, db')" "md_faults db' = (\<lambda>_. None)"
      "md_rows db' = map (\<lambda>q. if mr_batch_id q = mr_batch_id r
        then q\<lparr>mr_status := COMMITTED, mr_committed_at := Some t, mr_error_code := None, mr_error_message := None\<rparr>
        else q) (md_rows db)"
      using mark_committed_run [OF Cons.prems(1,2) r] by (auto simp: promotes_def)
    have "manifest_keeps (md_rows db) db'"
      using preservesD [OF keeps_mark_committed, of "md_rows db" db "mr_batch_id r"] Cons.prems(2) m(1)
      by (simp add: manifest_keeps_def)
    then have inv': "manifest_inv (md_rows db')" by (simp add: manifest_keeps_def)
    have "reconcile_record offsets r db = (Inr 1, db')"
      using True chk m(1) by (simp add: reconcile_record_promotes seqE_def bindE_def returnE_def)
    moreover have "find_row i (md_rows db') = map_option (\<lambda>q. if mr_batch_id r = i
        then q\<lparr>mr_status := COMMITTED, mr_committed_at := Some t, mr_error_code := None, mr_error_message := None\<rparr>
        else q) (find_row i (md_rows db))" for i
      unfolding m(3) by (rule find_row_map_other) simp
    ultimately show ?thesis using that [of db'] m(2) inv' True r by (auto simp: option.map_ident)
  next
    case False
    then show ?thesis using that [of db] Cons.prems chk r
      by (simp add: reconcile_record_promotes returnE_def)
  qed
  have "\<forall>x \<in> set rs. find_row (mr_batch_id x) (md_rows db1) = Some x" using Cons.prems(3) other off by simp
  with Cons.IH [OF nf1 inv1 this] Cons.prems(4) obtain db' where
    run2: "reconcile_records offsets rs db1 = (Inr (int (length (filter (promotes offsets) rs))), db')"
    and rest: "\<forall>r \<in> set rs. if promotes offsets r
         then \<exists>r'. find_row (mr_batch_id r) (md_rows db') = Some r' \<and> mr_status r' = COMMITTED
                \<and> mr_checksum_sha256 r' = mr_checksum_sha256 r \<and> mr_object_uri r' = mr_object_uri r
         else find_row (mr_batch_id r) (md_rows db') = Some r"
    and out: "\<forall>i. i \<notin> mr_batch_id ` set rs \<longrightarrow> find_row i (md_rows db') = find_row i (md_rows db1)"
    by auto
  have "reconcile_records offsets (r # rs) db = (Inr (int (length (filter (promotes offsets) (r # rs)))), db')"
    using run1 run2 by (simp add: bindE_def returnE_def)
  moreover have r': "find_row (mr_batch_id r) (md_rows db') = find_row (mr_batch_id r) (md_rows db1)"
    using out other by (metis image_iff)
  moreover have "\<forall>i. i \<notin> mr_batch_id ` set (r # rs) \<longrightarrow> find_row i (md_rows db') = find_row i (md_rows db)"
    using off out by simp
  ultimately show ?case using at rest unfolding r' [symmetric] by (intro exI [of _ db'] conjI) simp_all
qed

text \<open>
  C8. Crash reconciliation: given the offsets Kafka holds, exactly the UPLOADED batches of the
  consumer group whose whole range lies below the committed offset are promoted to COMMITTED with
  their evidence intact, every other row is unchanged, and the call returns their number.
\<close>

theorem reconcile_exact:
  assumes "md_faults db = (\<lambda>_. None)" and "manifest_inv (md_rows db)"
  shows "\<exists>db'. reconcile_committed_offsets grp offsets db
      = (Inr (int (length (filter (\<lambda>r. mr_consumer_group r = grp \<and> promotes offsets r) (md_rows db)))), db')
    \<and> (\<forall>r \<in> set (md_rows db).
         if mr_consumer_group r = grp \<and> promotes offsets r
         then \<exists>r'. find_row (mr_batch_id r) (md_rows db') = Some r' \<and> mr_status r' = COMMITTED
                \<and> mr_checksum_sha256 r' = mr_checksum_sha256 r \<and> mr_object_uri r' = mr_object_uri r
         else find_row (mr_batch_id r) (md_rows db') = Some r)"
proof -
  let ?rs = "sort_key (\<lambda>r. (mr_topic r, mr_partition r, mr_offset_end r))
      (filter (\<lambda>r. mr_consumer_group r = grp \<and> mr_status r \<in> {UPLOADED, COMMITTED}) (md_rows db))"
  let ?db1 = "db\<lparr>md_tick := Suc (md_tick db)\<rparr>"
  have d: "distinct (map mr_batch_id (md_rows db))" using assms(2) by (simp add: manifest_inv_def)
  have rows: "find_row (mr_batch_id r) (md_rows db) = Some r" if "r \<in> set (md_rows db)" for r
    using that d by (simp add: find_row_iff)
  have "distinct (map mr_batch_id ?rs)"
    using d by (simp add: distinct_map inj_on_def)
  moreover have "\<forall>r \<in> set ?rs. find_row (mr_batch_id r) (md_rows ?db1) = Some r" using rows by simp
  ultimately obtain db' where run:
    "reconcile_records offsets ?rs ?db1 = (Inr (int (length (filter (promotes offsets) ?rs))), db')"
    and at: "\<forall>r \<in> set ?rs. if promotes offsets r
         then \<exists>r'. find_row (mr_batch_id r) (md_rows db') = Some r' \<and> mr_status r' = COMMITTED
                \<and> mr_checksum_sha256 r' = mr_checksum_sha256 r \<and> mr_object_uri r' = mr_object_uri r
         else find_row (mr_batch_id r) (md_rows db') = Some r"
    and out: "\<forall>i. i \<notin> mr_batch_id ` set ?rs \<longrightarrow> find_row i (md_rows db') = find_row i (md_rows ?db1)"
    using reconcile_records_run [of ?db1 ?rs offsets] assms by auto
  have "length (filter (promotes offsets) ?rs)
      = length (filter (\<lambda>r. mr_consumer_group r = grp \<and> promotes offsets r) (md_rows db))"
  proof -
    have "promotes offsets r \<and> mr_consumer_group r = grp \<and> mr_status r \<in> {UPLOADED, COMMITTED}
        \<longleftrightarrow> mr_consumer_group r = grp \<and> promotes offsets r" for r
      by (auto simp: promotes_def)
    then show ?thesis unfolding filter_sort length_sort filter_filter by metis
  qed
  moreover have "recoverable grp db = (Inr ?rs, ?db1)"
    using assms(1) by (simp add: recoverable_def session_def Let_def)
  moreover have "if mr_consumer_group r = grp \<and> promotes offsets r
         then \<exists>r'. find_row (mr_batch_id r) (md_rows db') = Some r' \<and> mr_status r' = COMMITTED
                \<and> mr_checksum_sha256 r' = mr_checksum_sha256 r \<and> mr_object_uri r' = mr_object_uri r
         else find_row (mr_batch_id r) (md_rows db') = Some r" if r: "r \<in> set (md_rows db)" for r
  proof (cases "r \<in> set ?rs")
    case True
    then show ?thesis using at by auto
  next
    case False
    have "mr_batch_id r \<notin> mr_batch_id ` set ?rs"
      using False r d by (auto simp: distinct_map inj_on_def)
    with out rows [OF r] have "find_row (mr_batch_id r) (md_rows db') = Some r" by simp
    moreover have "\<not> (mr_consumer_group r = grp \<and> promotes offsets r)" using False r by (auto simp: promotes_def)
    ultimately show ?thesis by auto
  qed
  ultimately show ?thesis
    using run by (auto simp: reconcile_committed_offsets_def bindE_def)
qed

theorem reconcile_exact_witness:
  "\<exists>db'. reconcile_committed_offsets ''g'' [((''t'', 0), 9)] empty_manifest = (Inr 0, db')"
  using reconcile_exact [of empty_manifest "''g''" "[((''t'', 0), 9)]"]
  by (simp add: empty_manifest_def manifest_inv_def)

text \<open>The batch's object in the store, by the hash its manifest row records.\<close>

definition durable_evidence :: "('st \<Rightarrow> string \<Rightarrow> string \<Rightarrow> bytes option) \<Rightarrow> ('st, 'k) CdcBatchProcessor
    \<Rightarrow> CdcBatch \<Rightarrow> ('st, 'k) cdc_world \<Rightarrow> bool" where
  "durable_evidence obj P b w \<longleftrightarrow>
     (\<exists>r key d. find_row (cb_batch_id b) (md_rows (w_db w)) = Some r \<and> durable r
        \<and> same_coordinates b (bp_consumer_group P) r
        \<and> build_cdc_object_key b = Inr key \<and> obj (w_store w) (os_bronze_bucket (bp_storage P)) key = Some d
        \<and> mr_checksum_sha256 r = Some (sha256_hex d))"

text \<open>The protocol on the local backend, for any roots, group, writer and retry policy.\<close>

definition local_processor :: "bucket_roots \<Rightarrow> string \<Rightarrow> parquet_writer \<Rightarrow> RetryPolicy
    \<Rightarrow> (local_fs, broker) CdcBatchProcessor" where
  "local_processor roots grp writer policy =
     \<lparr>bp_storage = \<lparr>os_backend = local_backend roots, os_bronze_bucket = ''bronze'', os_quarantine_bucket = ''quarantine''\<rparr>,
      bp_committer = broker_commit, bp_consumer_group = grp, bp_writer = writer, bp_retry_policy = policy\<rparr>"

definition default_policy :: RetryPolicy where
  "default_policy = \<lparr>max_attempts = 3, initial_backoff_seconds = 1, maximum_backoff_seconds = 10\<rparr>"

interpretation local_protocol:
  batch_protocol "local_processor roots grp writer default_policy" local_ok "local_obj roots" kb_offsets
  for roots grp writer
  using local.immutable_backend_axioms [of roots] broker.kafka_offsets_axioms
  by (simp add: batch_protocol_def batch_protocol_axioms_def local_processor_def default_policy_def wf_policy_def)

context batch_protocol
begin

lemma evidence_durable: "evidence b w \<Longrightarrow> durable_evidence obj P b w"
  by (auto simp: evidence_def logged_def batch_hash_def durable_evidence_def)

lemma process_outcome:
  assumes "sound w" and "process_batch P b w = (q, w')"
  shows "manifest_inv (md_rows (w_db w')) \<and> evolves (md_rows (w_db w)) (md_rows (w_db w'))
    \<and> store_keeps ok obj (w_store w) (w_store w')
    \<and> (offsets (w_kafka w') = offsets (w_kafka w)
       \<or> offsets (w_kafka w') = (offsets (w_kafka w))(batch_topic_partition b \<mapsto> next_offset b)
         \<and> durable_evidence obj P b w')
    \<and> (\<forall>res. q = Inr res \<longrightarrow>
         offsets (w_kafka w') = (offsets (w_kafka w))(batch_topic_partition b \<mapsto> next_offset b)
         \<and> durable_evidence obj P b w'
         \<and> (\<exists>r. find_row (cb_batch_id b) (md_rows (w_db w')) = Some r \<and> mr_status r = COMMITTED)
         \<and> br_committed_offset res = next_offset b)"
proof -
  have "guarded b w w' \<and> (\<forall>res. q = Inr res \<longrightarrow> completed b w res w')"
    using process_guarded [OF assms(1), of b] assms(2)
    by (cases q) (auto simp: wp_def completed_def)
  then show ?thesis
    using evidence_durable
    by (auto simp: guarded_def completed_def follows_def manifest_keeps_def advanced_def)
qed

end

text \<open>
  C3. Upload before commit, on MinIO: whatever SQLite, MinIO and Kafka failures happen, at
  whatever point, processing a batch moves the consumer group's offset only for the batch's own
  partition, only to \<open>offset_end + 1\<close>, and only if the manifest then has an UPLOADED or COMMITTED
  row of the batch whose checksum is the SHA-256 of the bytes that the Bronze bucket holds under
  the batch's key. A successful call has moved the offset and left the row COMMITTED. Nothing
  stored or recorded before is lost.
\<close>

theorem upload_before_commit:
  assumes "s3_store M contents" and "kafka_offsets client offsets"
    and "os_backend (bp_storage P) = minio_backend M" and "bp_committer P = client"
    and "wf_policy (bp_retry_policy P)"
    and "manifest_inv (md_rows (w_db w))" and "all_sealed contents (w_store w)"
    and "process_batch P b w = (q, w')"
  shows "(offsets (w_kafka w') = offsets (w_kafka w)
       \<or> offsets (w_kafka w') = (offsets (w_kafka w))(batch_topic_partition b \<mapsto> next_offset b)
         \<and> durable_evidence (minio_obj contents) P b w')
    \<and> (\<forall>res. q = Inr res \<longrightarrow>
         offsets (w_kafka w') = (offsets (w_kafka w))(batch_topic_partition b \<mapsto> next_offset b)
         \<and> durable_evidence (minio_obj contents) P b w'
         \<and> (\<exists>r. find_row (cb_batch_id b) (md_rows (w_db w')) = Some r \<and> mr_status r = COMMITTED)
         \<and> br_committed_offset res = next_offset b)
    \<and> manifest_inv (md_rows (w_db w')) \<and> evolves (md_rows (w_db w)) (md_rows (w_db w'))
    \<and> store_keeps (all_sealed contents) (minio_obj contents) (w_store w) (w_store w')"
proof -
  have "batch_protocol P (all_sealed contents) (minio_obj contents) offsets"
    using assms s3_store.minio_immutable_backend [OF assms(1)]
    by (simp add: batch_protocol_def batch_protocol_axioms_def)
  then show ?thesis
    using batch_protocol.process_outcome [of P "all_sealed contents" "minio_obj contents" offsets w b q w'] assms(6-8)
    by (simp add: batch_protocol.sound_def)
qed

definition mem_processor :: "(mem_s3, broker) CdcBatchProcessor" where
  "mem_processor =
     \<lparr>bp_storage = \<lparr>os_backend = minio_backend mem_minio, os_bronze_bucket = ''bronze'', os_quarantine_bucket = ''quarantine''\<rparr>,
      bp_committer = broker_commit, bp_consumer_group = ''g'',
      bp_writer = (\<lambda>rows. Inr (concat (map pq_event_id rows))),
      bp_retry_policy = \<lparr>max_attempts = 3, initial_backoff_seconds = 1, maximum_backoff_seconds = 10\<rparr>\<rparr>"

definition empty_world :: "(mem_s3, broker) cdc_world" where
  "empty_world = \<lparr>w_db = empty_manifest, w_store = [],
     w_kafka = \<lparr>kb_offsets = \<lambda>_. None, kb_script = \<lambda>n. if n = 0 then Refused else Acknowledged, kb_tick = 0\<rparr>, w_slept = []\<rparr>"

theorem upload_before_commit_witness:
  "kb_offsets (w_kafka (snd (process_batch mem_processor (batch_of [sample_event 0 7]) empty_world)))
       (TopicPartitionKey ''t'' 0) = None
   \<or> kb_offsets (w_kafka (snd (process_batch mem_processor (batch_of [sample_event 0 7]) empty_world)))
       (TopicPartitionKey ''t'' 0) = Some 8
     \<and> durable_evidence (minio_obj map_of) mem_processor (batch_of [sample_event 0 7])
         (snd (process_batch mem_processor (batch_of [sample_event 0 7]) empty_world))"
proof -
  let ?b = "batch_of [sample_event 0 7]"
  have tp: "batch_topic_partition ?b = TopicPartitionKey ''t'' 0" "next_offset ?b = 8"
    by (simp_all add: batch_topic_partition_def batch_of_def sample_event_def next_offset_def)
  have pol: "wf_policy (bp_retry_policy mem_processor)" by (simp add: wf_policy_def mem_processor_def)
  have "os_backend (bp_storage mem_processor) = minio_backend mem_minio" "bp_committer mem_processor = broker_commit"
    by (simp_all add: mem_processor_def)
  note run = upload_before_commit [OF mem.s3_store_axioms broker.kafka_offsets_axioms this pol,
      of empty_world ?b "fst (process_batch mem_processor ?b empty_world)"
      "snd (process_batch mem_processor ?b empty_world)"]
  have w: "manifest_inv (md_rows (w_db empty_world))" "all_sealed map_of (w_store empty_world)"
    "kb_offsets (w_kafka empty_world) = (\<lambda>_. None)"
    by (simp_all add: empty_world_def all_sealed_def)
  from run [OF w(1,2)] tp show ?thesis unfolding w(3) by auto
qed

end
