(* ===== verification/Cdc_Envelope.thy ===== *)
theory Cdc_Envelope
  imports Cdc_Models Py_Json
begin

text \<open>
  \<open>ingestion/cdc_consumer/envelope.py\<close>: one Kafka record becomes a Bronze event, a heartbeat or
  poison evidence. The function returns a result: an exception that the code does not catch is the
  left value. \<open>observed_at\<close> and the two readings of the clock are arguments.
\<close>

definition SUPPORTED_OPERATIONS :: "string list" where
  "SUPPORTED_OPERATIONS = [''r'', ''c'', ''u'', ''d'']"

definition bytes_as_base64 :: "bytes option \<Rightarrow> string option" where
  "bytes_as_base64 = map_option b64encode"

definition key_json :: "bytes option \<Rightarrow> string option result" where
  "key_json key =
     (case key of
        None \<Rightarrow> Inr None
      | Some b \<Rightarrow>
          (case json_loads b of
             Inr v \<Rightarrow> Inr (Some (deterministic_json v))
           | Inl (Unicode_Decode_Error _) \<Rightarrow> Inr (Some (deterministic_json (JObject [(''base64'', JString (b64encode b))])))
           | Inl (Json_Decode_Error _) \<Rightarrow> Inr (Some (deterministic_json (JObject [(''base64'', JString (b64encode b))])))
           | Inl e \<Rightarrow> Inl e))"

definition entity_from_topic :: "string \<Rightarrow> string" where
  "entity_from_topic topic =
     (let entity = last (split_on (CHR ''.'') topic) in if entity \<noteq> [] then entity else ''unknown'')"

text \<open>\<open>datetime.fromtimestamp(ms / 1000, tz=UTC)\<close>.\<close>

definition from_timestamp_ms :: "int \<Rightarrow> instant result" where
  "from_timestamp_ms ms = from_timestamp ms 1000"

lemma from_timestamp_ms_exact: "\<bar>ms\<bar> < 1000 * 2 ^ 33 \<Longrightarrow> from_timestamp_ms ms = Inr (ms * 1000)"
  by (simp add: from_timestamp_ms_def from_timestamp_exact)

definition event_date :: "instant \<Rightarrow> int option list \<Rightarrow> string result" where
  "event_date now timestamps =
     (case filter (\<lambda>v. v \<noteq> None) timestamps of
        Some ms # _ \<Rightarrow> bindR (from_timestamp_ms ms) (\<lambda>t. Inr (iso_date t))
      | _ \<Rightarrow> Inr (iso_date now))"

definition poison :: "RawKafkaMessage \<Rightarrow> string \<Rightarrow> string \<Rightarrow> ParsedMessage result" where
  "poison m error_code error_message =
     bindR (case rm_timestamp_ms m of None \<Rightarrow> Inr 0 | Some ms \<Rightarrow> from_timestamp_ms ms) (\<lambda>failed_at.
       Inr \<lparr>pm_kind = POISON, pm_raw = m, pm_event = None,
            pm_poison = Some
              \<lparr>pe_event_id = deterministic_event_id (rm_topic m) (rm_partition m) (rm_offset m),
               pe_error_code = error_code, pe_error_message = error_message,
               pe_original_topic = rm_topic m, pe_original_partition = rm_partition m,
               pe_original_offset = rm_offset m, pe_original_key = bytes_as_base64 (rm_key m),
               pe_raw_value = bytes_as_base64 (rm_value m), pe_failed_at = failed_at,
               pe_retry_count = 0, pe_encoding = ''base64''\<rparr>\<rparr>)"

text \<open>
  \<open>_optional_int\<close>: \<open>int()\<close> of a decoded value. \<open>None\<close> when the field is missing or null; type and
  value errors become \<open>ValueError\<close>, the overflow of an infinite float does not.
\<close>

fun optional_int :: "json option \<Rightarrow> int option result" where
  "optional_int None = Inr None"
| "optional_int (Some JNull) = Inr None"
| "optional_int (Some (JBool b)) = Inl (Value_Error ''Boolean is not a valid integer timestamp or coordinate'')"
| "optional_int (Some (JInt i)) = Inr (Some i)"
| "optional_int (Some (JDecimal d)) = Inr (Some (decimal_int d))"
| "optional_int (Some (JFloat w)) =
     (if w = ''NaN'' then Inl (Value_Error ''Invalid integer timestamp or source coordinate'')
      else Inl (Overflow_Error ''cannot convert float infinity to integer''))"
| "optional_int (Some (JString s)) =
     (case int_of_text s of Inr i \<Rightarrow> Inr (Some i)
      | Inl _ \<Rightarrow> Inl (Value_Error ''Invalid integer timestamp or source coordinate''))"
| "optional_int (Some (JArray vs)) = Inl (Value_Error ''Invalid integer timestamp or source coordinate'')"
| "optional_int (Some (JObject kvs)) = Inl (Value_Error ''Invalid integer timestamp or source coordinate'')"

text \<open>A field that is absent and one that is null are the same to \<open>dict.get\<close>.\<close>

definition dict_get :: "(string \<times> json) list \<Rightarrow> string \<Rightarrow> json option" where
  "dict_get kvs k = (case map_of kvs k of Some JNull \<Rightarrow> None | r \<Rightarrow> r)"

text \<open>
  \<open>operation not in SUPPORTED_OPERATIONS\<close>: membership in a frozenset hashes its operand, so an
  array or object raises \<open>TypeError\<close>.
\<close>

fun supported_operation :: "json option \<Rightarrow> string option result" where
  "supported_operation (Some (JString s)) = Inr (if s \<in> set SUPPORTED_OPERATIONS then Some s else None)"
| "supported_operation (Some (JArray vs)) = Inl (Type_Error ''unhashable type: list'')"
| "supported_operation (Some (JObject kvs)) = Inl (Type_Error ''unhashable type: dict'')"
| "supported_operation _ = Inr None"

text \<open>
  \<open>str(source["table"])\<close>. Debezium sends a text; the \<open>repr\<close> of an array or object is an argument,
  since nothing in the code depends on it.
\<close>

definition table_text :: "(json \<Rightarrow> string) \<Rightarrow> json \<Rightarrow> string" where
  "table_text repr v =
     (case v of JString s \<Rightarrow> s | JInt i \<Rightarrow> show_int i | JBool b \<Rightarrow> (if b then ''True'' else ''False'')
      | JDecimal d \<Rightarrow> decimal_str d | _ \<Rightarrow> repr v)"

definition tombstone_event :: "RawKafkaMessage \<Rightarrow> string \<Rightarrow> instant \<Rightarrow> instant \<Rightarrow> ParsedMessage result" where
  "tombstone_event m schema_version observed_at now =
     bindR (key_json (rm_key m)) (\<lambda>key.
     bindR (event_date now [rm_timestamp_ms m]) (\<lambda>date.
       Inr \<lparr>pm_kind = EVENT, pm_raw = m,
            pm_event = Some
              \<lparr>be_event_id = deterministic_event_id (rm_topic m) (rm_partition m) (rm_offset m),
               be_entity_name = entity_from_topic (rm_topic m), be_operation = ''t'',
               be_is_snapshot = False, be_is_deleted = True, be_is_tombstone = True,
               be_event_key_json = key, be_before_json = None, be_after_json = None,
               be_source_metadata_json = None, be_source_lsn = None, be_source_tx_id = None,
               be_source_ts_ms = None, be_connector_ts_ms = None,
               be_kafka_topic = rm_topic m, be_kafka_partition = rm_partition m,
               be_kafka_offset = rm_offset m, be_kafka_message_ts_ms = rm_timestamp_ms m,
               be_ingested_at = observed_at, be_event_date = date,
               be_schema_version = schema_version, be_raw_event_json = None\<rparr>,
            pm_poison = None\<rparr>))"

text \<open>The integer coordinates; \<open>None\<close> when one of them is rejected with \<open>ValueError\<close>.\<close>

definition source_coordinates :: "(string \<times> json) list \<Rightarrow> (string \<times> json) list
    \<Rightarrow> ((int option \<times> int option \<times> int option \<times> int option) option) result" where
  "source_coordinates source payload =
     (case bindR (optional_int (map_of source ''lsn'')) (\<lambda>lsn.
           bindR (optional_int (map_of source ''txId'')) (\<lambda>tx.
           bindR (optional_int (map_of source ''ts_ms'')) (\<lambda>src_ts.
           bindR (optional_int (map_of payload ''ts_ms'')) (\<lambda>con_ts.
             Inr (lsn, tx, src_ts, con_ts))))) of
        Inr c \<Rightarrow> Inr (Some c)
      | Inl (Value_Error _) \<Rightarrow> Inr None
      | Inl e \<Rightarrow> Inl e)"

definition change_event :: "(json \<Rightarrow> string) \<Rightarrow> RawKafkaMessage \<Rightarrow> string \<Rightarrow> instant \<Rightarrow> instant \<Rightarrow> bytes
    \<Rightarrow> (string \<times> json) list \<Rightarrow> string \<Rightarrow> (string \<times> json) list \<Rightarrow> json \<Rightarrow> json option \<Rightarrow> json option
    \<Rightarrow> ParsedMessage result" where
  "change_event repr m schema_version observed_at now raw_text payload operation source table before after =
     bindR (source_coordinates source payload) (\<lambda>coords. case coords of
       None \<Rightarrow> poison m ''INVALID_SOURCE_METADATA'' ''Debezium source coordinate or timestamp is invalid''
     | Some (lsn, tx, src_ts, con_ts) \<Rightarrow>
         bindR (key_json (rm_key m)) (\<lambda>key.
         bindR (event_date now [src_ts, con_ts, rm_timestamp_ms m]) (\<lambda>date.
           Inr \<lparr>pm_kind = EVENT, pm_raw = m,
                pm_event = Some
                  \<lparr>be_event_id = deterministic_event_id (rm_topic m) (rm_partition m) (rm_offset m),
                   be_entity_name = table_text repr table, be_operation = operation,
                   be_is_snapshot = (operation = ''r''), be_is_deleted = (operation = ''d''),
                   be_is_tombstone = False, be_event_key_json = key,
                   be_before_json = map_option deterministic_json before,
                   be_after_json = map_option deterministic_json after,
                   be_source_metadata_json = Some (deterministic_json (JObject source)),
                   be_source_lsn = lsn, be_source_tx_id = tx, be_source_ts_ms = src_ts,
                   be_connector_ts_ms = con_ts, be_kafka_topic = rm_topic m,
                   be_kafka_partition = rm_partition m, be_kafka_offset = rm_offset m,
                   be_kafka_message_ts_ms = rm_timestamp_ms m, be_ingested_at = observed_at,
                   be_event_date = date, be_schema_version = schema_version,
                   be_raw_event_json = Some raw_text\<rparr>,
                pm_poison = None\<rparr>)))"

definition parse_payload :: "(json \<Rightarrow> string) \<Rightarrow> RawKafkaMessage \<Rightarrow> string \<Rightarrow> instant \<Rightarrow> instant \<Rightarrow> bytes
    \<Rightarrow> (string \<times> json) list \<Rightarrow> ParsedMessage result" where
  "parse_payload repr m schema_version observed_at now raw_text payload =
     (let operation = dict_get payload ''op'' in
      if operation = None \<and> ''ts_ms'' \<in> fst ` set payload
      then Inr \<lparr>pm_kind = HEARTBEAT, pm_raw = m, pm_event = None, pm_poison = None\<rparr>
      else bindR (supported_operation operation) (\<lambda>op. case op of
        None \<Rightarrow> poison m ''UNSUPPORTED_OPERATION'' ''Debezium operation is absent or unsupported''
      | Some oper \<Rightarrow>
          (case dict_get payload ''source'' of
             Some (JObject source) \<Rightarrow>
               (case (dict_get source ''table'', dict_get source ''lsn'') of
                  (Some table, Some _) \<Rightarrow>
                    (let before = dict_get payload ''before''; after = dict_get payload ''after'' in
                     if oper = ''d'' \<and> before = None
                     then poison m ''INVALID_DELETE'' ''Delete event must retain before state''
                     else if oper \<in> {''r'', ''c'', ''u''} \<and> after = None
                     then poison m ''INVALID_AFTER'' ''Non-delete event must contain after state''
                     else change_event repr m schema_version observed_at now raw_text payload oper source table before after)
                | _ \<Rightarrow> poison m ''MISSING_SOURCE_COORDINATES'' ''Debezium source table or LSN is missing'')
           | _ \<Rightarrow> poison m ''MISSING_SOURCE'' ''Debezium source metadata is missing'')))"

definition parse_document :: "(json \<Rightarrow> string) \<Rightarrow> RawKafkaMessage \<Rightarrow> string \<Rightarrow> instant \<Rightarrow> instant \<Rightarrow> bytes
    \<Rightarrow> json \<Rightarrow> ParsedMessage result" where
  "parse_document repr m schema_version observed_at now raw_text document =
     (case document of
        JObject kvs \<Rightarrow>
          (case (case map_of kvs ''payload'' of None \<Rightarrow> document | Some v \<Rightarrow> v) of
             JObject payload \<Rightarrow> parse_payload repr m schema_version observed_at now raw_text payload
           | _ \<Rightarrow> poison m ''MISSING_PAYLOAD'' ''Debezium payload is missing'')
      | _ \<Rightarrow> poison m ''INVALID_ENVELOPE'' ''CDC value must be a JSON object'')"

definition parse_debezium_message :: "(json \<Rightarrow> string) \<Rightarrow> RawKafkaMessage \<Rightarrow> string \<Rightarrow> instant \<Rightarrow> instant
    \<Rightarrow> ParsedMessage result" where
  "parse_debezium_message repr m schema_version observed_at now =
     (case rm_value m of
        None \<Rightarrow> tombstone_event m schema_version observed_at now
      | Some value \<Rightarrow>
          (case json_loads value of
             Inl (Unicode_Decode_Error _) \<Rightarrow> poison m ''MALFORMED_ENCODING'' ''Value is not valid UTF-8''
           | Inl (Json_Decode_Error _) \<Rightarrow> poison m ''MALFORMED_JSON'' ''Value is not valid JSON''
           | Inl e \<Rightarrow> Inl e
           | Inr document \<Rightarrow> parse_document repr m schema_version observed_at now value document))"


section \<open>Specification of a parsed record\<close>

definition same_coordinates_as :: "BronzeEvent \<Rightarrow> RawKafkaMessage \<Rightarrow> bool" where
  "same_coordinates_as e m \<longleftrightarrow>
     be_kafka_topic e = rm_topic m \<and> be_kafka_partition e = rm_partition m \<and> be_kafka_offset e = rm_offset m
     \<and> be_kafka_message_ts_ms e = rm_timestamp_ms m
     \<and> be_event_id e = deterministic_event_id (rm_topic m) (rm_partition m) (rm_offset m)"

text \<open>What a Bronze event records of its message, by operation.\<close>

definition faithful_event :: "RawKafkaMessage \<Rightarrow> BronzeEvent \<Rightarrow> bool" where
  "faithful_event m e \<longleftrightarrow>
     same_coordinates_as e m \<and> be_raw_event_json e = rm_value m
     \<and> (be_is_tombstone e \<longleftrightarrow> rm_value m = None)
     \<and> (be_is_tombstone e \<longleftrightarrow> be_operation e = ''t'')
     \<and> be_operation e \<in> set (''t'' # SUPPORTED_OPERATIONS)
     \<and> (be_is_snapshot e \<longleftrightarrow> be_operation e = ''r'')
     \<and> (be_is_deleted e \<longleftrightarrow> be_operation e \<in> {''d'', ''t''})
     \<and> (be_operation e = ''d'' \<longrightarrow> be_before_json e \<noteq> None)
     \<and> (be_operation e \<in> {''r'', ''c'', ''u''} \<longrightarrow> be_after_json e \<noteq> None)
     \<and> (be_is_tombstone e \<or> (be_source_lsn e \<noteq> None \<and> be_source_metadata_json e \<noteq> None))"

definition faithful_poison :: "RawKafkaMessage \<Rightarrow> PoisonEvent \<Rightarrow> bool" where
  "faithful_poison m p \<longleftrightarrow>
     pe_original_topic p = rm_topic m \<and> pe_original_partition p = rm_partition m
     \<and> pe_original_offset p = rm_offset m
     \<and> pe_event_id p = deterministic_event_id (rm_topic m) (rm_partition m) (rm_offset m)
     \<and> map_option b64decode (pe_original_key p) = rm_key m
     \<and> map_option b64decode (pe_raw_value p) = rm_value m"

text \<open>A parsed record has exactly the payload its kind announces.\<close>

definition faithful_record :: "RawKafkaMessage \<Rightarrow> ParsedMessage \<Rightarrow> bool" where
  "faithful_record m pm \<longleftrightarrow> pm_raw pm = m
     \<and> (case pm_kind pm of
          EVENT \<Rightarrow> (\<exists>e. pm_event pm = Some e \<and> pm_poison pm = None \<and> faithful_event m e)
        | HEARTBEAT \<Rightarrow> pm_event pm = None \<and> pm_poison pm = None \<and> rm_value m \<noteq> None
        | POISON \<Rightarrow> (\<exists>p. pm_event pm = None \<and> pm_poison pm = Some p \<and> faithful_poison m p
                        \<and> rm_value m \<noteq> None))"

section \<open>Every record is classified faithfully\<close>

lemma dict_get_Some: "dict_get kvs k = Some v \<longleftrightarrow> map_of kvs k = Some v \<and> v \<noteq> JNull"
  by (auto simp: dict_get_def split: option.splits json.splits)

lemma optional_int_present:
  "optional_int v = Inr None \<Longrightarrow> v = None \<or> v = Some JNull"
  by (cases v rule: optional_int.cases) (auto split: sum.splits if_splits)

lemma supported_operation_Some:
  "supported_operation v = Inr (Some s) \<Longrightarrow> v = Some (JString s) \<and> s \<in> set SUPPORTED_OPERATIONS"
  by (cases v rule: supported_operation.cases) (auto split: if_splits)

lemma poison_faithful:
  "poison m c t = Inr pm \<Longrightarrow> rm_value m \<noteq> None \<Longrightarrow> faithful_record m pm"
  by (auto simp: poison_def bindR_eq_Inr faithful_record_def faithful_poison_def bytes_as_base64_def
      option.map_comp o_def b64_round_trip option.map_ident)

lemma tombstone_faithful:
  "tombstone_event m sv obs now = Inr pm \<Longrightarrow> rm_value m = None \<Longrightarrow> faithful_record m pm"
  by (auto simp: tombstone_event_def bindR_eq_Inr faithful_record_def faithful_event_def
      same_coordinates_as_def SUPPORTED_OPERATIONS_def)

lemma source_coordinates_lsn:
  assumes "source_coordinates src pl = Inr (Some (lsn, tx, ts, ct))" and "dict_get src ''lsn'' = Some v"
  shows "lsn \<noteq> None"
proof -
  from assms(1) have "optional_int (map_of src ''lsn'') = Inr lsn"
    by (auto simp: source_coordinates_def bindR_eq_Inr split: sum.splits exn.splits)
  with assms(2) optional_int_present [of "map_of src ''lsn''"] show ?thesis
    by (auto simp: dict_get_Some)
qed

lemma change_faithful:
  assumes "change_event repr m sv obs now txt pl oper src tbl bef aft = Inr pm"
    and "rm_value m = Some txt" and "oper \<in> set SUPPORTED_OPERATIONS"
    and "dict_get src ''lsn'' = Some v"
    and "oper = ''d'' \<longrightarrow> bef \<noteq> None" and "oper \<in> {''r'', ''c'', ''u''} \<longrightarrow> aft \<noteq> None"
  shows "faithful_record m pm"
proof -
  obtain coords where c: "source_coordinates src pl = Inr coords"
    using assms(1) by (auto simp: change_event_def bindR_eq_Inr)
  show ?thesis
  proof (cases coords)
    case None
    with assms(1) c have "\<exists>x t. poison m x t = Inr pm" by (auto simp: change_event_def)
    then show ?thesis using poison_faithful assms(2) by force
  next
    case (Some q)
    obtain lsn tx ts ct where q: "q = (lsn, tx, ts, ct)" by (cases q)
    have lsn: "lsn \<noteq> None" using source_coordinates_lsn assms(4) c Some q by blast
    have pm: "pm_raw pm = m" "pm_kind pm = EVENT" "pm_poison pm = None"
      "\<exists>e. pm_event pm = Some e \<and> same_coordinates_as e m \<and> be_raw_event_json e = Some txt
         \<and> \<not> be_is_tombstone e \<and> be_operation e = oper \<and> be_is_snapshot e = (oper = ''r'')
         \<and> be_is_deleted e = (oper = ''d'') \<and> be_before_json e = map_option deterministic_json bef
         \<and> be_after_json e = map_option deterministic_json aft \<and> be_source_lsn e = lsn
         \<and> be_source_metadata_json e \<noteq> None"
      using assms(1) c Some q by (auto simp: change_event_def bindR_eq_Inr same_coordinates_as_def)
    have ops: "oper \<noteq> ''t''" "oper = ''d'' \<Longrightarrow> oper \<noteq> ''r''" using assms(3) by (auto simp: SUPPORTED_OPERATIONS_def)
    show ?thesis
      unfolding faithful_record_def pm(1,2,3) ParseKind.case
      using pm(4) lsn ops assms(2,3,5,6) by (simp add: faithful_event_def) (elim exE conjE, simp)
  qed
qed

lemma parse_payload_faithful:
  assumes "parse_payload repr m sv obs now txt pl = Inr pm" and "rm_value m = Some txt"
  shows "faithful_record m pm"
proof (cases "dict_get pl ''op'' = None \<and> ''ts_ms'' \<in> fst ` set pl")
  case True
  with assms show ?thesis by (auto simp: parse_payload_def faithful_record_def)
next
  case nhb: False
  have psn: "faithful_record m pm" if "poison m x t = Inr pm" for x t
    using poison_faithful that assms(2) by simp
  obtain op where op: "supported_operation (dict_get pl ''op'') = Inr op"
    using assms(1) nhb unfolding parse_payload_def Let_def by (auto simp: bindR_eq_Inr)
  note body = assms(1) [unfolded parse_payload_def Let_def if_not_P [OF nhb] op bindR_Inr]
  show ?thesis
  proof (cases op)
    case None
    then show ?thesis using body psn by simp
  next
    case oper: (Some oper)
    then have sup: "oper \<in> set SUPPORTED_OPERATIONS" using op supported_operation_Some by blast
    show ?thesis
    proof (cases "\<exists>src tbl lsn. dict_get pl ''source'' = Some (JObject src)
        \<and> dict_get src ''table'' = Some tbl \<and> dict_get src ''lsn'' = Some lsn")
      case True
      then obtain src tbl lsn where src: "dict_get pl ''source'' = Some (JObject src)"
        "dict_get src ''table'' = Some tbl" "dict_get src ''lsn'' = Some lsn" by blast
      note rest = body [unfolded oper src option.case json.case prod.case]
      show ?thesis
      proof (cases "(oper = ''d'' \<and> dict_get pl ''before'' = None)
          \<or> (oper \<in> {''r'', ''c'', ''u''} \<and> dict_get pl ''after'' = None)")
        case True
        then show ?thesis using rest psn by (simp only: split: if_splits) blast+
      next
        case False
        then have "change_event repr m sv obs now txt pl oper src tbl (dict_get pl ''before'') (dict_get pl ''after'')
            = Inr pm" using rest by (simp only: de_Morgan_disj if_False)
        then show ?thesis using False change_faithful [OF _ assms(2) sup src(3)] by blast
      qed
    next
      case False
      then show ?thesis
        using body psn by (simp add: oper split: option.splits json.splits)
    qed
  qed
qed

text \<open>
  C18. Whatever bytes a Kafka record holds, a returned parse result is faithful to it. An event
  carries the record's coordinates, its deterministic identity and its exact text; tombstones are
  exactly the records without a value; a delete keeps its before state, a snapshot, insert or
  update its after state; and a change always has its log sequence number. Poison evidence names
  the record and its base64 texts decode to the record's very bytes. Every record is exactly one
  of event, heartbeat and poison, and a tombstone is never poison.
\<close>

theorem parse_faithful:
  assumes "parse_debezium_message repr m sv obs now = Inr pm"
  shows "faithful_record m pm"
proof (cases "rm_value m")
  case None
  with assms show ?thesis by (simp add: parse_debezium_message_def tombstone_faithful)
next
  case (Some raw)
  then have val: "rm_value m \<noteq> None" by simp
  from assms Some val show ?thesis
    by (auto simp: parse_debezium_message_def parse_document_def
        split: sum.splits exn.splits json.splits option.splits
        intro: poison_faithful parse_payload_faithful)
qed

definition sample_message :: "bytes option \<Rightarrow> RawKafkaMessage" where
  "sample_message value =
     \<lparr>rm_topic = ''fintech.public.accounts'', rm_partition = 0, rm_offset = 7, rm_key = Some [CHR 0xFF, CHR ''a''],
      rm_value = value, rm_timestamp_ms = Some 1767225600000\<rparr>"


lemma parse_faithful_witness:
  "faithful_record (sample_message (Some ''{''))
     (projr (parse_debezium_message (\<lambda>_. []) (sample_message (Some ''{'')) ''v1'' 0 0))"
proof -
  have "json_loads ''{'' = Inl (Json_Decode_Error [])" by code_simp
  then have "parse_debezium_message (\<lambda>_. []) (sample_message (Some ''{'')) ''v1'' 0 0
      = poison (sample_message (Some ''{'')) ''MALFORMED_JSON'' ''Value is not valid JSON''"
    by (simp add: parse_debezium_message_def sample_message_def)
  then obtain pm where "parse_debezium_message (\<lambda>_. []) (sample_message (Some ''{'')) ''v1'' 0 0 = Inr pm"
    by (simp add: poison_def sample_message_def from_timestamp_ms_exact)
  with parse_faithful [OF this] show ?thesis by simp
qed


end
