(* ===== verification/Cdc_Config.thy ===== *)
theory Cdc_Config
  imports Py_Json Complex_Main
begin

text \<open>
  The two settings modules of the CDC path: \<open>ingestion/cdc_consumer/config.py\<close> and
  \<open>ingestion/cdc/config.py\<close>. The environment is an association list; every rejected value is a
  \<open>ConfigurationError\<close>. A \<open>float\<close> is its exact decimal value, so the rounding to 53 bits is not
  modelled; infinities and \<open>NaN\<close> are, since \<open>NaN\<close> passes the test \<open>value <= 0\<close>.
\<close>

type_synonym environ = "(string \<times> string) list"

datatype pyfloat = Fin rat | Infinite bool | Not_a_Number

section \<open>Reading the environment\<close>

definition env_get :: "environ \<Rightarrow> string \<Rightarrow> string \<Rightarrow> string" where
  "env_get env name fallback = (case map_of env name of None \<Rightarrow> fallback | Some v \<Rightarrow> v)"

definition required :: "environ \<Rightarrow> string \<Rightarrow> string \<Rightarrow> string result" where
  "required env name fallback =
     (let value = py_strip (env_get env name fallback) in
      if value = [] then Inl (Configuration_Error (name @ '' must not be empty'')) else Inr value)"

definition bounded_int :: "environ \<Rightarrow> string \<Rightarrow> int \<Rightarrow> int \<Rightarrow> int \<Rightarrow> int result" where
  "bounded_int env name fallback minimum maximum =
     (case int_of_text (py_strip (env_get env name (show_int fallback))) of
        Inl _ \<Rightarrow> Inl (Configuration_Error (name @ '' must be an integer''))
      | Inr value \<Rightarrow>
          if minimum \<le> value \<and> value \<le> maximum then Inr value
          else Inl (Configuration_Error (name @ '' must be between '' @ show_int minimum @ '' and '' @ show_int maximum)))"

text \<open>\<open>float(text)\<close>: a sign, then a special name or digits with an optional fraction and exponent.\<close>

definition digits_or_empty :: "string \<Rightarrow> bool" where
  "digits_or_empty s \<longleftrightarrow> s = [] \<or> underscored_digits s"

definition digits_nat :: "string \<Rightarrow> nat" where
  "digits_nat s = nat_of_digits (filter (\<lambda>c. c \<noteq> CHR ''_'') s)"

definition unsigned_decimal :: "string \<Rightarrow> rat option" where
  "unsigned_decimal s =
     (let mantissa = takeWhile (\<lambda>c. c \<noteq> CHR ''e'' \<and> c \<noteq> CHR ''E'') s;
          after = drop (length mantissa) s;
          whole = takeWhile (\<lambda>c. c \<noteq> CHR ''.'') mantissa;
          frac = drop (Suc (length whole)) mantissa;
          fdigits = filter (\<lambda>c. c \<noteq> CHR ''_'') frac;
          expo = (if after = [] then Inr 0 else int_of_text (tl after))
      in if (whole = [] \<and> frac = []) \<or> \<not> digits_or_empty whole \<or> \<not> digits_or_empty frac
            \<or> (after \<noteq> [] \<and> (tl after = [] \<or> is_space (hd (tl after)) \<or> is_space (last after)))
         then None
         else case expo of
             Inl _ \<Rightarrow> None
           | Inr e \<Rightarrow> Some ((of_nat (digits_nat whole) + of_nat (digits_nat frac) / 10 ^ length fdigits)
                        * (if 0 \<le> e then 10 ^ nat e else 1 / 10 ^ nat (- e))))"

definition float_of_text :: "string \<Rightarrow> pyfloat result" where
  "float_of_text t =
     (let s = py_strip t; neg = (s \<noteq> [] \<and> hd s = CHR ''-'');
          body = (if s \<noteq> [] \<and> (hd s = CHR ''-'' \<or> hd s = CHR ''+'') then tl s else s)
      in if to_lower body \<in> {''inf'', ''infinity''} then Inr (Infinite neg)
         else if to_lower body = ''nan'' then Inr Not_a_Number
         else case unsigned_decimal body of
             None \<Rightarrow> Inl (Value_Error (''could not convert string to float: '' @ t))
           | Some q \<Rightarrow> Inr (Fin (if neg then - q else q)))"

text \<open>\<open>value <= 0\<close> is false of \<open>NaN\<close>.\<close>

fun float_le_zero :: "pyfloat \<Rightarrow> bool" where
  "float_le_zero (Fin q) = (q \<le> 0)"
| "float_le_zero (Infinite neg) = neg"
| "float_le_zero Not_a_Number = False"

definition positive_float :: "environ \<Rightarrow> string \<Rightarrow> string \<Rightarrow> pyfloat result" where
  "positive_float env name fallback =
     (case float_of_text (py_strip (env_get env name fallback)) of
        Inl _ \<Rightarrow> Inl (Configuration_Error (name @ '' must be a positive number''))
      | Inr value \<Rightarrow> if float_le_zero value then Inl (Configuration_Error (name @ '' must be a positive number''))
                     else Inr value)"

definition safe_name :: "string \<Rightarrow> string \<Rightarrow> string result" where
  "safe_name value name =
     (if safe_token 127 value then Inr value
      else Inl (Configuration_Error (name @ '' contains unsafe characters'')))"

definition bucket_edge :: "char \<Rightarrow> bool" where
  "bucket_edge c \<longleftrightarrow> (let n = of_char c :: nat in 48 \<le> n \<and> n \<le> 57 \<or> 97 \<le> n \<and> n \<le> 122)"

text \<open>\<open>[a-z0-9][a-z0-9.-]{1,61}[a-z0-9]\<close>.\<close>

definition SAFE_BUCKET :: "string \<Rightarrow> bool" where
  "SAFE_BUCKET s \<longleftrightarrow> 3 \<le> length s \<and> length s \<le> 63 \<and> bucket_edge (hd s) \<and> bucket_edge (last s)
     \<and> list_all (\<lambda>c. bucket_edge c \<or> c = CHR ''.'' \<or> c = CHR ''-'') s"

definition safe_bucket :: "string \<Rightarrow> string \<Rightarrow> string result" where
  "safe_bucket value name =
     (if SAFE_BUCKET value then Inr value
      else Inl (Configuration_Error (name @ '' must be a valid private S3 bucket name'')))"

text \<open>\<open>dict.fromkeys\<close>: the first occurrence of each text, in order.\<close>

fun dedup_first :: "string list \<Rightarrow> string list \<Rightarrow> string list" where
  "dedup_first seen [] = []"
| "dedup_first seen (x # xs) = (if x \<in> set seen then dedup_first seen xs else x # dedup_first (x # seen) xs)"

definition parse_topics :: "string \<Rightarrow> string list \<Rightarrow> string list result" where
  "parse_topics value allowed =
     (let topics = dedup_first [] (filter (\<lambda>s. s \<noteq> []) (map py_strip (split_on (CHR '','') value)));
          unsupported = sort (filter (\<lambda>s. s \<notin> set allowed) topics)
      in if topics = []
         then Inl (Configuration_Error ''CDC_CONSUMER_TOPICS must contain explicit topic names'')
         else if list_ex (\<lambda>s. \<not> safe_token 248 s) topics
         then Inl (Configuration_Error ''CDC_CONSUMER_TOPICS contains an invalid or wildcard topic'')
         else if unsupported \<noteq> []
         then Inl (Configuration_Error (''CDC_CONSUMER_TOPICS contains topics outside the allowlist: ''
                     @ join_with '', '' unsupported))
         else Inr topics)"

section \<open>Settings of the consumer\<close>

record CdcConsumerSettings =
  cs_bootstrap_servers :: string
  cs_group_id :: string
  cs_client_id :: string
  cs_topics :: "string list"
  cs_allowed_topics :: "string list"
  cs_auto_offset_reset :: string
  cs_batch_size :: int
  cs_flush_interval_seconds :: pyfloat
  cs_poll_timeout_ms :: int
  cs_max_poll_interval_ms :: int
  cs_session_timeout_ms :: int
  cs_heartbeat_interval_ms :: int
  cs_max_retries :: int
  cs_retry_backoff_seconds :: pyfloat
  cs_dlq_topic :: string
  cs_bronze_bucket :: string
  cs_quarantine_bucket :: string
  cs_schema_version :: string
  cs_manifest_path :: string
  cs_temp_dir :: string
  cs_shutdown_timeout_seconds :: int

definition CAPTURED_TABLES :: "string list" where
  "CAPTURED_TABLES = [''customers'', ''accounts'', ''merchants'', ''payment_transactions'',
     ''transaction_events'', ''refunds'']"

definition allowed_topics_for :: "string \<Rightarrow> string list" where
  "allowed_topics_for prefix = map (\<lambda>t. prefix @ ''.payments.'' @ t) CAPTURED_TABLES"

definition cdc_consumer_settings :: "environ \<Rightarrow> CdcConsumerSettings result" where
  "cdc_consumer_settings env =
     bindR (required env ''KAFKA_TOPIC_PREFIX'' ''fintech.cdc'') (\<lambda>prefix.
     let allowed = allowed_topics_for prefix in
     bindR (required env ''CDC_CONSUMER_TOPICS'' (join_with '','' (sort allowed))) (\<lambda>topics_value.
     bindR (required env ''CDC_CONSUMER_AUTO_OFFSET_RESET'' ''earliest'') (\<lambda>reset.
     bindR (requireR (reset \<in> {''earliest'', ''latest''})
              (Configuration_Error ''CDC_CONSUMER_AUTO_OFFSET_RESET must be earliest or latest'')) (\<lambda>_.
     bindR (bounded_int env ''CDC_CONSUMER_SESSION_TIMEOUT_MS'' 45000 6000 300000) (\<lambda>session.
     bindR (bounded_int env ''CDC_CONSUMER_HEARTBEAT_INTERVAL_MS'' 15000 1000 100000) (\<lambda>heartbeat.
     bindR (requireR (heartbeat < session)
              (Configuration_Error ''CDC_CONSUMER_HEARTBEAT_INTERVAL_MS must be less than session timeout'')) (\<lambda>_.
     bindR (required env ''KAFKA_BOOTSTRAP_SERVERS'' []) (\<lambda>bootstrap.
     bindR (bindR (required env ''CDC_CONSUMER_GROUP_ID'' ''fintech-cdc-bronze-v1'')
              (\<lambda>v. safe_name v ''CDC_CONSUMER_GROUP_ID'')) (\<lambda>grp.
     bindR (bindR (required env ''CDC_CONSUMER_CLIENT_ID'' ''fintech-cdc-bronze-consumer'')
              (\<lambda>v. safe_name v ''CDC_CONSUMER_CLIENT_ID'')) (\<lambda>client.
     bindR (parse_topics topics_value allowed) (\<lambda>topics.
     bindR (bounded_int env ''CDC_CONSUMER_BATCH_SIZE'' 100 1 100000) (\<lambda>batch_size.
     bindR (positive_float env ''CDC_CONSUMER_FLUSH_INTERVAL_SECONDS'' ''5.0'') (\<lambda>flush.
     bindR (bounded_int env ''CDC_CONSUMER_POLL_TIMEOUT_MS'' 1000 10 60000) (\<lambda>poll.
     bindR (bounded_int env ''CDC_CONSUMER_MAX_POLL_INTERVAL_MS'' 300000 10000 3600000) (\<lambda>max_poll.
     bindR (bounded_int env ''CDC_CONSUMER_MAX_RETRIES'' 3 1 10) (\<lambda>retries.
     bindR (positive_float env ''CDC_CONSUMER_RETRY_BACKOFF_SECONDS'' ''0.5'') (\<lambda>backoff.
     bindR (bindR (required env ''CDC_DLQ_TOPIC'' ''fintech.cdc.dlq'') (\<lambda>v. safe_name v ''CDC_DLQ_TOPIC'')) (\<lambda>dlq.
     bindR (bindR (required env ''CDC_BRONZE_BUCKET'' (env_get env ''MINIO_BRONZE_BUCKET'' ''fintech-bronze''))
              (\<lambda>v. safe_bucket v ''CDC_BRONZE_BUCKET'')) (\<lambda>bronze.
     bindR (bindR (required env ''CDC_QUARANTINE_BUCKET'' (env_get env ''MINIO_QUARANTINE_BUCKET'' ''fintech-quarantine''))
              (\<lambda>v. safe_bucket v ''CDC_QUARANTINE_BUCKET'')) (\<lambda>quarantine.
     bindR (bindR (required env ''CDC_SCHEMA_VERSION'' ''cdc-bronze-v1'') (\<lambda>v. safe_name v ''CDC_SCHEMA_VERSION'')) (\<lambda>schema.
     bindR (bounded_int env ''CDC_CONSUMER_SHUTDOWN_TIMEOUT_SECONDS'' 30 1 600) (\<lambda>shutdown.
       Inr \<lparr>cs_bootstrap_servers = bootstrap, cs_group_id = grp, cs_client_id = client, cs_topics = topics,
            cs_allowed_topics = allowed, cs_auto_offset_reset = reset, cs_batch_size = batch_size,
            cs_flush_interval_seconds = flush, cs_poll_timeout_ms = poll, cs_max_poll_interval_ms = max_poll,
            cs_session_timeout_ms = session, cs_heartbeat_interval_ms = heartbeat, cs_max_retries = retries,
            cs_retry_backoff_seconds = backoff, cs_dlq_topic = dlq, cs_bronze_bucket = bronze,
            cs_quarantine_bucket = quarantine, cs_schema_version = schema,
            cs_manifest_path = env_get env ''CDC_CONSUMER_MANIFEST_DB'' ''data/control/cdc_consumer_manifest.sqlite3'',
            cs_temp_dir = env_get env ''CDC_CONSUMER_TEMP_DIR'' ''data/tmp/cdc_consumer'',
            cs_shutdown_timeout_seconds = shutdown\<rparr>))))))))))))))))))))))"

definition with_overrides :: "CdcConsumerSettings \<Rightarrow> string list option \<Rightarrow> string option \<Rightarrow> int option
    \<Rightarrow> pyfloat option \<Rightarrow> CdcConsumerSettings result" where
  "with_overrides s topics group_id batch_size flush_interval =
     bindR (case topics of None \<Rightarrow> Inr (cs_topics s)
            | Some ts \<Rightarrow> parse_topics (join_with '','' ts) (cs_allowed_topics s)) (\<lambda>topics'.
     bindR (case group_id of None \<Rightarrow> Inr (cs_group_id s) | Some g \<Rightarrow> safe_name g ''group_id'') (\<lambda>grp.
     let updated = s\<lparr>cs_topics := topics', cs_group_id := grp,
           cs_batch_size := (case batch_size of None \<Rightarrow> cs_batch_size s | Some n \<Rightarrow> n),
           cs_flush_interval_seconds := (case flush_interval of None \<Rightarrow> cs_flush_interval_seconds s | Some f \<Rightarrow> f)\<rparr>
     in if cs_batch_size updated < 1 then Inl (Configuration_Error ''batch_size must be greater than zero'')
        else if float_le_zero (cs_flush_interval_seconds updated)
        then Inl (Configuration_Error ''flush_interval must be greater than zero'')
        else Inr updated))"

datatype config_value = Cfg_Str string | Cfg_Int int | Cfg_Bool bool

definition kafka_config :: "CdcConsumerSettings \<Rightarrow> (string \<times> config_value) list" where
  "kafka_config s =
     [(''bootstrap.servers'', Cfg_Str (cs_bootstrap_servers s)), (''group.id'', Cfg_Str (cs_group_id s)),
      (''client.id'', Cfg_Str (cs_client_id s)), (''auto.offset.reset'', Cfg_Str (cs_auto_offset_reset s)),
      (''enable.auto.commit'', Cfg_Bool False), (''enable.auto.offset.store'', Cfg_Bool False),
      (''max.poll.interval.ms'', Cfg_Int (cs_max_poll_interval_ms s)),
      (''session.timeout.ms'', Cfg_Int (cs_session_timeout_ms s)),
      (''heartbeat.interval.ms'', Cfg_Int (cs_heartbeat_interval_ms s))]"

section \<open>Accepted settings\<close>

definition wf_topics :: "string list \<Rightarrow> string list \<Rightarrow> bool" where
  "wf_topics allowed ts \<longleftrightarrow> ts \<noteq> [] \<and> distinct ts \<and> set ts \<subseteq> set allowed \<and> (\<forall>t \<in> set ts. safe_token 248 t)"

definition wf_settings :: "CdcConsumerSettings \<Rightarrow> bool" where
  "wf_settings s \<longleftrightarrow>
     wf_topics (cs_allowed_topics s) (cs_topics s)
     \<and> cs_bootstrap_servers s \<noteq> []
     \<and> (\<forall>v \<in> {cs_group_id s, cs_client_id s, cs_dlq_topic s, cs_schema_version s}. safe_token 127 v)
     \<and> (\<forall>v \<in> {cs_bronze_bucket s, cs_quarantine_bucket s}. SAFE_BUCKET v)
     \<and> cs_auto_offset_reset s \<in> {''earliest'', ''latest''}
     \<and> 1 \<le> cs_batch_size s
     \<and> \<not> float_le_zero (cs_flush_interval_seconds s) \<and> \<not> float_le_zero (cs_retry_backoff_seconds s)
     \<and> cs_heartbeat_interval_ms s < cs_session_timeout_ms s
     \<and> cs_session_timeout_ms s \<in> {6000..300000} \<and> cs_poll_timeout_ms s \<in> {10..60000}
     \<and> cs_max_retries s \<in> {1..10}"

lemma set_dedup_first: "set (dedup_first seen xs) = set xs - set seen"
  by (induction xs arbitrary: seen) auto

lemma distinct_dedup_first: "distinct (dedup_first seen xs)"
  by (induction xs arbitrary: seen) (auto simp: set_dedup_first)

lemma sort_eq_Nil: "sort xs = [] \<longleftrightarrow> xs = []"
  by (metis length_0_conv length_sort)

lemma parse_topics_wf: "parse_topics v allowed = Inr ts \<Longrightarrow> wf_topics allowed ts"
  by (auto simp: parse_topics_def Let_def wf_topics_def list_ex_iff sort_eq_Nil filter_empty_conv
      distinct_dedup_first split: if_splits)

lemma required_nonempty: "required env n d = Inr v \<Longrightarrow> v \<noteq> []"
  by (auto simp: required_def Let_def split: if_splits)

lemma bounded_int_range: "bounded_int env n d lo hi = Inr v \<Longrightarrow> lo \<le> v \<and> v \<le> hi"
  by (auto simp: bounded_int_def split: sum.splits if_splits)

lemma positive_float_positive: "positive_float env n d = Inr v \<Longrightarrow> \<not> float_le_zero v"
  by (auto simp: positive_float_def split: sum.splits if_splits)

lemma safe_name_Inr: "safe_name v n = Inr w \<longleftrightarrow> w = v \<and> safe_token 127 v"
  by (auto simp: safe_name_def)

lemma safe_bucket_Inr: "safe_bucket v n = Inr w \<longleftrightarrow> w = v \<and> SAFE_BUCKET v"
  by (auto simp: safe_bucket_def)

lemma cdc_consumer_settings_wf:
  assumes "cdc_consumer_settings env = Inr s"
  shows "wf_settings s \<and> cs_batch_size s \<le> 100000"
  using assms unfolding cdc_consumer_settings_def Let_def bindR_eq_Inr requireR_Inr
  apply (elim exE conjE)
  apply (drule Inr_inject)
  apply (drule parse_topics_wf | drule required_nonempty | drule bounded_int_range | drule positive_float_positive)+
  apply hypsubst
  apply (simp only: safe_name_Inr safe_bucket_Inr)
  apply (elim conjE)
  apply (simp only: wf_settings_def CdcConsumerSettings.select_convs)
  apply simp
  done

lemma with_overrides_wf:
  assumes "wf_settings s" and "with_overrides s topics grp n f = Inr t"
  shows "wf_settings t \<and> cs_allowed_topics t = cs_allowed_topics s"
proof -
  obtain ts g where t: "t = s\<lparr>cs_topics := ts, cs_group_id := g, cs_batch_size := cs_batch_size t,
      cs_flush_interval_seconds := cs_flush_interval_seconds t\<rparr>"
    and ts: "(case topics of None \<Rightarrow> Inr (cs_topics s)
        | Some us \<Rightarrow> parse_topics (join_with '','' us) (cs_allowed_topics s)) = Inr ts"
    and g: "(case grp of None \<Rightarrow> Inr (cs_group_id s) | Some h \<Rightarrow> safe_name h ''group_id'') = Inr g"
    and b: "1 \<le> cs_batch_size t" "\<not> float_le_zero (cs_flush_interval_seconds t)"
    using assms(2) unfolding with_overrides_def Let_def bindR_eq_Inr by (auto split: if_splits)
  have "wf_topics (cs_allowed_topics s) ts" "safe_token 127 g"
    using ts g assms(1) by (auto simp: wf_settings_def safe_name_Inr dest: parse_topics_wf split: option.splits)
  with assms(1) b show ?thesis by (subst (1 2) t) (simp add: wf_settings_def)
qed


definition sample_environ :: environ where
  "sample_environ = [(''KAFKA_BOOTSTRAP_SERVERS'', ''kafka:9092''), (''CDC_CONSUMER_BATCH_SIZE'', '' 2 ''),
     (''CDC_CONSUMER_TOPICS'', ''p.payments.refunds''), (''KAFKA_TOPIC_PREFIX'', ''p'')]"

definition sample_consumer_settings :: CdcConsumerSettings where
  "sample_consumer_settings =
     \<lparr>cs_bootstrap_servers = ''kafka:9092'', cs_group_id = ''fintech-cdc-bronze-v1'',
      cs_client_id = ''fintech-cdc-bronze-consumer'', cs_topics = [''p.payments.refunds''],
      cs_allowed_topics = allowed_topics_for ''p'', cs_auto_offset_reset = ''earliest'', cs_batch_size = 2,
      cs_flush_interval_seconds = Fin 5, cs_poll_timeout_ms = 1000, cs_max_poll_interval_ms = 300000,
      cs_session_timeout_ms = 45000, cs_heartbeat_interval_ms = 15000, cs_max_retries = 3,
      cs_retry_backoff_seconds = Fin (1 / 2), cs_dlq_topic = ''fintech.cdc.dlq'',
      cs_bronze_bucket = ''fintech-bronze'', cs_quarantine_bucket = ''fintech-quarantine'',
      cs_schema_version = ''cdc-bronze-v1'',
      cs_manifest_path = env_get sample_environ ''CDC_CONSUMER_MANIFEST_DB'' ''data/control/cdc_consumer_manifest.sqlite3'',
      cs_temp_dir = env_get sample_environ ''CDC_CONSUMER_TEMP_DIR'' ''data/tmp/cdc_consumer'',
      cs_shutdown_timeout_seconds = 30\<rparr>"

lemma sample_settings: "cdc_consumer_settings sample_environ = Inr sample_consumer_settings"
proof -
  have strs: "required sample_environ ''KAFKA_TOPIC_PREFIX'' ''fintech.cdc'' = Inr ''p''"
    "required sample_environ ''CDC_CONSUMER_TOPICS'' (join_with '','' (sort (allowed_topics_for ''p'')))
       = Inr ''p.payments.refunds''"
    "required sample_environ ''CDC_CONSUMER_AUTO_OFFSET_RESET'' ''earliest'' = Inr ''earliest''"
    "required sample_environ ''KAFKA_BOOTSTRAP_SERVERS'' [] = Inr ''kafka:9092''"
    "required sample_environ ''CDC_CONSUMER_GROUP_ID'' ''fintech-cdc-bronze-v1'' = Inr ''fintech-cdc-bronze-v1''"
    "required sample_environ ''CDC_CONSUMER_CLIENT_ID'' ''fintech-cdc-bronze-consumer'' = Inr ''fintech-cdc-bronze-consumer''"
    "required sample_environ ''CDC_DLQ_TOPIC'' ''fintech.cdc.dlq'' = Inr ''fintech.cdc.dlq''"
    "required sample_environ ''CDC_BRONZE_BUCKET'' (env_get sample_environ ''MINIO_BRONZE_BUCKET'' ''fintech-bronze'')
       = Inr ''fintech-bronze''"
    "required sample_environ ''CDC_QUARANTINE_BUCKET'' (env_get sample_environ ''MINIO_QUARANTINE_BUCKET'' ''fintech-quarantine'')
       = Inr ''fintech-quarantine''"
    "required sample_environ ''CDC_SCHEMA_VERSION'' ''cdc-bronze-v1'' = Inr ''cdc-bronze-v1''"
    by code_simp+
  have names: "safe_name ''fintech-cdc-bronze-v1'' ''CDC_CONSUMER_GROUP_ID'' = Inr ''fintech-cdc-bronze-v1''"
    "safe_name ''fintech-cdc-bronze-consumer'' ''CDC_CONSUMER_CLIENT_ID'' = Inr ''fintech-cdc-bronze-consumer''"
    "safe_name ''fintech.cdc.dlq'' ''CDC_DLQ_TOPIC'' = Inr ''fintech.cdc.dlq''"
    "safe_name ''cdc-bronze-v1'' ''CDC_SCHEMA_VERSION'' = Inr ''cdc-bronze-v1''"
    "safe_bucket ''fintech-bronze'' ''CDC_BRONZE_BUCKET'' = Inr ''fintech-bronze''"
    "safe_bucket ''fintech-quarantine'' ''CDC_QUARANTINE_BUCKET'' = Inr ''fintech-quarantine''"
    "parse_topics ''p.payments.refunds'' (allowed_topics_for ''p'') = Inr [''p.payments.refunds'']"
    by code_simp+
  have digits: "show_int 45000 = ''45000''" "show_int 15000 = ''15000''" "show_int 100 = ''100''"
    "show_int 1000 = ''1000''" "show_int 300000 = ''300000''" "show_int 3 = ''3''" "show_int 30 = ''30''"
    by (simp_all add: show_int_def show_nat.simps char_of_def bit_0)
  have nums: "bounded_int sample_environ ''CDC_CONSUMER_SESSION_TIMEOUT_MS'' 45000 6000 300000 = Inr 45000"
    "bounded_int sample_environ ''CDC_CONSUMER_HEARTBEAT_INTERVAL_MS'' 15000 1000 100000 = Inr 15000"
    "bounded_int sample_environ ''CDC_CONSUMER_BATCH_SIZE'' 100 1 100000 = Inr 2"
    "bounded_int sample_environ ''CDC_CONSUMER_POLL_TIMEOUT_MS'' 1000 10 60000 = Inr 1000"
    "bounded_int sample_environ ''CDC_CONSUMER_MAX_POLL_INTERVAL_MS'' 300000 10000 3600000 = Inr 300000"
    "bounded_int sample_environ ''CDC_CONSUMER_MAX_RETRIES'' 3 1 10 = Inr 3"
    "bounded_int sample_environ ''CDC_CONSUMER_SHUTDOWN_TIMEOUT_SECONDS'' 30 1 600 = Inr 30"
    "positive_float sample_environ ''CDC_CONSUMER_FLUSH_INTERVAL_SECONDS'' ''5.0'' = Inr (Fin 5)"
    "positive_float sample_environ ''CDC_CONSUMER_RETRY_BACKOFF_SECONDS'' ''0.5'' = Inr (Fin (1 / 2))"
    by (simp_all add: bounded_int_def positive_float_def float_of_text_def unsigned_decimal_def digits_or_empty_def
        digits_nat_def env_get_def sample_environ_def py_strip_def is_space_def digits
        int_of_text_def Let_def nat_of_digits_def digit_value_def is_digit_def to_lower_def lower_char_def)
  have "requireR (''earliest'' \<in> {''earliest'', ''latest''}) e = Inr ()" "requireR ((15000 :: int) < 45000) e = Inr ()" for e
    by simp_all
  note facts = strs names nums this
  show ?thesis
    by (simp only: cdc_consumer_settings_def sample_consumer_settings_def Let_def facts bindR_Inr cong: bindR_weak_cong)
qed


end
