(* ===== verification/Cdc_Consumer.thy ===== *)
theory Cdc_Consumer
  imports Cdc_Batching Cdc_Recovery Cdc_Envelope Cdc_Config
begin

text \<open>
  \<open>ingestion/cdc_consumer/consumer.py\<close>: \<open>ReliableCdcConsumer\<close>. The Kafka client is a parameter:
  a run is given the list of its poll results, each with the rebalance callbacks and signals that
  arrive during the call and the clock readings of the iteration. The list bounds the loop, so a
  run that is still polling at its end is a value of its own (\<open>None\<close>), not an error. Closing the
  client invokes the revocation callback for the partitions it still owns, as its documentation says.
\<close>

section \<open>What the client delivers\<close>

record KafkaMessage =
  km_topic :: string
  km_partition :: int
  km_offset :: int
  km_key :: "bytes option"
  km_value :: "bytes option"
  km_timestamp_ms :: "int option"

text \<open>The reply of \<open>committed()\<close>: an exception or the offsets of the partitions asked for.\<close>

type_synonym committed_reply = "string + (TopicPartitionKey \<times> int option) list"

datatype client_event =
    Assigned "TopicPartitionKey list" committed_reply
  | Revoked "TopicPartitionKey list" instant
  | Signalled

datatype poll_result =
    No_Message
  | Poll_Error bool string \<comment> \<open>whether the error is the end of a partition, and its text\<close>
  | Message KafkaMessage

record poll_step =
  ps_events :: "client_event list"
  ps_result :: poll_result
  ps_monotonic :: rat
  ps_ingested_at :: instant
  ps_date_clock :: instant
  ps_batch_clock :: instant

section \<open>The consumer\<close>

record Counters =
  ct_polled :: int
  ct_events :: int
  ct_poison :: int
  ct_heartbeats :: int
  ct_batches :: int
  ct_committed :: int

record ('st, 'k) ConsumerParts =
  cp_settings :: CdcConsumerSettings
  cp_client :: "'k offset_client"
  cp_processor :: "('st, 'k) CdcBatchProcessor"
  cp_dlq :: "'st MinioQuarantineDlq"
  cp_dry_run :: bool
  cp_repr :: "json \<Rightarrow> string"

record ('st, 'k) ReliableCdcConsumer =
  rc_world :: "('st, 'k) cdc_world"
  rc_batcher :: PartitionBatcher
  rc_stop :: bool
  rc_counters :: Counters
  rc_fatal :: bool
  rc_assignment_seen :: bool

definition zero_counters :: Counters where
  "zero_counters = \<lparr>ct_polled = 0, ct_events = 0, ct_poison = 0, ct_heartbeats = 0, ct_batches = 0, ct_committed = 0\<rparr>"

text \<open>\<open>timedelta\<close> refuses \<open>NaN\<close> and infinite seconds.\<close>

definition new_consumer :: "('st, 'k) ConsumerParts \<Rightarrow> ('st, 'k) cdc_world \<Rightarrow> ('st, 'k) ReliableCdcConsumer result" where
  "new_consumer C w =
     (case cs_flush_interval_seconds (cp_settings C) of
        Not_a_Number \<Rightarrow> Inl (Value_Error ''cannot convert float NaN to integer'')
      | Infinite _ \<Rightarrow> Inl (Overflow_Error ''cannot convert float infinity to integer'')
      | Fin q \<Rightarrow>
          bindR (new_batcher (cs_batch_size (cp_settings C)) q) (\<lambda>b.
            Inr \<lparr>rc_world = w, rc_batcher = b, rc_stop = False, rc_counters = zero_counters,
                 rc_fatal = False, rc_assignment_seen = False\<rparr>))"

type_synonym ('st, 'k, 'a) consumer_eff = "(('st, 'k) ReliableCdcConsumer, 'a) eff"

definition on_world :: "(('st, 'k) cdc_world, 'a) eff \<Rightarrow> ('st, 'k, 'a) consumer_eff" where
  "on_world m s = (case m (rc_world s) of (r, w) \<Rightarrow> (r, s\<lparr>rc_world := w\<rparr>))"

definition on_batcher :: "(PartitionBatcher, 'a) eff \<Rightarrow> ('st, 'k, 'a) consumer_eff" where
  "on_batcher m s = (case m (rc_batcher s) of (r, b) \<Rightarrow> (r, s\<lparr>rc_batcher := b\<rparr>))"

definition bump :: "(Counters \<Rightarrow> Counters) \<Rightarrow> ('st, 'k, unit) consumer_eff" where
  "bump f = modifyE (\<lambda>s. s\<lparr>rc_counters := f (rc_counters s)\<rparr>)"

definition count_committed :: "('st, 'k, unit) consumer_eff" where
  "count_committed = bump (\<lambda>c. c\<lparr>ct_committed := ct_committed c + 1\<rparr>)"

definition flush_batch :: "('st, 'k) ConsumerParts \<Rightarrow> CdcBatch \<Rightarrow> ('st, 'k, unit) consumer_eff" where
  "flush_batch C b =
     seqE (bump (\<lambda>c. c\<lparr>ct_batches := ct_batches c + 1\<rparr>))
       (if cp_dry_run C then returnE ()
        else seqE (on_world (process_batch (cp_processor C) b)) count_committed)"

definition flush_batches :: "('st, 'k) ConsumerParts \<Rightarrow> CdcBatch list \<Rightarrow> ('st, 'k, unit) consumer_eff" where
  "flush_batches C batches = forE batches (flush_batch C)"

definition flush_from :: "('st, 'k) ConsumerParts \<Rightarrow> (PartitionBatcher, CdcBatch list) eff \<Rightarrow> ('st, 'k, unit) consumer_eff" where
  "flush_from C m = bindE (on_batcher m) (flush_batches C)"

definition on_revoke :: "('st, 'k) ConsumerParts \<Rightarrow> TopicPartitionKey list \<Rightarrow> instant \<Rightarrow> ('st, 'k, unit) consumer_eff" where
  "on_revoke C keys clock = flush_from C (flush_partitions keys clock)"

text \<open>The dictionary of usable offsets: a later entry for a partition replaces an earlier one.\<close>

definition known_offsets :: "(TopicPartitionKey \<times> int option) list \<Rightarrow> ((string \<times> int) \<times> int) list" where
  "known_offsets items =
     fold (\<lambda>(k, n) d. case n of
             Some i \<Rightarrow> if 0 \<le> i then AList.update (tp_topic k, tp_partition k) i d else d
           | None \<Rightarrow> d) items []"

definition on_assign :: "('st, 'k) ConsumerParts \<Rightarrow> TopicPartitionKey list \<Rightarrow> committed_reply
    \<Rightarrow> ('st, 'k, unit) consumer_eff" where
  "on_assign C partitions reply =
     seqE (modifyE (\<lambda>s. s\<lparr>rc_assignment_seen := True\<rparr>))
       (if cp_dry_run C \<or> partitions = [] then returnE ()
        else case reply of
            Inl _ \<Rightarrow> raiseE (Connection_Error ''Could not inspect committed Kafka offsets'')
          | Inr items \<Rightarrow>
              seqE (on_world (on_db (reconcile_committed_offsets (bp_consumer_group (cp_processor C)) (known_offsets items))))
                (returnE ()))"

definition request_stop :: "('st, 'k, unit) consumer_eff" where
  "request_stop = modifyE (\<lambda>s. s\<lparr>rc_stop := True\<rparr>)"

fun client_callback :: "('st, 'k) ConsumerParts \<Rightarrow> client_event \<Rightarrow> ('st, 'k, unit) consumer_eff" where
  "client_callback C (Assigned ks reply) = on_assign C ks reply"
| "client_callback C (Revoked ks clock) = on_revoke C ks clock"
| "client_callback C Signalled = request_stop"

definition raw_message :: "KafkaMessage \<Rightarrow> RawKafkaMessage" where
  "raw_message m =
     \<lparr>rm_topic = km_topic m, rm_partition = km_partition m, rm_offset = km_offset m, rm_key = km_key m,
      rm_value = km_value m,
      rm_timestamp_ms = (case km_timestamp_ms m of Some t \<Rightarrow> if 0 \<le> t then Some t else None | None \<Rightarrow> None)\<rparr>"

definition commit_record :: "('st, 'k) ConsumerParts \<Rightarrow> RawKafkaMessage \<Rightarrow> ('st, 'k, unit) consumer_eff" where
  "commit_record C raw =
     seqE (on_world (on_kafka (kafka_commit (cp_client C) (raw_topic_partition raw) (rm_offset raw + 1))))
       count_committed"

definition write_poison :: "('st, 'k) ConsumerParts \<Rightarrow> PoisonEvent \<Rightarrow> ('st, 'k, unit) consumer_eff" where
  "write_poison C p = seqE (on_world (on_store (dlq_write (cp_dlq C) (\<lambda>_. returnE ()) p))) (returnE ())"

definition handle_event :: "('st, 'k) ConsumerParts \<Rightarrow> instant \<Rightarrow> BronzeEvent \<Rightarrow> ('st, 'k, unit) consumer_eff" where
  "handle_event C clock e =
     seqE (bump (\<lambda>c. c\<lparr>ct_events := ct_events c + 1\<rparr>)) (flush_from C (batcher_add e clock))"

definition handle_poison :: "('st, 'k) ConsumerParts \<Rightarrow> instant \<Rightarrow> RawKafkaMessage \<Rightarrow> PoisonEvent
    \<Rightarrow> ('st, 'k, unit) consumer_eff" where
  "handle_poison C clock raw p =
     seqE (bump (\<lambda>c. c\<lparr>ct_poison := ct_poison c + 1\<rparr>))
     (seqE (flush_from C (flush_partition (raw_topic_partition raw) clock))
       (if cp_dry_run C then returnE () else seqE (write_poison C p) (commit_record C raw)))"

definition handle_heartbeat :: "('st, 'k) ConsumerParts \<Rightarrow> RawKafkaMessage \<Rightarrow> ('st, 'k, unit) consumer_eff" where
  "handle_heartbeat C raw =
     seqE (bump (\<lambda>c. c\<lparr>ct_heartbeats := ct_heartbeats c + 1\<rparr>))
       (if cp_dry_run C then returnE () else commit_record C raw)"

definition parse_step :: "('st, 'k) ConsumerParts \<Rightarrow> poll_step \<Rightarrow> KafkaMessage \<Rightarrow> ParsedMessage result" where
  "parse_step C p m = parse_debezium_message (cp_repr C) (raw_message m) (cs_schema_version (cp_settings C))
     (ps_ingested_at p) (ps_date_clock p)"

definition handle_message :: "('st, 'k) ConsumerParts \<Rightarrow> poll_step \<Rightarrow> KafkaMessage \<Rightarrow> ('st, 'k, unit) consumer_eff" where
  "handle_message C p m =
     seqE (bump (\<lambda>c. c\<lparr>ct_polled := ct_polled c + 1\<rparr>))
     (bindE (liftE (parse_step C p m)) (\<lambda>parsed.
        case pm_kind parsed of
          EVENT \<Rightarrow> (case pm_event parsed of
              None \<Rightarrow> raiseE (Assertion_Error [])
            | Some e \<Rightarrow> handle_event C (ps_batch_clock p) e)
        | POISON \<Rightarrow> (case pm_poison parsed of
              None \<Rightarrow> raiseE (Assertion_Error [])
            | Some x \<Rightarrow> handle_poison C (ps_batch_clock p) (pm_raw parsed) x)
        | HEARTBEAT \<Rightarrow> handle_heartbeat C (raw_message m)))"

section \<open>The loop\<close>

text \<open>What one iteration decides: poll again, with the number of empty polls so far, or leave the loop.\<close>

datatype loop_exit = Continue nat | Break

definition empty_poll :: "bool \<Rightarrow> rat \<Rightarrow> nat \<Rightarrow> poll_step \<Rightarrow> ('st, 'k, loop_exit) consumer_eff" where
  "empty_poll once deadline empty_polls p =
     (if \<not> once then returnE (Continue empty_polls)
      else bindE (getE rc_assignment_seen) (\<lambda>seen.
        if \<not> seen
        then if deadline \<le> ps_monotonic p
             then raiseE (Timeout_Error ''Kafka assignment was not received during bounded run'')
             else returnE (Continue empty_polls)
        else if 2 \<le> empty_polls + 1 then returnE Break else returnE (Continue (empty_polls + 1))))"

definition poll_once :: "('st, 'k) ConsumerParts \<Rightarrow> bool \<Rightarrow> int option \<Rightarrow> rat \<Rightarrow> nat \<Rightarrow> poll_step
    \<Rightarrow> ('st, 'k, loop_exit) consumer_eff" where
  "poll_once C once max_messages deadline empty_polls p =
     seqE (forE (ps_events p) (client_callback C))
       (case ps_result p of
          No_Message \<Rightarrow>
            seqE (flush_from C (flush_due (ps_batch_clock p))) (empty_poll once deadline empty_polls p)
        | Poll_Error eof text \<Rightarrow> if eof then returnE (Continue 0) else raiseE (Kafka_Exception text)
        | Message m \<Rightarrow>
            seqE (handle_message C p m)
              (bindE (getE (\<lambda>s. ct_polled (rc_counters s))) (\<lambda>polled.
                 case max_messages of
                   Some n \<Rightarrow> if n \<le> polled then returnE Break else returnE (Continue 0)
                 | None \<Rightarrow> returnE (Continue 0))))"

text \<open>The \<open>while\<close> loop; \<open>False\<close> when the poll results are used up before it ends.\<close>

fun poll_loop :: "('st, 'k) ConsumerParts \<Rightarrow> bool \<Rightarrow> int option \<Rightarrow> rat \<Rightarrow> nat \<Rightarrow> poll_step list
    \<Rightarrow> ('st, 'k, bool) consumer_eff" where
  "poll_loop C once max_messages deadline empty_polls [] = getE rc_stop"
| "poll_loop C once max_messages deadline empty_polls (p # ps) =
     bindE (getE rc_stop) (\<lambda>stop.
       if stop then returnE True
       else bindE (poll_once C once max_messages deadline empty_polls p) (\<lambda>x. case x of
          Break \<Rightarrow> returnE True
        | Continue n \<Rightarrow> poll_loop C once max_messages deadline n ps))"

definition run_body :: "('st, 'k) ConsumerParts \<Rightarrow> bool \<Rightarrow> int option \<Rightarrow> rat \<Rightarrow> poll_step list \<Rightarrow> instant
    \<Rightarrow> ('st, 'k, bool) consumer_eff" where
  "run_body C once max_messages deadline script clock =
     bindE (poll_loop C once max_messages deadline 0 script) (\<lambda>ended.
       if ended then seqE (flush_from C (flush_all clock)) (returnE True) else returnE False)"

definition run_result :: "('st, 'k) ConsumerParts \<Rightarrow> ('st, 'k) ReliableCdcConsumer \<Rightarrow> ConsumerRunResult" where
  "run_result C s = (let c = rc_counters s in
     \<lparr>polled_count = ct_polled c, event_count = ct_events c, poison_count = ct_poison c,
      heartbeat_count = ct_heartbeats c, batch_count = ct_batches c, committed_count = ct_committed c,
      result_dry_run = cp_dry_run C\<rparr>)"

definition once_deadline :: "('st, 'k) ConsumerParts \<Rightarrow> rat \<Rightarrow> rat" where
  "once_deadline C start = start + min 30 (max 10 (of_int (cs_session_timeout_ms (cp_settings C)) / 1000))"

text \<open>
  \<open>run\<close>: \<open>script\<close> are the poll results, \<open>closing\<close> the callbacks of \<open>close()\<close>, which runs in the
  \<open>finally\<close> clause and whose exception replaces the one in flight. \<open>None\<close>: still polling.
\<close>

definition close_client :: "('st, 'k) ConsumerParts \<Rightarrow> client_event list \<Rightarrow> ('st, 'k, unit) consumer_eff" where
  "close_client C closing = forE closing (client_callback C)"

definition consumer_run :: "('st, 'k) ConsumerParts \<Rightarrow> bool \<Rightarrow> int option \<Rightarrow> rat \<Rightarrow> poll_step list \<Rightarrow> instant
    \<Rightarrow> client_event list \<Rightarrow> ('st, 'k, ConsumerRunResult option) consumer_eff" where
  "consumer_run C once max_messages start script clock closing =
     (if (case max_messages of None \<Rightarrow> False | Some n \<Rightarrow> n \<le> 0)
      then raiseE (Value_Error ''max_messages must be greater than zero'')
      else bindE (catchE (run_body C once max_messages (once_deadline C start) script clock)
                    (\<lambda>e. seqE (modifyE (\<lambda>s. s\<lparr>rc_fatal := True\<rparr>)) (seqE (close_client C closing) (raiseE e))))
        (\<lambda>ended. if ended then seqE (close_client C closing) (getE (\<lambda>s. Some (run_result C s)))
                 else returnE None))"

end
