(* ===== verification/Cdc_Delivery.thy ===== *)
theory Cdc_Delivery
  imports Cdc_Consumer
begin

text \<open>
  Correctness of the consumer loop of \<open>Cdc_Consumer\<close> across its components: parser, batcher,
  upload protocol and dead-letter writer. The locale \<open>reliable_consumer\<close> wires them the way
  \<open>cli._run\<close> does. The invariant \<open>consuming\<close> relates the records handled so far, the batches not
  yet processed, the pending queues and the committed offsets.
\<close>

section \<open>Secured records\<close>

definition event_secured :: "('st \<Rightarrow> string \<Rightarrow> string \<Rightarrow> bytes option) \<Rightarrow> ('st, 'k) CdcBatchProcessor
    \<Rightarrow> ('st, 'k) cdc_world \<Rightarrow> BronzeEvent \<Rightarrow> bool" where
  "event_secured obj P w e \<longleftrightarrow> (\<exists>b. durable_evidence obj P b w \<and> e \<in> set (cb_events b))"

text \<open>The quarantine bucket holds the evidence of a poison record under its key.\<close>

definition poison_secured :: "('st \<Rightarrow> string \<Rightarrow> string \<Rightarrow> bytes option) \<Rightarrow> 'st MinioQuarantineDlq
    \<Rightarrow> ('st, 'k) cdc_world \<Rightarrow> PoisonEvent \<Rightarrow> bool" where
  "poison_secured obj D w p \<longleftrightarrow>
     (\<exists>key d. poison_key D p = Inr key \<and> obj (w_store w) (os_quarantine_bucket (dq_storage D)) key = Some d
        \<and> sha256_hex d = sha256_hex (poison_bytes p (dq_consumer_group D)))"

definition record_secured :: "('st \<Rightarrow> string \<Rightarrow> string \<Rightarrow> bytes option) \<Rightarrow> ('st, 'k) ConsumerParts
    \<Rightarrow> ('st, 'k) cdc_world \<Rightarrow> ParsedMessage \<Rightarrow> bool" where
  "record_secured obj C w pm \<longleftrightarrow>
     (case pm_kind pm of
        EVENT \<Rightarrow> (\<exists>e. pm_event pm = Some e \<and> event_secured obj (cp_processor C) w e)
      | POISON \<Rightarrow> (\<exists>p. pm_poison pm = Some p \<and> poison_secured obj (cp_dlq C) w p)
      | HEARTBEAT \<Rightarrow> True)"

text \<open>The records of a run, in the order of their arrival.\<close>

definition step_record :: "('st, 'k) ConsumerParts \<Rightarrow> poll_step \<Rightarrow> ParsedMessage list" where
  "step_record C p =
     (case ps_result p of
        Message m \<Rightarrow> (case parse_step C p m of Inr pm \<Rightarrow> [pm] | Inl _ \<Rightarrow> [])
      | _ \<Rightarrow> [])"

definition delivered :: "('st, 'k) ConsumerParts \<Rightarrow> poll_step list \<Rightarrow> ParsedMessage list" where
  "delivered C script = concat (map (step_record C) script)"

abbreviation record_partition :: "ParsedMessage \<Rightarrow> TopicPartitionKey" where
  "record_partition pm \<equiv> raw_topic_partition (pm_raw pm)"

abbreviation record_offset :: "ParsedMessage \<Rightarrow> int" where
  "record_offset pm \<equiv> rm_offset (pm_raw pm)"

text \<open>Kafka delivers each partition in the order of its offsets.\<close>

definition in_order :: "ParsedMessage list \<Rightarrow> bool" where
  "in_order = sorted_wrt (\<lambda>a b. record_partition a = record_partition b \<longrightarrow> record_offset a < record_offset b)"

text \<open>Heartbeats arrive on partitions that carry no change events.\<close>

definition heartbeats_apart :: "ParsedMessage list \<Rightarrow> bool" where
  "heartbeats_apart pms \<longleftrightarrow>
     (\<forall>a \<in> set pms. \<forall>b \<in> set pms. pm_kind a = HEARTBEAT \<and> pm_kind b = EVENT \<longrightarrow>
        record_partition a \<noteq> record_partition b)"

section \<open>Rules of the consumer's operations\<close>

lemma wp_on_world [wp_rules]:
  "wp (on_world m) Q E s = wp m (\<lambda>x w. Q x (s\<lparr>rc_world := w\<rparr>)) (\<lambda>e w. E e (s\<lparr>rc_world := w\<rparr>)) (rc_world s)"
  by (auto simp: wp_def on_world_def split: prod.splits sum.splits)

lemma wp_on_batcher:
  "m (rc_batcher s) = (Inr x, b) \<Longrightarrow> wp (on_batcher m) Q E s = Q x (s\<lparr>rc_batcher := b\<rparr>)"
  by (simp add: wp_def on_batcher_def)

lemma wp_bump [wp_rules]: "wp (bump f) Q E s = Q () (s\<lparr>rc_counters := f (rc_counters s)\<rparr>)"
  by (simp add: bump_def wp_rules)

lemma wp_count_committed [wp_rules]:
  "wp count_committed Q E s
     = Q () (s\<lparr>rc_counters := (rc_counters s)\<lparr>ct_committed := ct_committed (rc_counters s) + 1\<rparr>\<rparr>)"
  by (simp add: count_committed_def wp_rules)

lemma flush_partitions_law:
  assumes "batcher_inv s"
  shows "\<exists>bs s'. flush_partitions ks t s = (Inr bs, s') \<and> batcher_inv s' \<and> (\<forall>b \<in> set bs. wf_batch b)
    \<and> (\<forall>k. batch_events k bs @ queue s' k = queue s k) \<and> (\<forall>k \<in> set ks. queue s' k = [])"
proof -
  from batcher.feed_flush_empties [OF assms, of ks t] obtain bs s' where
    "feed_flush flush_partition ks t s = (Inr bs, s')" "batcher_inv s'" "\<forall>b \<in> set bs. wf_batch b"
    "\<forall>k. queue s' k = (if k \<in> set ks then [] else queue s k)"
    "\<forall>k. batch_events k bs = (if k \<in> set ks then queue s k else [])" by blast
  then show ?thesis by (intro exI [of _ bs] exI [of _ s']) (simp add: flush_partitions_feed)
qed

lemma flush_all_law:
  assumes "batcher_inv s"
  shows "\<exists>bs s'. flush_all t s = (Inr bs, s') \<and> batcher_inv s' \<and> (\<forall>b \<in> set bs. wf_batch b)
    \<and> (\<forall>k. batch_events k bs @ queue s' k = queue s k) \<and> (\<forall>k. queue s' k = [])"
proof -
  from flush_partitions_law [OF assms, of "map fst (pb_pending s)" t] obtain bs s' where r:
    "flush_partitions (map fst (pb_pending s)) t s = (Inr bs, s')" "batcher_inv s'" "\<forall>b \<in> set bs. wf_batch b"
    "\<forall>k. batch_events k bs @ queue s' k = queue s k" "\<forall>k \<in> set (map fst (pb_pending s)). queue s' k = []" by blast
  have "queue s' k = []" for k
  proof (cases "k \<in> set (map fst (pb_pending s))")
    case False
    then have "queue s k = []" using queue_nonempty_key by blast
    with r(4) show ?thesis by (metis Nil_is_append_conv)
  qed (use r(5) in blast)
  with r show ?thesis by (simp add: flush_all_def)
qed

lemma flush_due_law:
  assumes "batcher_inv s"
  shows "\<exists>bs s'. flush_due t s = (Inr bs, s') \<and> batcher_inv s' \<and> (\<forall>b \<in> set bs. wf_batch b)
    \<and> (\<forall>k. batch_events k bs @ queue s' k = queue s k)"
  using flush_partitions_law [OF assms] by (fastforce simp: flush_due_def)

lemma flush_one_law:
  assumes "batcher_inv s"
  shows "\<exists>bs s'. flush_partition k t s = (Inr bs, s') \<and> batcher_inv s' \<and> (\<forall>b \<in> set bs. wf_batch b)
    \<and> (\<forall>j. batch_events j bs @ queue s' j = queue s j) \<and> queue s' k = []"
proof -
  from flush_partition_law [OF assms, of k t] obtain bs s' where r: "flush_partition k t s = (Inr bs, s')"
    "batcher_inv s'" "batches_ok (pb_batch_size s) k bs" "concat (map cb_events bs) = queue s k"
    "queue s' = (queue s)(k := [])" by blast
  have "batch_events j bs @ queue s' j = queue s j" for j
    using r batcher.batch_events_same [OF r(3)] batcher.batch_events_other [OF r(3), of j] by (cases "j = k") auto
  with r show ?thesis by (auto simp: batches_ok_def)
qed

lemma add_one_law:
  assumes "batcher_inv s"
  shows "\<exists>bs s'. batcher_add e t s = (Inr bs, s') \<and> batcher_inv s' \<and> (\<forall>b \<in> set bs. wf_batch b)
    \<and> (\<forall>k. batch_events k bs @ queue s' k = queue s k @ (if k = event_topic_partition e then [e] else []))"
proof -
  from batcher_add_law [OF assms, of e t] obtain bs s' where r: "batcher_add e t s = (Inr bs, s')" "batcher_inv s'"
    "batches_ok (pb_batch_size s) (event_topic_partition e) bs"
    "concat (map cb_events bs) @ queue s' (event_topic_partition e) = queue s (event_topic_partition e) @ [e]"
    "\<forall>k. k \<noteq> event_topic_partition e \<longrightarrow> queue s' k = queue s k" by blast
  have "batch_events k bs @ queue s' k = queue s k @ (if k = event_topic_partition e then [e] else [])" for k
    using r batcher.batch_events_same [OF r(3)] batcher.batch_events_other [OF r(3), of k]
    by (cases "k = event_topic_partition e") auto
  with r show ?thesis by (auto simp: batches_ok_def)
qed

lemma wf_batch_last_event:
  assumes "wf_batch b"
  shows "\<exists>e \<in> set (cb_events b). be_kafka_offset e = next_offset b - 1"
proof -
  have "cb_events b \<noteq> []" using assms by (simp add: wf_batch_def)
  then show ?thesis
    using wf_batch_offsets [OF assms, of "next_offset b - 1"] wf_batch_next_offset [OF assms]
    by (cases "cb_events b") auto
qed


section \<open>The invariant of a run\<close>

locale reliable_consumer =
  batch_protocol "cp_processor C" ok obj offsets
  for C :: "('st, 'k) ConsumerParts" and ok obj offsets +
  assumes same_client: "cp_client C = bp_committer (cp_processor C)"
    and dlq_store: "os_backend (dq_storage (cp_dlq C)) = os_backend (bp_storage (cp_processor C))"
    and dlq_policy: "wf_policy (dq_retry_policy (cp_dlq C))"
    and live: "\<not> cp_dry_run C"
begin

definition kept :: "('st, 'k) cdc_world \<Rightarrow> ParsedMessage \<Rightarrow> bool" where
  "kept w pm \<longleftrightarrow>
     (case pm_kind pm of
        EVENT \<Rightarrow> (\<exists>e b. pm_event pm = Some e \<and> evidence b w \<and> e \<in> set (cb_events b))
      | POISON \<Rightarrow> (\<exists>p. pm_poison pm = Some p \<and> poison_secured obj (cp_dlq C) w p)
      | HEARTBEAT \<Rightarrow> True)"

definition waiting :: "CdcBatch list \<Rightarrow> ('st, 'k) ReliableCdcConsumer \<Rightarrow> TopicPartitionKey \<Rightarrow> BronzeEvent list" where
  "waiting todo s k = batch_events k todo @ queue (rc_batcher s) k"

definition event_of :: "ParsedMessage \<Rightarrow> TopicPartitionKey \<Rightarrow> BronzeEvent \<Rightarrow> bool" where
  "event_of pm k e \<longleftrightarrow> pm_kind pm = EVENT \<and> pm_event pm = Some e \<and> record_partition pm = k
     \<and> record_offset pm = be_kafka_offset e"

definition offset_safe :: "('st, 'k) cdc_world \<Rightarrow> ParsedMessage list \<Rightarrow> CdcBatch list
    \<Rightarrow> ('st, 'k) ReliableCdcConsumer \<Rightarrow> TopicPartitionKey \<Rightarrow> bool" where
  "offset_safe w0 handled todo s k \<longleftrightarrow>
     offsets (w_kafka (rc_world s)) k = offsets (w_kafka w0) k
     \<or> (\<exists>n. offsets (w_kafka (rc_world s)) k = Some n
          \<and> (\<forall>e \<in> set (waiting todo s k). n \<le> be_kafka_offset e)
          \<and> (\<exists>pm \<in> set handled. record_partition pm = k \<and> n \<le> record_offset pm + 1))"

definition consuming :: "('st, 'k) cdc_world \<Rightarrow> ParsedMessage list \<Rightarrow> CdcBatch list
    \<Rightarrow> ('st, 'k) ReliableCdcConsumer \<Rightarrow> bool" where
  "consuming w0 handled todo s \<longleftrightarrow>
     follows w0 (rc_world s) \<and> batcher_inv (rc_batcher s) \<and> (\<forall>b \<in> set todo. wf_batch b)
     \<and> (\<forall>k. sorted_wrt (\<lambda>a b. be_kafka_offset a < be_kafka_offset b) (waiting todo s k))
     \<and> (\<forall>pm \<in> set handled. kept (rc_world s) pm
          \<or> (\<exists>e. event_of pm (record_partition pm) e \<and> e \<in> set (waiting todo s (record_partition pm))))
     \<and> (\<forall>k. \<forall>e \<in> set (waiting todo s k). \<exists>pm \<in> set handled. event_of pm k e)
     \<and> (\<forall>k. offset_safe w0 handled todo s k)"

lemma consuming_frame:
  "rc_world t = rc_world s \<Longrightarrow> rc_batcher t = rc_batcher s \<Longrightarrow> consuming w0 hs bs t = consuming w0 hs bs s"
  by (simp add: consuming_def offset_safe_def waiting_def)

lemma consuming_counters [simp]:
  "consuming w0 hs bs (s\<lparr>rc_counters := c\<rparr>) = consuming w0 hs bs s"
  "consuming w0 hs bs (s\<lparr>rc_counters := c, rc_world := w\<rparr>) = consuming w0 hs bs (s\<lparr>rc_world := w\<rparr>)"
  "consuming w0 hs bs (s\<lparr>rc_stop := x\<rparr>) = consuming w0 hs bs s"
  "consuming w0 hs bs (s\<lparr>rc_assignment_seen := y\<rparr>) = consuming w0 hs bs s"
  by (rule consuming_frame; simp)+

lemma poison_secured_keeps:
  "poison_secured obj D w p \<Longrightarrow> store_keeps ok obj (w_store w) (w_store v) \<Longrightarrow> poison_secured obj D v p"
  by (auto simp: poison_secured_def store_keeps_def)

lemma kept_follows: "sound w \<Longrightarrow> kept w pm \<Longrightarrow> follows w v \<Longrightarrow> kept v pm"
  unfolding kept_def
  by (auto split: ParseKind.splits intro: evidence_follows poison_secured_keeps simp: follows_def)
    (metis evidence_follows follows_def)+

lemma consuming_sound: "consuming w0 hs bs s \<Longrightarrow> sound (rc_world s)"
  unfolding consuming_def using follows_sound by blast

lemma waiting_world [simp]: "waiting bs (s\<lparr>rc_world := w\<rparr>) k = waiting bs s k"
  by (simp add: waiting_def)

text \<open>The world grows and the offsets stay.\<close>

lemma consuming_calm:
  assumes "consuming w0 hs bs s" and "calm (rc_world s) w"
  shows "consuming w0 hs bs (s\<lparr>rc_world := w\<rparr>)"
proof -
  have "kept w pm" if "kept (rc_world s) pm" for pm
    using kept_follows [OF consuming_sound [OF assms(1)] that] assms(2) by (simp add: calm_def)
  with assms follows_trans show ?thesis
    unfolding consuming_def calm_def offset_safe_def by auto
qed

text \<open>The first waiting batch has become durable and its partition's offset has moved past it.\<close>

lemma batch_events_Cons:
  "batch_events k (b # bs) = (if batch_topic_partition b = k then cb_events b else []) @ batch_events k bs"
  by (simp add: batch_events_def)

lemma consuming_processed:
  assumes "consuming w0 hs (b # bs) s" and "follows (rc_world s) w" and "evidence b w" and "advanced b (rc_world s) w"
  shows "consuming w0 hs bs (s\<lparr>rc_world := w\<rparr>)"
proof -
  let ?t = "s\<lparr>rc_world := w\<rparr>" and ?k = "batch_topic_partition b"
  have wait: "waiting (b # bs) s k = (if k = ?k then cb_events b else []) @ waiting bs s k" for k
    by (auto simp: waiting_def batch_events_Cons)
  have wf: "wf_batch b" using assms(1) by (simp add: consuming_def)
  have fol: "follows w0 w" using assms(1,2) follows_trans by (auto simp: consuming_def)
  have sorted: "sorted_wrt (\<lambda>a b. be_kafka_offset a < be_kafka_offset b) (waiting (b # bs) s k)" for k
    using assms(1) by (simp add: consuming_def)
  have hand: "kept w pm \<or> (\<exists>e. event_of pm (record_partition pm) e \<and> e \<in> set (waiting bs s (record_partition pm)))"
    if "pm \<in> set hs" for pm
  proof -
    from assms(1) that consider "kept (rc_world s) pm"
      | e where "event_of pm (record_partition pm) e" "e \<in> set (waiting (b # bs) s (record_partition pm))"
      unfolding consuming_def by blast
    then show ?thesis
    proof cases
      case 1
      then show ?thesis using kept_follows [OF consuming_sound [OF assms(1)] _ assms(2)] by blast
    next
      case 2
      then show ?thesis
        using assms(3) by (auto simp: wait kept_def event_of_def split: if_splits)
    qed
  qed
  have off: "offset_safe w0 hs bs ?t k" for k
  proof (cases "k = ?k")
    case True
    obtain e where e: "e \<in> set (cb_events b)" "be_kafka_offset e = next_offset b - 1"
      using wf_batch_last_event [OF wf] by blast
    have "next_offset b \<le> be_kafka_offset e'" if e': "e' \<in> set (waiting bs s k)" for e'
    proof -
      have "be_kafka_offset e < be_kafka_offset e'"
        using sorted [of ?k] True e' e(1) by (simp add: wait sorted_wrt_append)
      with e(2) show ?thesis by simp
    qed
    moreover obtain pm where "pm \<in> set hs" "event_of pm ?k e"
      using assms(1) e(1) unfolding consuming_def wait by fastforce
    ultimately show ?thesis
      using True assms(4) e(2) unfolding offset_safe_def advanced_def event_of_def by auto
  next
    case False
    have "offset_safe w0 hs (b # bs) s k" using assms(1) by (simp add: consuming_def)
    then show ?thesis
      using False assms(4) unfolding offset_safe_def advanced_def by (auto simp: wait)
  qed
  show ?thesis
    unfolding consuming_def
  proof (intro conjI allI ballI)
    show "sorted_wrt (\<lambda>a b. be_kafka_offset a < be_kafka_offset b) (waiting bs ?t k)" for k
      using sorted [of k] by (simp add: wait sorted_wrt_append)
    show "\<exists>pm\<in>set hs. event_of pm k e" if "e \<in> set (waiting bs ?t k)" for k e
      using assms(1) that unfolding consuming_def wait by auto
  qed (use assms(1) fol hand off in \<open>auto simp: consuming_def\<close>)
qed

text \<open>Processing the waiting batches in order.\<close>

lemma consuming_flush_batches:
  assumes "consuming w0 hs bs s"
  shows "wp (flush_batches C bs) (\<lambda>_ t. consuming w0 hs [] t \<and> rc_batcher t = rc_batcher s
      \<and> ct_polled (rc_counters t) = ct_polled (rc_counters s))
    (\<lambda>_ t. \<exists>todo. consuming w0 hs todo t) s"
  using assms
proof (induction bs arbitrary: s)
  case Nil
  then show ?case by (simp add: flush_batches_def wp_rules)
next
  case (Cons b bs)
  let ?s = "s\<lparr>rc_counters := (rc_counters s)\<lparr>ct_batches := ct_batches (rc_counters s) + 1\<rparr>\<rparr>"
  have "consuming w0 hs (b # bs) ?s" using Cons.prems by simp
  note proc = process_guarded [OF consuming_sound [OF this], of b]
  have ok: "consuming w0 hs bs (?s\<lparr>rc_world := w\<rparr>)" if "completed b (rc_world ?s) r w" for r w
    using that consuming_processed [of w0 hs b bs ?s w] Cons.prems by (simp add: completed_def guarded_def)
  have bad: "\<exists>todo. consuming w0 hs todo (?s\<lparr>rc_world := w\<rparr>)" if g: "guarded b (rc_world ?s) w" for w
  proof (cases "offsets (w_kafka w) = offsets (w_kafka (rc_world ?s))")
    case True
    with g have "calm (rc_world ?s) w" by (simp add: guarded_def calm_def)
    then show ?thesis using consuming_calm [of w0 hs "b # bs" ?s w] Cons.prems by auto
  next
    case False
    with g have "follows (rc_world ?s) w" "evidence b w" "advanced b (rc_world ?s) w"
      by (auto simp: guarded_def)
    then show ?thesis using consuming_processed [of w0 hs b bs ?s w] Cons.prems by auto
  qed
  have rest: "wp (flush_batches C bs) (\<lambda>_ t. consuming w0 hs [] t \<and> rc_batcher t = rc_batcher s
      \<and> ct_polled (rc_counters t) = ct_polled (rc_counters s)) (\<lambda>_ t. \<exists>todo. consuming w0 hs todo t)
      (?s\<lparr>rc_world := w, rc_counters := (rc_counters ?s)\<lparr>ct_committed := n\<rparr>\<rparr>)"
    if "completed b (rc_world ?s) r w" for r w n
    using Cons.IH [of "?s\<lparr>rc_world := w, rc_counters := (rc_counters ?s)\<lparr>ct_committed := n\<rparr>\<rparr>"] ok [OF that]
    by simp
  show ?case
    unfolding flush_batches_def forE.simps flush_batch_def [of C b] wp_seqE wp_bump wp_if if_not_P [OF live] wp_on_world
    using rest bad by (intro wp_mono [OF proc]) (simp_all add: wp_rules flush_batches_def)
qed


text \<open>Taking batches out of the queues leaves what is waiting as it was.\<close>

lemma consuming_emit:
  assumes "consuming w0 hs [] s" and "batcher_inv b'" and "\<forall>b \<in> set bs. wf_batch b"
    and "\<forall>k. batch_events k bs @ queue b' k = queue (rc_batcher s) k"
  shows "consuming w0 hs bs (s\<lparr>rc_batcher := b'\<rparr>)"
proof -
  have "waiting bs (s\<lparr>rc_batcher := b'\<rparr>) k = waiting [] s k" for k
    using assms(4) by (simp add: waiting_def batch_events_def)
  with assms(1-3) show ?thesis unfolding consuming_def offset_safe_def by simp
qed

definition quiet :: "('st, 'k) ReliableCdcConsumer \<Rightarrow> ('st, 'k) ReliableCdcConsumer \<Rightarrow> bool" where
  "quiet s t \<longleftrightarrow> ct_polled (rc_counters t) = ct_polled (rc_counters s)"

lemma consuming_flush_from:
  assumes "consuming w0 hs [] s"
    and "m (rc_batcher s) = (Inr bs, b')" and "batcher_inv b'" and "\<forall>b \<in> set bs. wf_batch b"
    and "\<forall>k. batch_events k bs @ queue b' k = queue (rc_batcher s) k"
  shows "wp (flush_from C m) (\<lambda>_ t. consuming w0 hs [] t \<and> rc_batcher t = b' \<and> quiet s t)
    (\<lambda>_ t. \<exists>todo. consuming w0 hs todo t) s"
  unfolding flush_from_def wp_bindE wp_on_batcher [of m, OF assms(2)]
  by (rule wp_mono [OF consuming_flush_batches [OF consuming_emit [OF assms(1,3-5)]]]) (simp_all add: quiet_def)

lemma consuming_batcher: "consuming w0 hs bs s \<Longrightarrow> batcher_inv (rc_batcher s)"
  by (simp add: consuming_def)

lemma consuming_on_revoke:
  assumes "consuming w0 hs [] s"
  shows "wp (on_revoke C ks t) (\<lambda>_ u. consuming w0 hs [] u \<and> quiet s u) (\<lambda>_ u. \<exists>todo. consuming w0 hs todo u) s"
proof -
  from flush_partitions_law [OF consuming_batcher [OF assms], of ks t] obtain bs b' where
    "flush_partitions ks t (rc_batcher s) = (Inr bs, b')" "batcher_inv b'" "\<forall>b \<in> set bs. wf_batch b"
    "\<forall>k. batch_events k bs @ queue b' k = queue (rc_batcher s) k" by blast
  from consuming_flush_from [of w0 hs s "flush_partitions ks t", OF assms this] show ?thesis
    unfolding on_revoke_def by (rule wp_mono) auto
qed

lemma keeps_reconcile_records: "preserves (manifest_keeps rows0) (reconcile_records os rs)"
  by (induction rs)
    (auto simp: reconcile_record_def Let_def intro!: preserves_rules keeps_mark_committed)

lemma keeps_reconcile: "preserves (manifest_keeps rows0) (reconcile_committed_offsets grp os)"
  unfolding reconcile_committed_offsets_def by (intro preserves_bindE keeps_recoverable keeps_reconcile_records)

lemma consuming_on_assign:
  assumes "consuming w0 hs [] s"
  shows "wp (on_assign C ks reply) (\<lambda>_ u. consuming w0 hs [] u \<and> quiet s u) (\<lambda>_ u. \<exists>todo. consuming w0 hs todo u) s"
proof -
  let ?s = "s\<lparr>rc_assignment_seen := True\<rparr>"
  have c: "consuming w0 hs [] ?s" using assms by simp
  have "wp (on_db (reconcile_committed_offsets grp os)) (\<lambda>_ v. calm (rc_world ?s) v) (\<lambda>_ v. calm (rc_world ?s) v) (rc_world ?s)"
    for grp os by (rule calm_any_db1 [OF calm_refl [OF consuming_sound [OF c]] keeps_reconcile])
  then have "wp (on_world (on_db (reconcile_committed_offsets grp os))) (\<lambda>_ u. consuming w0 hs [] u \<and> quiet s u)
      (\<lambda>_ u. \<exists>todo. consuming w0 hs todo u) ?s" for grp os
    unfolding wp_on_world by (rule wp_mono) (use consuming_calm [OF c] in \<open>auto simp: quiet_def\<close>)
  then show ?thesis
    unfolding on_assign_def wp_seqE wp_modifyE
    using c by (auto simp: wp_rules quiet_def split: sum.splits)
qed

lemma consuming_callback:
  assumes "consuming w0 hs [] s"
  shows "wp (client_callback C x) (\<lambda>_ u. consuming w0 hs [] u \<and> quiet s u) (\<lambda>_ u. \<exists>todo. consuming w0 hs todo u) s"
  using assms consuming_on_assign consuming_on_revoke
  by (cases x) (auto simp: request_stop_def wp_rules quiet_def)

lemma consuming_callbacks:
  assumes "consuming w0 hs [] s"
  shows "wp (forE xs (client_callback C)) (\<lambda>_ u. consuming w0 hs [] u \<and> quiet s u) (\<lambda>_ u. \<exists>todo. consuming w0 hs todo u) s"
  using assms
proof (induction xs arbitrary: s)
  case (Cons x xs)
  show ?case
    unfolding forE.simps wp_seqE
    by (rule wp_mono [OF consuming_callback [OF Cons.prems, of x]])
      (auto intro!: wp_mono [OF Cons.IH] simp: quiet_def)
qed (simp add: wp_rules quiet_def)

subsection \<open>Handling one record\<close>

text \<open>The next record: later than everything handled on its partition.\<close>

definition next_record :: "ParsedMessage list \<Rightarrow> ParsedMessage \<Rightarrow> bool" where
  "next_record hs pm \<longleftrightarrow> (\<forall>a \<in> set hs. record_partition a = record_partition pm \<longrightarrow> record_offset a < record_offset pm)"

lemma consuming_add:
  assumes "consuming w0 hs [] s" and "next_record hs pm" and "event_of pm (event_topic_partition e) e"
    and "batcher_inv b'" and "\<forall>b \<in> set bs. wf_batch b"
    and "\<forall>k. batch_events k bs @ queue b' k = queue (rc_batcher s) k @ (if k = event_topic_partition e then [e] else [])"
  shows "consuming w0 (hs @ [pm]) bs (s\<lparr>rc_batcher := b'\<rparr>)"
proof -
  let ?k = "event_topic_partition e" and ?t = "s\<lparr>rc_batcher := b'\<rparr>"
  have wait: "waiting bs ?t k = waiting [] s k @ (if k = ?k then [e] else [])" for k
    using assms(6) by (simp add: waiting_def batch_events_def)
  have pm: "record_partition pm = ?k" "record_offset pm = be_kafka_offset e"
    using assms(3) by (simp_all add: event_of_def)
  have later: "be_kafka_offset e' < be_kafka_offset e" if e': "e' \<in> set (waiting [] s ?k)" for e'
  proof -
    obtain a where "a \<in> set hs" "event_of a ?k e'" using assms(1) e' unfolding consuming_def by blast
    then show ?thesis using assms(2) pm by (auto simp: next_record_def event_of_def)
  qed
  have off: "offset_safe w0 (hs @ [pm]) bs ?t k" for k
  proof -
    have "offset_safe w0 hs [] s k" using assms(1) by (simp add: consuming_def)
    moreover have "n \<le> be_kafka_offset e" if "k = ?k" "a \<in> set hs" "record_partition a = k" "n \<le> record_offset a + 1" for a n
      using assms(2) that pm by (fastforce simp: next_record_def)
    ultimately show ?thesis unfolding offset_safe_def wait by auto
  qed
  show ?thesis
    unfolding consuming_def
  proof (intro conjI allI ballI)
    show "sorted_wrt (\<lambda>a b. be_kafka_offset a < be_kafka_offset b) (waiting bs ?t k)" for k
      using assms(1) later by (auto simp: consuming_def wait sorted_wrt_append)
    show "kept (rc_world ?t) a \<or> (\<exists>x. event_of a (record_partition a) x \<and> x \<in> set (waiting bs ?t (record_partition a)))"
      if "a \<in> set (hs @ [pm])" for a
      using assms(1,3) pm that by (auto simp: consuming_def wait)
    show "\<exists>a\<in>set (hs @ [pm]). event_of a k x" if "x \<in> set (waiting bs ?t k)" for k x
      using assms(1,3) that unfolding consuming_def wait by (auto split: if_splits)
  qed (use assms(1,4,5) off in \<open>auto simp: consuming_def\<close>)
qed

lemma consuming_handle_event:
  assumes "consuming w0 hs [] s" and "next_record hs pm" and "event_of pm (event_topic_partition e) e"
  shows "wp (handle_event C t e) (\<lambda>_ u. consuming w0 (hs @ [pm]) [] u \<and> quiet s u)
    (\<lambda>_ u. \<exists>todo. consuming w0 (hs @ [pm]) todo u) s"
proof -
  let ?s = "s\<lparr>rc_counters := (rc_counters s)\<lparr>ct_events := ct_events (rc_counters s) + 1\<rparr>\<rparr>"
  from add_one_law [OF consuming_batcher [OF assms(1)], of e t] obtain bs b' where b:
    "batcher_add e t (rc_batcher s) = (Inr bs, b')" "batcher_inv b'" "\<forall>b \<in> set bs. wf_batch b"
    "\<forall>k. batch_events k bs @ queue b' k = queue (rc_batcher s) k @ (if k = event_topic_partition e then [e] else [])"
    by blast
  have c: "consuming w0 hs [] ?s" using assms(1) by simp
  have add: "consuming w0 (hs @ [pm]) bs (?s\<lparr>rc_batcher := b'\<rparr>)"
    by (rule consuming_add [OF c assms(2,3) b(2,3)]) (use b(4) in simp)
  have run: "batcher_add e t (rc_batcher ?s) = (Inr bs, b')" using b(1) by simp
  show ?thesis
    unfolding handle_event_def wp_seqE wp_bump flush_from_def wp_bindE wp_on_batcher [of "batcher_add e t", OF run]
    by (rule wp_mono [OF consuming_flush_batches [OF add]]) (auto simp: quiet_def)
qed

text \<open>A record that needs no waiting: its partition has nothing pending and its offset is committed.\<close>

lemma consuming_commit_record:
  assumes "consuming w0 hs [] s" and "kept (rc_world s) pm" and "waiting [] s (record_partition pm) = []"
  shows "wp (commit_record C (pm_raw pm)) (\<lambda>_ u. consuming w0 (hs @ [pm]) [] u \<and> quiet s u)
    (\<lambda>_ u. \<exists>todo. consuming w0 (hs @ [pm]) todo u) s"
proof -
  let ?k = "record_partition pm" and ?n = "record_offset pm + 1"
  have moved: "consuming w0 (hs @ [pm]) [] (s\<lparr>rc_world := (rc_world s)\<lparr>w_kafka := k'\<rparr>\<rparr>)"
    if k': "offsets k' = offsets (w_kafka (rc_world s)) \<or> offsets k' = (offsets (w_kafka (rc_world s)))(?k \<mapsto> ?n)" for k'
  proof -
    let ?t = "s\<lparr>rc_world := (rc_world s)\<lparr>w_kafka := k'\<rparr>\<rparr>"
    have "follows (rc_world s) (rc_world ?t)"
      using consuming_sound [OF assms(1)] follows_refl by (simp add: follows_def)
    then have "kept (rc_world ?t) a" if "kept (rc_world s) a" for a
      using kept_follows [OF consuming_sound [OF assms(1)] that] by simp
    moreover have "offset_safe w0 (hs @ [pm]) [] ?t k" for k
    proof -
      have "offset_safe w0 hs [] s k" using assms(1) by (simp add: consuming_def)
      then show ?thesis using k' assms(3) unfolding offset_safe_def by auto
    qed
    moreover have "follows w0 (rc_world ?t)" using assms(1) by (simp add: consuming_def follows_def)
    ultimately show ?thesis using assms(1,2) unfolding consuming_def by auto
  qed
  have "wp (kafka_commit (cp_client C) ?k ?n)
      (\<lambda>_ k'. consuming w0 (hs @ [pm]) [] (s\<lparr>rc_world := (rc_world s)\<lparr>w_kafka := k'\<rparr>\<rparr>))
      (\<lambda>_ k'. consuming w0 (hs @ [pm]) [] (s\<lparr>rc_world := (rc_world s)\<lparr>w_kafka := k'\<rparr>\<rparr>)) (w_kafka (rc_world s))"
    unfolding same_client by (rule wp_mono [OF wp_kafka_commit]) (auto intro: moved)
  then show ?thesis
    unfolding commit_record_def wp_seqE wp_on_world wp_on_kafka wp_count_committed
    by (rule wp_mono) (auto simp: quiet_def)
qed

lemma wp_dlq_write:
  assumes "ok s"
  shows "wp (dlq_write (cp_dlq C) (\<lambda>_. returnE ()) p)
    (\<lambda>_ t. store_keeps ok obj s t \<and> (\<exists>key d. poison_key (cp_dlq C) p = Inr key
       \<and> obj t (os_quarantine_bucket (dq_storage (cp_dlq C))) key = Some d
       \<and> sha256_hex d = sha256_hex (poison_bytes p (dq_consumer_group (cp_dlq C)))))
    (\<lambda>_ t. store_keeps ok obj s t) s"
proof (cases "poison_key (cp_dlq C) p")
  case (Inr key)
  have "wp (retry_call (dq_retry_policy (cp_dlq C)) is_retryable (\<lambda>_. returnE ())
      (sb_put_bytes_immutable (os_backend (dq_storage (cp_dlq C))) (os_quarantine_bucket (dq_storage (cp_dlq C))) key
         (poison_bytes p (dq_consumer_group (cp_dlq C))) ''application/json''
         (dlq_metadata p (dq_dlq_name (cp_dlq C)) (dq_consumer_group (cp_dlq C)))))
      (\<lambda>x t. store_keeps ok obj s t \<and> (\<exists>d. obj t (os_quarantine_bucket (dq_storage (cp_dlq C))) key = Some d
         \<and> sha256_hex d = sha256_hex (poison_bytes p (dq_consumer_group (cp_dlq C)))))
      (\<lambda>_ t. store_keeps ok obj s t) s"
  proof (rule wp_retry_call [where I = "store_keeps ok obj s"])
    fix u assume u: "store_keeps ok obj s u"
    then have "ok u" by (simp add: store_keeps_def)
    from put_bytes_law [OF this plain_dlq_metadata] show "wp (sb_put_bytes_immutable (os_backend (dq_storage (cp_dlq C)))
        (os_quarantine_bucket (dq_storage (cp_dlq C))) key (poison_bytes p (dq_consumer_group (cp_dlq C))) ''application/json''
        (dlq_metadata p (dq_dlq_name (cp_dlq C)) (dq_consumer_group (cp_dlq C))))
      (\<lambda>x t. store_keeps ok obj s t \<and> (\<exists>d. obj t (os_quarantine_bucket (dq_storage (cp_dlq C))) key = Some d
         \<and> sha256_hex d = sha256_hex (poison_bytes p (dq_consumer_group (cp_dlq C)))))
      (\<lambda>e t. if is_retryable e then store_keeps ok obj s t else store_keeps ok obj s t) u"
      unfolding dlq_store by (rule wp_mono) (use keeps_trans [OF u] in \<open>auto simp: describes_def\<close>)
  qed (use assms dlq_policy keeps_refl in \<open>auto simp: wp_rules\<close>)
  then show ?thesis
    unfolding dlq_write_def Inr wp_rules sum.case by (rule wp_mono) auto
qed (simp add: dlq_write_def wp_rules keeps_refl assms)


definition halted :: "('st, 'k) cdc_world \<Rightarrow> ParsedMessage list \<Rightarrow> ParsedMessage list
    \<Rightarrow> ('st, 'k) ReliableCdcConsumer \<Rightarrow> bool" where
  "halted w0 hs xs s \<longleftrightarrow> (\<exists>n todo. consuming w0 (hs @ take n xs) todo s)"

lemma haltedI: "consuming w0 (hs @ take n xs) todo s \<Longrightarrow> halted w0 hs xs s"
  unfolding halted_def by blast

lemma halted_none: "\<exists>todo. consuming w0 hs todo s \<Longrightarrow> halted w0 hs xs s"
  using haltedI [of w0 hs 0 xs] by auto

lemma halted_one: "\<exists>todo. consuming w0 (hs @ [pm]) todo s \<Longrightarrow> halted w0 hs (pm # xs) s"
  using haltedI [of w0 hs 1 "pm # xs"] by auto

lemma consuming_handle_poison:
  assumes "consuming w0 hs [] s" and "pm_kind pm = POISON" and "pm_poison pm = Some p"
  shows "wp (handle_poison C t (pm_raw pm) p) (\<lambda>_ u. consuming w0 (hs @ [pm]) [] u \<and> quiet s u)
    (\<lambda>_ u. halted w0 hs (pm # xs) u) s"
proof -
  let ?k = "record_partition pm"
  let ?s = "s\<lparr>rc_counters := (rc_counters s)\<lparr>ct_poison := ct_poison (rc_counters s) + 1\<rparr>\<rparr>"
  have c: "consuming w0 hs [] ?s" using assms(1) by simp
  from flush_one_law [OF consuming_batcher [OF c], of ?k t] obtain bs b' where b:
    "flush_partition ?k t (rc_batcher ?s) = (Inr bs, b')" "batcher_inv b'" "\<forall>b \<in> set bs. wf_batch b"
    "\<forall>j. batch_events j bs @ queue b' j = queue (rc_batcher ?s) j" "queue b' ?k = []" by blast
  have tail: "wp (seqE (write_poison C p) (commit_record C (pm_raw pm)))
      (\<lambda>_ u. consuming w0 (hs @ [pm]) [] u \<and> quiet s u) (\<lambda>_ u. halted w0 hs (pm # xs) u) u"
    if u: "consuming w0 hs [] u" "rc_batcher u = b'" "quiet s u" for u
  proof -
    have oku: "ok (w_store (rc_world u))" using consuming_sound [OF u(1)] by (simp add: sound_def)
    have store: "calm (rc_world u) ((rc_world u)\<lparr>w_store := st\<rparr>)" if "store_keeps ok obj (w_store (rc_world u)) st" for st
      using that consuming_sound [OF u(1)] by (simp add: calm_def follows_def sound_def manifest_keeps_def)
    have "wp (write_poison C p)
        (\<lambda>_ v. consuming w0 hs [] v \<and> kept (rc_world v) pm \<and> rc_batcher v = b' \<and> quiet s v) (\<lambda>_ v. halted w0 hs (pm # xs) v) u"
      unfolding write_poison_def wp_seqE wp_returnE wp_on_world wp_on_store
      by (rule wp_mono [OF wp_dlq_write [OF oku]])
        (use u consuming_calm [OF u(1) store] assms(2,3) in
          \<open>auto simp: kept_def poison_secured_def quiet_def intro: halted_none [OF exI]\<close>)
    then show ?thesis
      unfolding wp_seqE [of "write_poison C p"]
    proof (rule wp_mono)
      fix v assume v: "consuming w0 hs [] v \<and> kept (rc_world v) pm \<and> rc_batcher v = b' \<and> quiet s v"
      then have "waiting [] v ?k = []" using b(5) by (simp add: waiting_def batch_events_def)
      then show "wp (commit_record C (pm_raw pm)) (\<lambda>_ u. consuming w0 (hs @ [pm]) [] u \<and> quiet s u)
          (\<lambda>_ u. halted w0 hs (pm # xs) u) v"
        using v by (intro wp_mono [OF consuming_commit_record]) (auto simp: quiet_def intro: halted_one)
    qed
  qed
  have flush: "wp (flush_from C (flush_partition ?k t)) (\<lambda>_ u. consuming w0 hs [] u \<and> rc_batcher u = b' \<and> quiet ?s u)
      (\<lambda>_ u. \<exists>todo. consuming w0 hs todo u) ?s"
    by (rule consuming_flush_from [OF c]) (use b in auto)
  show ?thesis
    unfolding handle_poison_def wp_seqE [of "bump _"] wp_bump wp_seqE [of "flush_from _ _"] if_not_P [OF live]
    by (rule wp_mono [OF flush], elim conjE, rule tail, assumption+, simp add: quiet_def, rule halted_none)
qed

lemma consuming_handle_heartbeat:
  assumes "consuming w0 hs [] s" and "pm_kind pm = HEARTBEAT" and "waiting [] s (record_partition pm) = []"
  shows "wp (handle_heartbeat C (pm_raw pm)) (\<lambda>_ u. consuming w0 (hs @ [pm]) [] u \<and> quiet s u)
    (\<lambda>_ u. halted w0 hs (pm # xs) u) s"
proof -
  let ?s = "s\<lparr>rc_counters := (rc_counters s)\<lparr>ct_heartbeats := ct_heartbeats (rc_counters s) + 1\<rparr>\<rparr>"
  have "consuming w0 hs [] ?s" "kept (rc_world ?s) pm" "waiting [] ?s (record_partition pm) = []"
    using assms by (simp_all add: kept_def waiting_def)
  then show ?thesis
    unfolding handle_heartbeat_def wp_seqE wp_bump wp_if if_not_P [OF live]
    by (intro wp_mono [OF consuming_commit_record]) (auto simp: quiet_def intro: halted_one)
qed

lemma faithful_event_of:
  assumes "faithful_record m pm" and "pm_kind pm = EVENT" and "pm_event pm = Some e"
  shows "event_of pm (event_topic_partition e) e"
  using assms by (auto simp: faithful_record_def faithful_event_def same_coordinates_as_def event_of_def
      raw_topic_partition_def event_topic_partition_def)

lemma consuming_handle_message:
  assumes "consuming w0 hs [] s" and "parse_step C p m = Inr pm" and "next_record hs pm"
    and "pm_kind pm = HEARTBEAT \<Longrightarrow> waiting [] s (record_partition pm) = []"
  shows "wp (handle_message C p m) (\<lambda>_ u. consuming w0 (hs @ [pm]) [] u
      \<and> ct_polled (rc_counters u) = ct_polled (rc_counters s) + 1) (\<lambda>_ u. halted w0 hs (pm # xs) u) s"
proof -
  let ?s = "s\<lparr>rc_counters := (rc_counters s)\<lparr>ct_polled := ct_polled (rc_counters s) + 1\<rparr>\<rparr>"
  have c: "consuming w0 hs [] ?s" using assms(1) by simp
  have f: "faithful_record (raw_message m) pm" using assms(2) parse_faithful by (auto simp: parse_step_def)
  then have raw: "raw_message m = pm_raw pm" by (simp add: faithful_record_def)
  have hb: "pm_kind pm = HEARTBEAT \<Longrightarrow> waiting [] ?s (record_partition pm) = []"
    using assms(4) by (simp add: waiting_def)
  have "wp (case pm_kind pm of
          EVENT \<Rightarrow> (case pm_event pm of None \<Rightarrow> raiseE (Assertion_Error []) | Some e \<Rightarrow> handle_event C (ps_batch_clock p) e)
        | POISON \<Rightarrow> (case pm_poison pm of None \<Rightarrow> raiseE (Assertion_Error [])
            | Some x \<Rightarrow> handle_poison C (ps_batch_clock p) (pm_raw pm) x)
        | HEARTBEAT \<Rightarrow> handle_heartbeat C (pm_raw pm))
      (\<lambda>_ u. consuming w0 (hs @ [pm]) [] u \<and> quiet ?s u) (\<lambda>_ u. halted w0 hs (pm # xs) u) ?s"
  proof (cases "pm_kind pm")
    case EVENT
    with f obtain e where e: "pm_event pm = Some e" by (auto simp: faithful_record_def)
    from consuming_handle_event [OF c assms(3) faithful_event_of [OF f EVENT e]] show ?thesis
      unfolding EVENT e ParseKind.case option.case by (rule wp_mono) (auto intro: halted_one)
  next
    case POISON
    with f obtain x where x: "pm_poison pm = Some x" by (auto simp: faithful_record_def)
    from consuming_handle_poison [OF c POISON x] show ?thesis by (simp add: POISON x)
  next
    case HEARTBEAT
    from consuming_handle_heartbeat [OF c HEARTBEAT hb [OF HEARTBEAT]] show ?thesis by (simp add: HEARTBEAT)
  qed
  then show ?thesis
    unfolding handle_message_def wp_seqE wp_bump wp_bindE wp_liftE assms(2) sum.case raw
    by (rule wp_mono) (auto simp: quiet_def)
qed


subsection \<open>The loop\<close>

text \<open>The state between two iterations: everything handled so far is secured or waiting.\<close>

definition ready :: "('st, 'k) cdc_world \<Rightarrow> int \<Rightarrow> ParsedMessage list \<Rightarrow> ParsedMessage list
    \<Rightarrow> ('st, 'k) ReliableCdcConsumer \<Rightarrow> bool" where
  "ready w0 c hs xs s \<longleftrightarrow> (\<exists>n \<le> length xs. consuming w0 (hs @ take n xs) [] s \<and> ct_polled (rc_counters s) = c + int n)"

lemma readyI:
  "consuming w0 (hs @ take n xs) [] s \<Longrightarrow> n \<le> length xs \<Longrightarrow> ct_polled (rc_counters s) = c + int n \<Longrightarrow> ready w0 c hs xs s"
  unfolding ready_def by blast

lemma ready_append: "ready w0 (c + int (length ys)) (hs @ ys) xs s \<Longrightarrow> ready w0 c hs (ys @ xs) s"
  unfolding ready_def by (elim exE conjE, rule_tac x = "length ys + n" in exI) auto

lemma halted_append: "halted w0 (hs @ ys) xs s \<Longrightarrow> halted w0 hs (ys @ xs) s"
  unfolding halted_def by (elim exE, rule_tac x = "length ys + n" in exI) auto

lemma in_order_next: "in_order (hs @ pm # xs) \<Longrightarrow> next_record hs pm"
  by (simp add: in_order_def next_record_def sorted_wrt_append)

lemma heartbeat_nothing_waiting:
  assumes "consuming w0 hs [] s" and "heartbeats_apart (hs @ pm # xs)" and "pm_kind pm = HEARTBEAT"
  shows "waiting [] s (record_partition pm) = []"
proof (rule ccontr)
  assume "waiting [] s (record_partition pm) \<noteq> []"
  then obtain e where "e \<in> set (waiting [] s (record_partition pm))" by (metis list.set_sel(1))
  then obtain a where "a \<in> set hs" "event_of a (record_partition pm) e"
    using assms(1) unfolding consuming_def by blast
  with assms(2,3) show False by (auto simp: heartbeats_apart_def event_of_def)
qed

definition iterated :: "('st, 'k) cdc_world \<Rightarrow> int \<Rightarrow> ParsedMessage list \<Rightarrow> ('st, 'k) ReliableCdcConsumer \<Rightarrow> bool" where
  "iterated w0 c hs s \<longleftrightarrow> consuming w0 hs [] s \<and> ct_polled (rc_counters s) = c"

lemma consuming_poll_once:
  assumes "consuming w0 hs [] s" and "in_order (hs @ step_record C p @ xs)" and "heartbeats_apart (hs @ step_record C p @ xs)"
  shows "wp (poll_once C once mx dl n p)
    (\<lambda>_ u. iterated w0 (ct_polled (rc_counters s) + int (length (step_record C p))) (hs @ step_record C p) u)
    (\<lambda>_ u. halted w0 hs (step_record C p @ xs) u) s"
proof -
  let ?Q = "\<lambda>_ u. iterated w0 (ct_polled (rc_counters s) + int (length (step_record C p))) (hs @ step_record C p) u"
  let ?E = "\<lambda>_ u. halted w0 hs (step_record C p @ xs) u"
  have none: "halted w0 hs (step_record C p @ xs) u" if "consuming w0 hs todo u" for u todo
    using halted_none that by blast
  have body: "wp (case ps_result p of
          No_Message \<Rightarrow> seqE (flush_from C (flush_due (ps_batch_clock p))) (empty_poll once dl n p)
        | Poll_Error eof text \<Rightarrow> if eof then returnE (Continue 0) else raiseE (Kafka_Exception text)
        | Message m \<Rightarrow>
            seqE (handle_message C p m)
              (bindE (getE (\<lambda>s. ct_polled (rc_counters s))) (\<lambda>polled.
                 case mx of Some n \<Rightarrow> if n \<le> polled then returnE Break else returnE (Continue 0)
                 | None \<Rightarrow> returnE (Continue 0)))) ?Q ?E t"
    if t: "consuming w0 hs [] t" "quiet s t" for t
  proof (cases "ps_result p")
    case No_Message
    then have sr: "step_record C p = []" by (simp add: step_record_def)
    from flush_due_law [OF consuming_batcher [OF t(1)], of "ps_batch_clock p"] obtain bs b' where b:
      "flush_due (ps_batch_clock p) (rc_batcher t) = (Inr bs, b')" "batcher_inv b'" "\<forall>b \<in> set bs. wf_batch b"
      "\<forall>k. batch_events k bs @ queue b' k = queue (rc_batcher t) k" by blast
    have fl: "wp (flush_from C (flush_due (ps_batch_clock p))) (\<lambda>_ u. consuming w0 hs [] u \<and> rc_batcher u = b' \<and> quiet t u)
        (\<lambda>_ u. \<exists>todo. consuming w0 hs todo u) t"
      by (rule consuming_flush_from [OF t(1)]) (use b in auto)
    have "wp (empty_poll once dl n p) ?Q ?E u" if "consuming w0 hs [] u" "quiet t u" for u
      using that t(2) none by (auto simp: empty_poll_def wp_rules iterated_def sr quiet_def)
    then show ?thesis
      unfolding No_Message poll_result.case wp_seqE by (intro wp_mono [OF fl]) (auto intro: none)
  next
    case (Poll_Error eof msg)
    then show ?thesis using t none by (auto simp: wp_rules iterated_def step_record_def quiet_def)
  next
    case (Message m)
    show ?thesis
    proof (cases "parse_step C p m")
      case (Inl e)
      then have "wp (handle_message C p m) (\<lambda>_ _. False) ?E t"
        using t none by (simp add: handle_message_def wp_rules)
      then show ?thesis
        unfolding Message poll_result.case wp_seqE by (rule wp_mono) auto
    next
      case (Inr pm)
      then have sr: "step_record C p = [pm]" by (simp add: step_record_def Message)
      have "next_record hs pm" using assms(2) by (intro in_order_next [of _ _ xs]) (simp add: sr)
      note hm = consuming_handle_message [OF t(1) Inr this heartbeat_nothing_waiting [OF t(1), of pm xs], where xs = xs]
      show ?thesis
        unfolding Message poll_result.case wp_seqE
        by (rule wp_mono [OF hm])
          (use assms(3) t(2) in \<open>auto simp: sr wp_rules iterated_def quiet_def split: option.splits\<close>)
    qed
  qed
  show ?thesis
    unfolding poll_once_def wp_seqE [of "forE _ _"]
    by (rule wp_mono [OF consuming_callbacks [OF assms(1)]]) (auto intro!: body intro: none)
qed

lemma consuming_poll_loop:
  assumes "consuming w0 hs [] s" and "in_order (hs @ delivered C script)" and "heartbeats_apart (hs @ delivered C script)"
  shows "wp (poll_loop C once mx dl n script) (\<lambda>_ u. ready w0 (ct_polled (rc_counters s)) hs (delivered C script) u)
    (\<lambda>_ u. halted w0 hs (delivered C script) u) s"
  using assms
proof (induction script arbitrary: hs s n)
  case Nil
  then show ?case by (auto simp: wp_rules delivered_def intro: readyI [where n = 0])
next
  case (Cons p ps)
  have del: "delivered C (p # ps) = step_record C p @ delivered C ps" by (simp add: delivered_def)
  let ?c = "ct_polled (rc_counters s)"
  have next_iteration: "wp (case x of Break \<Rightarrow> returnE True | Continue i \<Rightarrow> poll_loop C once mx dl i ps)
      (\<lambda>_ u. ready w0 ?c hs (delivered C (p # ps)) u) (\<lambda>_ u. halted w0 hs (delivered C (p # ps)) u) u"
    if "iterated w0 (?c + int (length (step_record C p))) (hs @ step_record C p) u" for x u
  proof -
    have u: "consuming w0 (hs @ step_record C p) [] u" "ct_polled (rc_counters u) = ?c + int (length (step_record C p))"
      using that by (simp_all add: iterated_def)
    show ?thesis
    proof (cases x)
      case (Continue i)
      have "wp (poll_loop C once mx dl i ps)
          (\<lambda>_ t. ready w0 (ct_polled (rc_counters u)) (hs @ step_record C p) (delivered C ps) t)
          (\<lambda>_ t. halted w0 (hs @ step_record C p) (delivered C ps) t) u"
        by (rule Cons.IH [OF u(1)]) (use Cons.prems(2,3) in \<open>simp_all add: del\<close>)
      then show ?thesis
        unfolding Continue loop_exit.case del by (rule wp_mono) (simp_all add: u(2) ready_append halted_append)
    next
      case Break
      with u show ?thesis by (auto simp: wp_rules del intro!: readyI [where n = "length (step_record C p)"])
    qed
  qed
  have "wp (poll_once C once mx dl n p)
      (\<lambda>_ u. iterated w0 (?c + int (length (step_record C p))) (hs @ step_record C p) u)
      (\<lambda>_ u. halted w0 hs (delivered C (p # ps)) u) s"
    unfolding del using Cons.prems by (intro consuming_poll_once) (simp_all add: del)
  then have "wp (bindE (poll_once C once mx dl n p) (\<lambda>x. case x of Break \<Rightarrow> returnE True | Continue i \<Rightarrow> poll_loop C once mx dl i ps))
      (\<lambda>_ u. ready w0 ?c hs (delivered C (p # ps)) u) (\<lambda>_ u. halted w0 hs (delivered C (p # ps)) u) s"
    unfolding wp_bindE by (rule wp_mono) (rule next_iteration)
  moreover have "ready w0 ?c hs (delivered C (p # ps)) s" using Cons.prems(1) by (intro readyI [where n = 0]) simp_all
  ultimately show ?case by (simp add: wp_rules)
qed


lemma consuming_run_body:
  assumes "consuming w0 [] [] s" and "in_order (delivered C script)" and "heartbeats_apart (delivered C script)"
  shows "wp (run_body C once mx dl script t)
    (\<lambda>ended u. ready w0 (ct_polled (rc_counters s)) [] (delivered C script) u
       \<and> (ended \<longrightarrow> (\<forall>k. queue (rc_batcher u) k = [])))
    (\<lambda>_ u. halted w0 [] (delivered C script) u) s"
proof -
  let ?c = "ct_polled (rc_counters s)" and ?xs = "delivered C script"
  have fin: "wp (seqE (flush_from C (flush_all t)) (returnE True))
      (\<lambda>ended u. ready w0 ?c [] ?xs u \<and> (ended \<longrightarrow> (\<forall>k. queue (rc_batcher u) k = [])))
      (\<lambda>_ u. halted w0 [] ?xs u) v" if r: "ready w0 ?c [] ?xs v" for v
  proof -
    obtain n where n: "n \<le> length ?xs" "consuming w0 ([] @ take n ?xs) [] v" "ct_polled (rc_counters v) = ?c + int n"
      using r by (auto simp: ready_def)
    from flush_all_law [OF consuming_batcher [OF n(2)], of t] obtain bs b' where b:
      "flush_all t (rc_batcher v) = (Inr bs, b')" "batcher_inv b'" "\<forall>b \<in> set bs. wf_batch b"
      "\<forall>k. batch_events k bs @ queue b' k = queue (rc_batcher v) k" "\<forall>k. queue b' k = []" by blast
    have fl: "wp (flush_from C (flush_all t)) (\<lambda>_ u. consuming w0 ([] @ take n ?xs) [] u \<and> rc_batcher u = b' \<and> quiet v u)
        (\<lambda>_ u. \<exists>todo. consuming w0 ([] @ take n ?xs) todo u) v"
      by (rule consuming_flush_from [OF n(2)]) (use b in auto)
    show ?thesis
      unfolding wp_seqE wp_returnE
      by (rule wp_mono [OF fl])
        (use b(5) n in \<open>auto simp: quiet_def intro: readyI [where hs = "[]"] haltedI [where hs = "[]"]\<close>)
  qed
  have "wp (poll_loop C once mx dl 0 script) (\<lambda>_ u. ready w0 ?c [] ?xs u) (\<lambda>_ u. halted w0 [] ?xs u) s"
    by (rule consuming_poll_loop) (use assms in simp_all)
  then show ?thesis
    unfolding run_body_def wp_bindE by (rule wp_mono) (auto simp: wp_returnE intro: fin)
qed

lemma kept_secured: "kept w pm \<Longrightarrow> record_secured obj C w pm"
  using evidence_durable
  by (auto simp: kept_def record_secured_def event_secured_def split: ParseKind.splits)

lemma consuming_start: "sound w \<Longrightarrow> new_consumer C w = Inr s \<Longrightarrow> consuming w [] [] s \<and> ct_polled (rc_counters s) = 0"
  using new_batcher_inv new_batcher_fields follows_refl
  by (fastforce simp: new_consumer_def bindR_eq_Inr consuming_def waiting_def batch_events_def offset_safe_def
      zero_counters_def split: pyfloat.splits)

text \<open>In every state a run may stop in, the committed offsets have passed only secured records.\<close>

lemma halted_committed_secured:
  assumes "halted w0 [] xs s" and "in_order xs" and "pm \<in> set xs"
    and "offsets (w_kafka (rc_world s)) (record_partition pm) = Some n"
    and "offsets (w_kafka w0) (record_partition pm) \<noteq> Some n" and "record_offset pm < n"
  shows "kept (rc_world s) pm"
proof -
  obtain j todo where c: "consuming w0 (take j xs) todo s" using assms(1) by (auto simp: halted_def)
  have "offset_safe w0 (take j xs) todo s (record_partition pm)" using c by (simp add: consuming_def)
  then obtain a where a: "\<forall>e \<in> set (waiting todo s (record_partition pm)). n \<le> be_kafka_offset e"
    "a \<in> set (take j xs)" "record_partition a = record_partition pm" "n \<le> record_offset a + 1"
    using assms(4,5) unfolding offset_safe_def by auto
  have "pm \<in> set (take j xs)"
  proof (rule ccontr)
    assume "pm \<notin> set (take j xs)"
    then have "pm \<in> set (drop j xs)" using assms(3) by (metis append_take_drop_id set_append UnE)
    moreover have "in_order (take j xs @ drop j xs)" using assms(2) by simp
    ultimately have "record_offset a < record_offset pm"
      using a(2,3) unfolding in_order_def sorted_wrt_append by blast
    with a(4) assms(6) show False by simp
  qed
  then consider "kept (rc_world s) pm"
    | e where "event_of pm (record_partition pm) e" "e \<in> set (waiting todo s (record_partition pm))"
    using c unfolding consuming_def by blast
  then show ?thesis
  proof cases
    case 2
    with a(1) assms(6) show ?thesis by (force simp: event_of_def)
  qed
qed

lemma ready_halted: "ready w0 c hs xs s \<Longrightarrow> halted w0 hs xs s"
  unfolding ready_def halted_def by blast

lemma ready_all_kept:
  assumes "ready w0 0 [] xs s" and "\<forall>k. queue (rc_batcher s) k = []" and "pm \<in> set (take (nat (ct_polled (rc_counters s))) xs)"
  shows "kept (rc_world s) pm"
proof -
  obtain n where n: "consuming w0 (take n xs) [] s" "ct_polled (rc_counters s) = int n"
    using assms(1) by (auto simp: ready_def)
  have "waiting [] s k = []" for k using assms(2) by (simp add: waiting_def batch_events_def)
  with n assms(3) show ?thesis unfolding consuming_def by (metis list.distinct(1) list.set_cases nat_int)
qed

lemma run_outcome:
  assumes "sound w" and "new_consumer C w = Inr s" and "in_order (delivered C script)"
    and "heartbeats_apart (delivered C script)"
  shows "wp (run_body C once mx dl script t)
    (\<lambda>ended u. ready w 0 [] (delivered C script) u \<and> (ended \<longrightarrow> (\<forall>k. queue (rc_batcher u) k = [])))
    (\<lambda>_ u. halted w [] (delivered C script) u) s"
  using consuming_run_body [of w s script once mx dl t] consuming_start [OF assms(1,2)] assms(3,4) by simp

lemma committed_offsets_secured_gen:
  assumes "sound w" and "new_consumer C w = Inr s" and "in_order (delivered C script)"
    and "heartbeats_apart (delivered C script)" and "run_body C once mx dl script t s = (q, u)"
    and "pm \<in> set (delivered C script)"
    and "offsets (w_kafka (rc_world u)) (record_partition pm) = Some n"
    and "offsets (w_kafka w) (record_partition pm) \<noteq> Some n" and "record_offset pm < n"
  shows "record_secured obj C (rc_world u) pm"
proof -
  have "halted w [] (delivered C script) u"
    using run_outcome [OF assms(1-4), of once mx dl t] assms(5) ready_halted by (cases q) (auto simp: wp_def)
  from halted_committed_secured [OF this assms(3,6-9)] show ?thesis by (rule kept_secured)
qed

lemma empty_queues_revoke:
  "\<forall>k. queue b k = [] \<Longrightarrow> batcher_inv b \<Longrightarrow> flush_partitions ks t b = (Inr [], b)"
  by (induction ks) (auto simp: flush_partition_def returnE_def bindE_def queue_def split: option.splits)

text \<open>With empty queues the callbacks of \<open>close\<close> have nothing to flush.\<close>

lemma close_nothing_waiting:
  assumes "consuming w0 hs [] s" and "\<forall>k. queue (rc_batcher s) k = []"
  shows "wp (close_client C xs) (\<lambda>_ u. consuming w0 hs [] u \<and> quiet s u \<and> rc_batcher u = rc_batcher s)
    (\<lambda>_ u. \<exists>todo. consuming w0 hs todo u) s"
  unfolding close_client_def using assms
proof (induction xs arbitrary: s)
  case (Cons x xs)
  have one: "wp (client_callback C x) (\<lambda>_ u. consuming w0 hs [] u \<and> quiet s u \<and> rc_batcher u = rc_batcher s)
      (\<lambda>_ u. \<exists>todo. consuming w0 hs todo u) s"
  proof (cases x)
    case (Revoked ks t)
    have e: "flush_partitions ks t (rc_batcher s) = (Inr [], rc_batcher s)"
      using empty_queues_revoke Cons.prems consuming_batcher by blast
    have "wp (flush_from C (flush_partitions ks t)) (\<lambda>_ u. consuming w0 hs [] u \<and> rc_batcher u = rc_batcher s \<and> quiet s u)
        (\<lambda>_ u. \<exists>todo. consuming w0 hs todo u) s"
      by (rule consuming_flush_from [OF Cons.prems(1)])
        (use e Cons.prems consuming_batcher in \<open>auto simp: batch_events_def\<close>)
    then show ?thesis
      unfolding Revoked client_callback.simps on_revoke_def by (rule wp_mono) auto
  next
    case (Assigned ks reply)
    have "wp (on_assign C ks reply) (\<lambda>_ u. rc_batcher u = rc_batcher s) (\<lambda>_ _. True) s"
      unfolding on_assign_def wp_seqE wp_modifyE by (simp add: wp_rules split: sum.splits)
    with consuming_on_assign [OF Cons.prems(1), of ks reply] show ?thesis
      unfolding Assigned client_callback.simps
      by (auto simp: wp_def split: sum.splits prod.splits)
  qed (use Cons.prems in \<open>simp add: request_stop_def wp_rules quiet_def\<close>)
  show ?case
    unfolding forE.simps wp_seqE
    by (rule wp_mono [OF one]) (use Cons.prems in \<open>auto intro!: wp_mono [OF Cons.IH] simp: quiet_def\<close>)
qed (simp add: wp_rules quiet_def)


lemma clean_run_secured_gen:
  assumes "sound w" and "new_consumer C w = Inr s" and "in_order (delivered C script)"
    and "heartbeats_apart (delivered C script)"
    and "consumer_run C once mx start script t closing s = (Inr (Some r), u)"
    and "pm \<in> set (take (nat (polled_count r)) (delivered C script))"
  shows "record_secured obj C (rc_world u) pm"
proof -
  let ?Q = "\<lambda>_ v. ready w 0 [] (delivered C script) v \<and> (\<forall>k. queue (rc_batcher v) k = [])"
  have close: "wp (seqE (close_client C closing) (getE (\<lambda>s. Some (run_result C s))))
      (\<lambda>x v. x = Some (run_result C v) \<and> ?Q x v) (\<lambda>_ _. True) v"
    if v: "?Q x v" for x v
  proof -
    from v obtain n where n: "n \<le> length (delivered C script)" "ct_polled (rc_counters v) = int n"
      "consuming w (take n (delivered C script)) [] v" by (auto simp: ready_def)
    show ?thesis
      unfolding wp_seqE wp_getE
      by (rule wp_mono [OF close_nothing_waiting [OF n(3)]])
        (use v n in \<open>auto simp: quiet_def intro!: readyI [where n = n]\<close>)
  qed
  have after: "wp (if ended then seqE (close_client C closing) (getE (\<lambda>s. Some (run_result C s))) else returnE None)
      (\<lambda>x v. \<forall>r. x = Some r \<longrightarrow> r = run_result C v \<and> ?Q x v) (\<lambda>_ _. True) v"
    if "ready w 0 [] (delivered C script) v \<and> (ended \<longrightarrow> (\<forall>k. queue (rc_batcher v) k = []))" for ended v
    using that by (cases ended) (auto simp: wp_returnE intro: wp_mono [OF close])
  have caught: "wp (seqE (modifyE f) (seqE (close_client C closing) (raiseE e))) P (\<lambda>_ _. True) v" for f e v and P :: "bool \<Rightarrow> _"
    unfolding wp_seqE wp_modifyE wp_raiseE by simp
  have "wp (catchE (run_body C once mx (once_deadline C start) script t)
        (\<lambda>e. seqE (modifyE (\<lambda>s. s\<lparr>rc_fatal := True\<rparr>)) (seqE (close_client C closing) (raiseE e))))
      (\<lambda>ended. wp (if ended then seqE (close_client C closing) (getE (\<lambda>s. Some (run_result C s))) else returnE None)
        (\<lambda>x v. \<forall>r. x = Some r \<longrightarrow> r = run_result C v \<and> ?Q x v) (\<lambda>_ _. True)) (\<lambda>_ _. True) s"
    unfolding wp_catchE
    by (rule wp_mono [OF run_outcome [OF assms(1-4)]]) (erule after, rule caught)
  then have "wp (consumer_run C once mx start script t closing)
      (\<lambda>x v. \<forall>r. x = Some r \<longrightarrow> r = run_result C v \<and> ?Q x v) (\<lambda>_ _. True) s"
    unfolding consumer_run_def by (simp only: wp_if wp_bindE wp_raiseE if_bool_eq_conj simp_thms)
  with assms(5) have u: "r = run_result C u" "?Q r u" by (auto simp: wp_def)
  then have "kept (rc_world u) pm"
    using assms(6) ready_all_kept [of w "delivered C script" u pm] by (simp add: run_result_def Let_def)
  then show ?thesis by (rule kept_secured)
qed

end

section \<open>Properties\<close>

text \<open>The consumer on the local backend, as \<open>cli._run\<close> builds it.\<close>

definition local_dlq :: "bucket_roots \<Rightarrow> string \<Rightarrow> string \<Rightarrow> local_fs MinioQuarantineDlq" where
  "local_dlq roots dlq_name grp =
     \<lparr>dq_storage = \<lparr>os_backend = local_backend roots, os_bronze_bucket = ''bronze'', os_quarantine_bucket = ''quarantine''\<rparr>,
      dq_dlq_name = dlq_name, dq_consumer_group = grp, dq_retry_policy = default_policy\<rparr>"

definition local_consumer_parts :: "CdcConsumerSettings \<Rightarrow> bucket_roots \<Rightarrow> parquet_writer \<Rightarrow> (json \<Rightarrow> string)
    \<Rightarrow> (local_fs, broker) ConsumerParts" where
  "local_consumer_parts S roots writer repr =
     \<lparr>cp_settings = S, cp_client = broker_commit,
      cp_processor = local_processor roots (cs_group_id S) writer default_policy,
      cp_dlq = local_dlq roots (cs_dlq_topic S) (cs_group_id S), cp_dry_run = False, cp_repr = repr\<rparr>"

interpretation local_consumer:
  reliable_consumer "local_consumer_parts S roots writer repr" local_ok "local_obj roots" kb_offsets
  for S roots writer repr
  using local_protocol.batch_protocol_axioms
  by (simp add: reliable_consumer_def reliable_consumer_axioms_def local_consumer_parts_def local_dlq_def
      local_processor_def default_policy_def wf_policy_def)

text \<open>The wiring on MinIO: one store, one Kafka client, valid retry policies, not a dry run.\<close>

definition minio_wiring :: "'s MinioStorageBackend \<Rightarrow> ('s, 'k) ConsumerParts \<Rightarrow> bool" where
  "minio_wiring M C \<longleftrightarrow> cp_client C = bp_committer (cp_processor C)
     \<and> os_backend (bp_storage (cp_processor C)) = minio_backend M
     \<and> os_backend (dq_storage (cp_dlq C)) = minio_backend M
     \<and> wf_policy (bp_retry_policy (cp_processor C)) \<and> wf_policy (dq_retry_policy (cp_dlq C)) \<and> \<not> cp_dry_run C"

lemma minio_reliable_consumer:
  assumes "s3_store M contents" and "kafka_offsets (cp_client C) offsets" and "minio_wiring M C"
  shows "reliable_consumer C (all_sealed contents) (minio_obj contents) offsets"
  using assms s3_store.minio_immutable_backend [OF assms(1)]
  by (simp add: reliable_consumer_def reliable_consumer_axioms_def batch_protocol_def batch_protocol_axioms_def
      minio_wiring_def)

text \<open>A run on the in-memory store: one heartbeat record, then the requested stop.\<close>

definition mem_parts :: "(mem_s3, broker) ConsumerParts" where
  "mem_parts =
     \<lparr>cp_settings = sample_consumer_settings, cp_client = broker_commit, cp_processor = mem_processor,
      cp_dlq = \<lparr>dq_storage = bp_storage mem_processor, dq_dlq_name = ''fintech.cdc.dlq'', dq_consumer_group = ''g'',
               dq_retry_policy = default_policy\<rparr>,
      cp_dry_run = False, cp_repr = (\<lambda>_. [])\<rparr>"

definition sample_kafka_message :: "int \<Rightarrow> bytes option \<Rightarrow> KafkaMessage" where
  "sample_kafka_message offset value =
     \<lparr>km_topic = ''p.payments.refunds'', km_partition = 0, km_offset = offset, km_key = None, km_value = value,
      km_timestamp_ms = Some 1767225600000\<rparr>"

definition sample_step :: "poll_result \<Rightarrow> poll_step" where
  "sample_step r = \<lparr>ps_events = [], ps_result = r, ps_monotonic = 0, ps_ingested_at = 0, ps_date_clock = 0, ps_batch_clock = 0\<rparr>"

definition heartbeat_value :: bytes where
  "heartbeat_value = [CHR ''{'', CHR 0x22, CHR ''t'', CHR ''s'', CHR ''_'', CHR ''m'', CHR ''s'', CHR 0x22, CHR '':'', CHR ''1'', CHR ''}'']"

definition heartbeat_step :: poll_step where
  "heartbeat_step = sample_step (Message (sample_kafka_message 4 (Some heartbeat_value)))"

definition heartbeat_record :: ParsedMessage where
  "heartbeat_record = \<lparr>pm_kind = HEARTBEAT, pm_raw = raw_message (sample_kafka_message 4 (Some heartbeat_value)),
     pm_event = None, pm_poison = None\<rparr>"

definition ready_world :: "(mem_s3, broker) cdc_world" where
  "ready_world = empty_world\<lparr>w_kafka := \<lparr>kb_offsets = \<lambda>_. None, kb_script = \<lambda>_. Acknowledged, kb_tick = 0\<rparr>\<rparr>"

definition fresh_consumer :: "(mem_s3, broker) ReliableCdcConsumer" where
  "fresh_consumer = \<lparr>rc_world = ready_world,
     rc_batcher = \<lparr>pb_batch_size = 2, pb_flush_interval = timedelta_micros 5, pb_pending = []\<rparr>,
     rc_stop = False, rc_counters = zero_counters, rc_fatal = False, rc_assignment_seen = False\<rparr>"

lemma mem_parts_wiring: "minio_wiring mem_minio mem_parts"
  by (simp add: minio_wiring_def mem_parts_def mem_processor_def wf_policy_def default_policy_def)

lemma mem_kafka_offsets: "kafka_offsets (cp_client mem_parts) kb_offsets"
  using broker.kafka_offsets_axioms by (simp add: mem_parts_def)

lemma ready_world_sound: "manifest_inv (md_rows (w_db ready_world))" "all_sealed map_of (w_store ready_world)"
  by (simp_all add: ready_world_def empty_world_def all_sealed_def)

lemma new_fresh_consumer: "new_consumer mem_parts ready_world = Inr fresh_consumer"
  by (simp add: new_consumer_def mem_parts_def sample_consumer_settings_def new_batcher_def fresh_consumer_def)

lemma parse_heartbeat: "parse_step mem_parts heartbeat_step (sample_kafka_message 4 (Some heartbeat_value)) = Inr heartbeat_record"
proof -
  have "json_loads heartbeat_value = Inr (JObject [(''ts_ms'', JInt 1)])" by code_simp
  then show ?thesis
    by (simp add: parse_step_def parse_debezium_message_def raw_message_def sample_kafka_message_def parse_document_def
        parse_payload_def dict_get_def heartbeat_record_def)
qed

lemma delivered_heartbeat: "delivered mem_parts [heartbeat_step] = [heartbeat_record]"
  using parse_heartbeat by (simp add: delivered_def step_record_def heartbeat_step_def sample_step_def)

lemma heartbeat_script_ordered: "in_order [heartbeat_record]" "heartbeats_apart [heartbeat_record]"
  by (simp_all add: in_order_def heartbeats_apart_def heartbeat_record_def)

lemma heartbeat_run_body:
  "\<exists>u. run_body mem_parts False (Some 1) d [heartbeat_step] 0 fresh_consumer = (Inr True, u)
     \<and> kb_offsets (w_kafka (rc_world u)) (record_partition heartbeat_record) = Some 5
     \<and> ct_polled (rc_counters u) = 1"
proof -
  have "ps_result heartbeat_step = Message (sample_kafka_message 4 (Some heartbeat_value))" "ps_events heartbeat_step = []"
    by (simp_all add: heartbeat_step_def sample_step_def)
  note step = this
  have "handle_message mem_parts heartbeat_step (sample_kafka_message 4 (Some heartbeat_value)) =
      seqE (bump (\<lambda>c. c\<lparr>ct_polled := ct_polled c + 1\<rparr>)) (handle_heartbeat mem_parts (pm_raw heartbeat_record))"
    by (rule ext) (simp add: handle_message_def parse_heartbeat liftE_def bindE_def seqE_def bump_def modifyE_def
        heartbeat_record_def)
  then show ?thesis
    by (simp add: run_body_def poll_once_def step handle_heartbeat_def commit_record_def mem_parts_def fresh_consumer_def
        seqE_def bindE_def bump_def modifyE_def getE_def returnE_def on_world_def on_kafka_def kafka_commit_def
        broker_commit_def ready_world_def zero_counters_def count_committed_def flush_from_def on_batcher_def
        flush_all_def flush_batches_def heartbeat_record_def raw_message_def sample_kafka_message_def)
qed





text \<open>
  C20. The heartbeat branch commits past pending events: when a heartbeat record arrives on a
  partition with an earlier event still pending, an acknowledged commit moves the offset beyond
  that event, while the event stays in memory only and neither the manifest nor the store changes.
  The poison branch flushes its partition first; this branch does not.
\<close>

theorem heartbeat_overtakes_pending:
  assumes "\<not> cp_dry_run C" and "cp_client C = broker_commit"
    and "kb_script (w_kafka (rc_world s)) (kb_tick (w_kafka (rc_world s))) = Acknowledged"
    and "e \<in> set (queue (rc_batcher s) (raw_topic_partition raw))" and "be_kafka_offset e < rm_offset raw"
  shows "\<exists>u. handle_heartbeat C raw s = (Inr (), u)
    \<and> kb_offsets (w_kafka (rc_world u)) (raw_topic_partition raw) = Some (rm_offset raw + 1)
    \<and> be_kafka_offset e < rm_offset raw + 1
    \<and> e \<in> set (queue (rc_batcher u) (raw_topic_partition raw))
    \<and> w_db (rc_world u) = w_db (rc_world s) \<and> w_store (rc_world u) = w_store (rc_world s)"
  using assms
  by (simp add: handle_heartbeat_def commit_record_def count_committed_def seqE_def bindE_def bump_def modifyE_def
      on_world_def on_kafka_def kafka_commit_def broker_commit_def Let_def)

theorem heartbeat_overtakes_pending_witness:
  "\<exists>u. handle_heartbeat mem_parts \<lparr>rm_topic = ''t'', rm_partition = 0, rm_offset = 8, rm_key = None,
        rm_value = Some heartbeat_value, rm_timestamp_ms = None\<rparr>
      (fresh_consumer\<lparr>rc_batcher := \<lparr>pb_batch_size = 2, pb_flush_interval = 5,
         pb_pending = [(TopicPartitionKey ''t'' 0, \<lparr>pp_events = [sample_event 0 7], pp_first_seen_at = 0\<rparr>)]\<rparr>\<rparr>) = (Inr (), u)
    \<and> kb_offsets (w_kafka (rc_world u)) (TopicPartitionKey ''t'' 0) = Some 9
    \<and> sample_event 0 7 \<in> set (queue (rc_batcher u) (TopicPartitionKey ''t'' 0))
    \<and> w_store (rc_world u) = []"
proof -
  let ?s = "fresh_consumer\<lparr>rc_batcher := \<lparr>pb_batch_size = 2, pb_flush_interval = 5,
         pb_pending = [(TopicPartitionKey ''t'' 0, \<lparr>pp_events = [sample_event 0 7], pp_first_seen_at = 0\<rparr>)]\<rparr>\<rparr>"
  let ?raw = "\<lparr>rm_topic = ''t'', rm_partition = 0, rm_offset = 8, rm_key = None,
        rm_value = Some heartbeat_value, rm_timestamp_ms = None\<rparr>"
  have "\<not> cp_dry_run mem_parts" "cp_client mem_parts = broker_commit"
    "kb_script (w_kafka (rc_world ?s)) (kb_tick (w_kafka (rc_world ?s))) = Acknowledged"
    "sample_event 0 7 \<in> set (queue (rc_batcher ?s) (raw_topic_partition ?raw))"
    "be_kafka_offset (sample_event 0 7) < rm_offset ?raw"
    by (simp_all add: mem_parts_def fresh_consumer_def ready_world_def queue_def raw_topic_partition_def sample_event_def)
  from heartbeat_overtakes_pending [OF this] show ?thesis
    by (simp add: raw_topic_partition_def fresh_consumer_def ready_world_def empty_world_def) blast
qed

text \<open>
  C21. Closing the client after a fatal failure still flushes: when a run fails with events of a
  partition pending, the revocation callback of \<open>close\<close> processes the batch of those events, in
  the state the failure left and with \<open>_fatal\<close> set, which nothing reads. The comment in the
  \<open>finally\<close> clause says that nothing is flushed after a fatal failure, since a later batch may
  then advance its partition beyond an unresolved record.
\<close>

theorem close_after_failure_flushes:
  assumes "run_body C once max_messages (once_deadline C start) script t s = (Inl e, s1)"
    and "(case max_messages of None \<Rightarrow> False | Some n \<Rightarrow> n \<le> 0) = False"
    and "batcher_inv (rc_batcher s1)" and "queue (rc_batcher s1) k \<noteq> []"
  shows "\<exists>b s2. cb_events b = queue (rc_batcher s1) k \<and> wf_batch b
    \<and> rc_world s2 = rc_world s1 \<and> rc_fatal s2 \<and> queue (rc_batcher s2) k = []
    \<and> consumer_run C once max_messages start script t [Revoked [k] t'] s
        = (case flush_batch C b s2 of (Inl e', s3) \<Rightarrow> (Inl e', s3) | (Inr _, s3) \<Rightarrow> (Inl e, s3))"
proof -
  obtain p where p: "map_of (pb_pending (rc_batcher s1)) k = Some p" "queue (rc_batcher s1) k = pp_events p"
    using assms(4) by (auto simp: queue_def split: option.splits)
  have ne: "pp_events p \<noteq> []" using assms(4) p(2) by simp
  have lk: "linked k (pp_events p)"
    using assms(3) p(1) by (auto simp: batcher_inv_def queue_ok_linked)
  let ?b = "batch_of (pp_events p)"
  let ?b' = "(rc_batcher s1)\<lparr>pb_pending := AList.delete k (pb_pending (rc_batcher s1))\<rparr>"
  let ?s2 = "s1\<lparr>rc_fatal := True, rc_batcher := ?b'\<rparr>"
  have take: "take_batch k (length (pp_events p)) t' (rc_batcher s1) = (Inr ?b, ?b')"
    by (rule take_batch_all [OF p(1) lk])
  have b: "cb_events ?b = pp_events p" "wf_batch ?b"
    using build_batch_linked [of "pp_events p" k] lk by (simp_all add: linked_def)
  have fl: "flush_partitions [k] t' (rc_batcher s1) = (Inr [?b], ?b')"
    using p(1) ne take by (simp add: flush_partition_def bindE_def returnE_def)
  have "close_client C [Revoked [k] t'] (s1\<lparr>rc_fatal := True\<rparr>) = seqE (flush_batch C ?b) (returnE ()) ?s2"
    using fl by (simp add: close_client_def on_revoke_def flush_from_def bindE_def on_batcher_def flush_batches_def
        seqE_def returnE_def split: prod.splits sum.splits)
  then have "consumer_run C once max_messages start script t [Revoked [k] t'] s
      = (case flush_batch C ?b ?s2 of (Inl e', s3) \<Rightarrow> (Inl e', s3) | (Inr _, s3) \<Rightarrow> (Inl e, s3))"
    using assms(1,2) by (simp add: consumer_run_def bindE_def catchE_def seqE_def modifyE_def raiseE_def returnE_def
        split: prod.splits sum.splits)
  then show ?thesis
    using b p(2) by (intro exI [of _ ?b] exI [of _ ?s2]) simp
qed

definition tombstone_step :: poll_step where
  "tombstone_step = sample_step (Message (sample_kafka_message 4 None))"

definition failing_script :: "poll_step list" where
  "failing_script = [tombstone_step, sample_step (Poll_Error False ''broker down'')]"

lemma failing_run:
  "\<exists>e s1. run_body mem_parts False None d failing_script 0 fresh_consumer = (Inl (Kafka_Exception ''broker down''), s1)
     \<and> batcher_inv (rc_batcher s1) \<and> queue (rc_batcher s1) (TopicPartitionKey ''p.payments.refunds'' 0) = [e]
     \<and> be_kafka_offset e = 4"
proof -
  let ?k = "TopicPartitionKey ''p.payments.refunds'' 0"
  obtain pm e where pm: "parse_step mem_parts tombstone_step (sample_kafka_message 4 None) = Inr pm"
    "pm_kind pm = EVENT" "pm_event pm = Some e" "be_kafka_offset e = 4" "event_topic_partition e = ?k"
    by (simp add: parse_step_def parse_debezium_message_def raw_message_def sample_kafka_message_def
        tombstone_event_def key_json_def event_date_def from_timestamp_ms_exact event_topic_partition_def)
  let ?s1 = "fresh_consumer\<lparr>rc_counters := \<lparr>ct_polled = 1, ct_events = 1, ct_poison = 0, ct_heartbeats = 0, ct_batches = 0,
      ct_committed = 0\<rparr>, rc_batcher := \<lparr>pb_batch_size = 2, pb_flush_interval = timedelta_micros 5,
      pb_pending = [(?k, \<lparr>pp_events = [e], pp_first_seen_at = 0\<rparr>)]\<rparr>\<rparr>"
  have step: "ps_result tombstone_step = Message (sample_kafka_message 4 None)" "ps_events tombstone_step = []"
    "ps_batch_clock tombstone_step = 0" by (simp_all add: tombstone_step_def sample_step_def)
  have add: "batcher_add e 0 \<lparr>pb_batch_size = 2, pb_flush_interval = timedelta_micros 5, pb_pending = []\<rparr>
      = (Inr [], rc_batcher ?s1)"
    using pm(5) by (simp add: batcher_add_def append_event_def bindE_def returnE_def numeral_2_eq_2)
  have "handle_message mem_parts tombstone_step (sample_kafka_message 4 None) fresh_consumer = (Inr (), ?s1)"
    using pm add by (simp add: handle_message_def handle_event_def seqE_def bindE_def bump_def modifyE_def liftE_def
        flush_from_def on_batcher_def flush_batches_def returnE_def step(3) fresh_consumer_def zero_counters_def)
  then have "run_body mem_parts False None d failing_script 0 fresh_consumer = (Inl (Kafka_Exception ''broker down''), ?s1)"
    by (simp add: run_body_def failing_script_def poll_once_def step sample_step_def seqE_def bindE_def returnE_def
        getE_def raiseE_def fresh_consumer_def)
  moreover have "batcher_inv (rc_batcher ?s1)" "queue (rc_batcher ?s1) ?k = [e]"
    using pm(5) by (simp_all add: batcher_inv_def queue_ok_def queue_def)
  ultimately show ?thesis using pm(4) by blast
qed

theorem close_after_failure_flushes_witness:
  "\<exists>b s2 e. rc_fatal s2 \<and> wf_batch b \<and> cb_events b = [e] \<and> be_kafka_offset e = 4
     \<and> consumer_run mem_parts False None 0 failing_script 0 [Revoked [TopicPartitionKey ''p.payments.refunds'' 0] 9] fresh_consumer
        = (case flush_batch mem_parts b s2 of (Inl e', s3) \<Rightarrow> (Inl e', s3)
           | (Inr _, s3) \<Rightarrow> (Inl (Kafka_Exception ''broker down''), s3))"
proof -
  let ?k = "TopicPartitionKey ''p.payments.refunds'' 0"
  obtain e s1 where s1: "run_body mem_parts False None (once_deadline mem_parts 0) failing_script 0 fresh_consumer
      = (Inl (Kafka_Exception ''broker down''), s1)" "batcher_inv (rc_batcher s1)"
      "queue (rc_batcher s1) ?k = [e]" "be_kafka_offset e = 4"
    using failing_run by blast
  have "(case None of None \<Rightarrow> False | Some n \<Rightarrow> n \<le> (0 :: int)) = False" "queue (rc_batcher s1) ?k \<noteq> []"
    using s1(3) by simp_all
  from close_after_failure_flushes [OF s1(1) this(1) s1(2) this(2), of 9] obtain b s2 where
    "cb_events b = queue (rc_batcher s1) ?k" "wf_batch b" "rc_fatal s2"
    "consumer_run mem_parts False None 0 failing_script 0 [Revoked [?k] 9] fresh_consumer
        = (case flush_batch mem_parts b s2 of (Inl e', s3) \<Rightarrow> (Inl e', s3)
           | (Inr _, s3) \<Rightarrow> (Inl (Kafka_Exception ''broker down''), s3))" by (elim exE conjE)
  with s1(3,4) show ?thesis by (intro exI [of _ b] exI [of _ s2] exI [of _ e] conjI) simp_all
qed

end
