(* ===== verification/Common_Config.thy ===== *)
theory Common_Config
  imports Cdc_Config
begin

text \<open>
  \<open>common/config.py\<close>: the settings of the storage backends and of the operational database, read
  from the environment, with the part of \<open>urllib.parse.urlsplit\<close> they rest on. Paths are texts. The
  check of a bracketed IP address (module \<open>ipaddress\<close>) and of the Unicode normalisation of a host is
  a parameter \<open>host_ok\<close> of the URL parser.
\<close>

section \<open>URLs\<close>

text \<open>\<open>text.partition(c)\<close> without the separator, and \<open>text.rpartition(c)[2]\<close> with its head.\<close>

definition before_char :: "char \<Rightarrow> string \<Rightarrow> string" where
  "before_char c s = takeWhile (\<lambda>x. x \<noteq> c) s"

definition after_char :: "char \<Rightarrow> string \<Rightarrow> string" where
  "after_char c s = drop (Suc (length (before_char c s))) s"

definition after_last :: "char \<Rightarrow> string \<Rightarrow> string" where
  "after_last c s = rev (before_char c (rev s))"

definition before_last :: "char \<Rightarrow> string \<Rightarrow> string" where
  "before_last c s = rev (after_char c (rev s))"

record split_url =
  su_scheme :: string
  su_netloc :: string
  su_path :: string
  su_query :: string
  su_fragment :: string

definition scheme_char :: "char \<Rightarrow> bool" where
  "scheme_char c \<longleftrightarrow> is_alnum c \<or> c \<in> {CHR ''+'', CHR ''-'', CHR ''.''}"

definition clean_url :: "string \<Rightarrow> string" where
  "clean_url url = filter (\<lambda>c. c \<notin> {CHR 0x09, CHR 0x0A, CHR 0x0D}) (dropWhile (\<lambda>c. of_char c \<le> (32 :: nat)) url)"

definition split_scheme :: "string \<Rightarrow> string \<times> string" where
  "split_scheme url =
     (let s = before_char (CHR '':'') url in
      if CHR '':'' \<in> set url \<and> s \<noteq> [] \<and> is_alnum (hd s) \<and> \<not> is_digit (hd s) \<and> list_all scheme_char s
      then (to_lower s, after_char (CHR '':'') url) else ([], url))"

definition bracketed :: "string \<Rightarrow> bool" where
  "bracketed netloc \<longleftrightarrow> CHR ''['' \<in> set netloc \<and> CHR '']'' \<in> set netloc"

definition urlsplit :: "(string \<Rightarrow> bool) \<Rightarrow> string \<Rightarrow> split_url result" where
  "urlsplit host_ok url0 =
     (case split_scheme (clean_url url0) of (scheme, url) \<Rightarrow>
        let has_netloc = starts_with ''//'' url;
            netloc = (if has_netloc then takeWhile (\<lambda>c. c \<notin> {CHR ''/'', CHR ''?'', CHR ''#''}) (drop 2 url) else []);
            rest = (if has_netloc then drop (2 + length netloc) url else url);
            before = before_char (CHR ''#'') rest
        in if (CHR ''['' \<in> set netloc) \<noteq> (CHR '']'' \<in> set netloc) then Inl (Value_Error ''Invalid IPv6 URL'')
           else if \<not> host_ok netloc then Inl (Value_Error ''invalid host'')
           else Inr \<lparr>su_scheme = scheme, su_netloc = netloc, su_path = before_char (CHR ''?'') before,
                     su_query = after_char (CHR ''?'') before, su_fragment = after_char (CHR ''#'') rest\<rparr>)"

definition url_username :: "split_url \<Rightarrow> string option" where
  "url_username u =
     (if CHR ''@'' \<in> set (su_netloc u) then Some (before_char (CHR '':'') (before_last (CHR ''@'') (su_netloc u))) else None)"

definition url_password :: "split_url \<Rightarrow> string option" where
  "url_password u =
     (let info = before_last (CHR ''@'') (su_netloc u) in
      if CHR ''@'' \<in> set (su_netloc u) \<and> CHR '':'' \<in> set info then Some (after_char (CHR '':'') info) else None)"

definition host_info :: "split_url \<Rightarrow> string \<times> string" where
  "host_info u =
     (let info = after_last (CHR ''@'') (su_netloc u) in
      if CHR ''['' \<in> set info
      then (let inner = after_char (CHR ''['') info in
            (before_char (CHR '']'') inner, after_char (CHR '':'') (after_char (CHR '']'') inner)))
      else (before_char (CHR '':'') info, after_char (CHR '':'') info))"

text \<open>The host name, empty for \<open>None\<close>; the zone of a scoped address keeps its case.\<close>

definition url_hostname :: "split_url \<Rightarrow> string" where
  "url_hostname u =
     (let h = fst (host_info u); addr = before_char (CHR ''%'') h in to_lower addr @ drop (length addr) h)"

definition url_port :: "split_url \<Rightarrow> int option result" where
  "url_port u =
     (let port = snd (host_info u) in
      if port = [] then Inr None
      else if \<not> list_all is_digit port then Inl (Value_Error (''Port could not be cast to integer value as '' @ port))
      else if 65535 < int (nat_of_digits port) then Inl (Value_Error ''Port out of range 0-65535'')
      else Inr (Some (int (nat_of_digits port))))"

section \<open>Settings\<close>

datatype StorageBackendKind = LOCAL | MINIO

definition config_error :: "string \<Rightarrow> 'a result" where
  "config_error m = Inl (Configuration_Error m)"

definition parse_positive_number :: "string \<Rightarrow> string \<Rightarrow> pyfloat result" where
  "parse_positive_number value name =
     (case float_of_text value of
        Inl _ \<Rightarrow> config_error (name @ '' must be a positive number'')
      | Inr x \<Rightarrow> if float_le_zero x then config_error (name @ '' must be a positive number'') else Inr x)"

definition parse_boolean :: "string \<Rightarrow> string \<Rightarrow> bool result" where
  "parse_boolean value name =
     (let normalized = to_lower (py_strip value) in
      if normalized \<notin> {''true'', ''false''} then config_error (name @ '' must be true or false'')
      else Inr (normalized = ''true''))"

definition validate_bucket_name :: "string \<Rightarrow> string \<Rightarrow> string result" where
  "validate_bucket_name value name =
     (if SAFE_BUCKET value then Inr value
      else config_error (name @ '' must be a valid 3-63 character S3 bucket name''))"

record MinioSettings =
  ms_endpoint :: string
  ms_access_key :: string
  ms_secret_key :: string
  ms_secure :: bool
  ms_region :: string
  ms_connect_timeout_seconds :: pyfloat
  ms_read_timeout_seconds :: pyfloat
  ms_max_retries :: int

text \<open>The names of the variables that are empty.\<close>

definition missing_names :: "(string \<times> string) list \<Rightarrow> string list" where
  "missing_names vs = map fst (filter (\<lambda>(_, v). v = []) vs)"

definition minio_endpoint :: "(string \<Rightarrow> bool) \<Rightarrow> string \<Rightarrow> bool \<Rightarrow> string result" where
  "minio_endpoint host_ok raw secure =
     bindR (urlsplit host_ok (if contains ''://'' raw then raw else ''//'' @ raw)) (\<lambda>u.
       if su_scheme u \<noteq> [] \<and> su_scheme u \<notin> {''http'', ''https''}
       then config_error ''MINIO_ENDPOINT scheme must be http or https''
       else if url_username u \<notin> {None, Some []} \<or> url_password u \<notin> {None, Some []}
       then config_error ''MINIO_ENDPOINT must not contain credentials''
       else if url_hostname u = [] \<or> su_path u \<notin> {[], ''/''} \<or> su_query u \<noteq> [] \<or> su_fragment u \<noteq> []
       then config_error ''MINIO_ENDPOINT must contain only a host and optional port''
       else if su_scheme u \<noteq> [] \<and> secure \<noteq> (su_scheme u = ''https'')
       then config_error ''MINIO_SECURE must match the MINIO_ENDPOINT scheme''
       else (case url_port u of
           Inl _ \<Rightarrow> config_error ''MINIO_ENDPOINT port is invalid''
         | Inr None \<Rightarrow> Inr (url_hostname u)
         | Inr (Some port) \<Rightarrow> Inr (url_hostname u @ '':'' @ show_int port)))"

definition minio_retries :: "environ \<Rightarrow> int result" where
  "minio_retries env =
     (case int_of_text (py_strip (env_get env ''MINIO_MAX_RETRIES'' ''3'')) of
        Inl _ \<Rightarrow> config_error ''MINIO_MAX_RETRIES must be an integer''
      | Inr n \<Rightarrow> if 0 \<le> n \<and> n \<le> 10 then Inr n else config_error ''MINIO_MAX_RETRIES must be between 0 and 10'')"

definition minio_settings :: "(string \<Rightarrow> bool) \<Rightarrow> environ \<Rightarrow> MinioSettings result" where
  "minio_settings host_ok env =
     (let raw = py_strip (env_get env ''MINIO_ENDPOINT'' []); access = py_strip (env_get env ''MINIO_ACCESS_KEY'' []);
          secret = env_get env ''MINIO_SECRET_KEY'' []; region = py_strip (env_get env ''MINIO_REGION'' ''us-east-1'');
          missing = missing_names [(''MINIO_ENDPOINT'', raw), (''MINIO_ACCESS_KEY'', access), (''MINIO_SECRET_KEY'', secret),
                      (''MINIO_REGION'', region)] in
      bindR (parse_boolean (env_get env ''MINIO_SECURE'' ''false'') ''MINIO_SECURE'') (\<lambda>secure.
      if missing \<noteq> [] then config_error (''Missing MinIO configuration variables: '' @ join_with '', '' missing)
      else
        bindR (minio_endpoint host_ok raw secure) (\<lambda>endpoint.
        bindR (minio_retries env) (\<lambda>retries.
        bindR (parse_positive_number (env_get env ''MINIO_CONNECT_TIMEOUT_SECONDS'' ''5'') ''MINIO_CONNECT_TIMEOUT_SECONDS'') (\<lambda>connect.
        bindR (parse_positive_number (env_get env ''MINIO_READ_TIMEOUT_SECONDS'' ''30'') ''MINIO_READ_TIMEOUT_SECONDS'') (\<lambda>read.
          Inr \<lparr>ms_endpoint = endpoint, ms_access_key = access, ms_secret_key = secret, ms_secure = secure, ms_region = region,
               ms_connect_timeout_seconds = connect, ms_read_timeout_seconds = read, ms_max_retries = retries\<rparr>))))))"

definition endpoint_label :: "MinioSettings \<Rightarrow> string" where
  "endpoint_label m = (if ms_secure m then ''https'' else ''http'') @ ''://'' @ ms_endpoint m"

record StorageSettings =
  sg_backend :: StorageBackendKind
  sg_local_bronze_root :: string
  sg_local_quarantine_root :: string
  sg_bronze_bucket :: string
  sg_quarantine_bucket :: string
  sg_local_silver_root :: string
  sg_silver_bucket :: string
  sg_minio :: "MinioSettings option"

definition backend_kind :: "string \<Rightarrow> StorageBackendKind result" where
  "backend_kind raw =
     (if raw = ''local'' then Inr LOCAL else if raw = ''minio'' then Inr MINIO
      else config_error ''STORAGE_BACKEND must be local or minio'')"

definition bucket_of :: "environ \<Rightarrow> string \<Rightarrow> string \<Rightarrow> string result" where
  "bucket_of env name fallback = validate_bucket_name (py_strip (env_get env name fallback)) name"

definition storage_settings :: "(string \<Rightarrow> bool) \<Rightarrow> environ \<Rightarrow> string \<Rightarrow> StorageSettings result" where
  "storage_settings host_ok env backend_override =
     bindR (backend_kind (to_lower (py_strip
              (if backend_override = [] then env_get env ''STORAGE_BACKEND'' ''local'' else backend_override)))) (\<lambda>backend.
     bindR (bucket_of env ''MINIO_BRONZE_BUCKET'' ''fintech-bronze'') (\<lambda>bronze.
     bindR (bucket_of env ''MINIO_QUARANTINE_BUCKET'' ''fintech-quarantine'') (\<lambda>quarantine.
     bindR (bucket_of env ''MINIO_SILVER_BUCKET'' ''fintech-silver'') (\<lambda>silver.
     bindR (if backend = MINIO then bindR (minio_settings host_ok env) (\<lambda>m. Inr (Some m)) else Inr None) (\<lambda>minio.
       Inr \<lparr>sg_backend = backend, sg_local_bronze_root = env_get env ''SETTLEMENT_BRONZE_DIR'' ''data/bronze'',
            sg_local_quarantine_root = env_get env ''SETTLEMENT_QUARANTINE_DIR'' ''data/quarantine'',
            sg_bronze_bucket = bronze, sg_quarantine_bucket = quarantine,
            sg_local_silver_root = env_get env ''SILVER_LOCAL_ROOT'' ''data/silver'', sg_silver_bucket = silver,
            sg_minio = minio\<rparr>)))))"

record DatabaseSettings =
  ds_host :: string
  ds_port :: int
  ds_database :: string
  ds_user :: string
  ds_password :: string
  ds_database_url :: "string option"

definition or_else :: "string \<Rightarrow> string \<Rightarrow> string" where
  "or_else a b = (if a = [] then b else a)"

definition url_port_or :: "string \<Rightarrow> split_url \<Rightarrow> int result" where
  "url_port_or raw_port u =
     (if raw_port \<noteq> [] then int_of_text raw_port
      else bindR (url_port u) (\<lambda>p. Inr (case p of None \<Rightarrow> 5432 | Some n \<Rightarrow> if n = 0 then 5432 else n)))"

text \<open>Host, port, database and user, from the URL or from the single variables.\<close>

definition database_location :: "(string \<Rightarrow> bool) \<Rightarrow> environ \<Rightarrow> (string \<times> int \<times> string \<times> string) result" where
  "database_location host_ok env =
     (let url = py_strip (env_get env ''DATABASE_URL'' []); host = py_strip (env_get env ''POSTGRES_HOST'' []);
          database = py_strip (env_get env ''POSTGRES_DB'' []); user = py_strip (env_get env ''POSTGRES_USER'' []);
          password = env_get env ''POSTGRES_PASSWORD'' []; raw_port = py_strip (env_get env ''POSTGRES_PORT'' []);
          port_of = (\<lambda>r. case r of Inl _ \<Rightarrow> config_error ''POSTGRES_PORT must be an integer'' | Inr n \<Rightarrow> Inr n) in
      if url \<noteq> []
      then bindR (urlsplit host_ok url) (\<lambda>u.
             if su_scheme u \<notin> {''postgres'', ''postgresql''} \<or> url_hostname u = []
             then config_error ''DATABASE_URL must be a valid PostgreSQL URL''
             else bindR (port_of (url_port_or raw_port u)) (\<lambda>port.
               Inr (or_else host (url_hostname u), port, or_else database (dropWhile (\<lambda>c. c = CHR ''/'') (su_path u)),
                    or_else user (case url_username u of None \<Rightarrow> [] | Some n \<Rightarrow> n))))
      else (let missing = missing_names [(''POSTGRES_HOST'', host), (''POSTGRES_PORT'', raw_port), (''POSTGRES_DB'', database),
                            (''POSTGRES_USER'', user), (''POSTGRES_PASSWORD'', password)] in
            if missing \<noteq> [] then config_error (''Missing database configuration variables: '' @ join_with '', '' missing)
            else bindR (port_of (int_of_text raw_port)) (\<lambda>port. Inr (host, port, database, user))))"

definition database_settings :: "(string \<Rightarrow> bool) \<Rightarrow> environ \<Rightarrow> DatabaseSettings result" where
  "database_settings host_ok env =
     bindR (database_location host_ok env) (\<lambda>(host, port, database, user).
       if \<not> (1 \<le> port \<and> port \<le> 65535) then config_error ''POSTGRES_PORT must be between 1 and 65535''
       else if database = [] then config_error ''PostgreSQL database name must not be empty''
       else Inr \<lparr>ds_host = host, ds_port = port, ds_database = database, ds_user = user,
                 ds_password = env_get env ''POSTGRES_PASSWORD'' [],
                 ds_database_url = (let url = py_strip (env_get env ''DATABASE_URL'' []) in if url = [] then None else Some url)\<rparr>)"

definition connection_label :: "DatabaseSettings \<Rightarrow> string" where
  "connection_label d = ds_host d @ '':'' @ show_int (ds_port d) @ ''/'' @ ds_database d"

section \<open>What the settings promise\<close>

definition url_separators :: "char set" where
  "url_separators = {CHR ''@'', CHR ''/'', CHR ''?'', CHR ''#''}"

lemma lower_char_separator: "lower_char c \<in> url_separators \<Longrightarrow> c \<in> url_separators"
  by (auto simp: lower_char_def url_separators_def Let_def dest!: arg_cong [of _ _ "of_char :: char \<Rightarrow> nat"] split: if_split_asm)

lemma separators_not_digit: "is_digit c \<Longrightarrow> c \<notin> url_separators"
  by (auto simp: is_digit_def url_separators_def)

lemma show_int_plain: "0 \<le> n \<Longrightarrow> set (show_int n) \<inter> url_separators = {}"
  using separators_not_digit show_nat_digits by (auto simp: show_int_def)

lemma before_char_subset: "set (before_char c s) \<subseteq> set s - {c}"
  unfolding before_char_def by (induction s) auto

lemma after_char_subset: "set (after_char c s) \<subseteq> set s"
  unfolding after_char_def by (rule set_drop_subset)

lemma after_last_subset: "set (after_last c s) \<subseteq> set s - {c}"
  unfolding after_last_def using before_char_subset [of c "rev s"] by simp

lemma urlsplit_netloc:
  assumes "urlsplit host_ok url = Inr u"
  shows "set (su_netloc u) \<inter> {CHR ''/'', CHR ''?'', CHR ''#''} = {}"
  using assms by (auto simp: urlsplit_def Let_def split: prod.split_asm if_split_asm dest: set_takeWhileD)

lemma host_info_clean:
  assumes "urlsplit host_ok url = Inr u" shows "set (fst (host_info u)) \<inter> url_separators = {}"
proof -
  let ?info = "after_last (CHR ''@'') (su_netloc u)"
  have "set (fst (host_info u)) \<subseteq> set ?info"
    using before_char_subset [of "CHR '']''" "after_char (CHR ''['') ?info"] after_char_subset [of "CHR ''[''" ?info]
      before_char_subset [of "CHR '':''" ?info]
    by (auto simp: host_info_def Let_def)
  then show ?thesis
    using urlsplit_netloc [OF assms] after_last_subset [of "CHR ''@''" "su_netloc u"] unfolding url_separators_def by blast
qed

lemma hostname_clean:
  assumes "urlsplit host_ok url = Inr u" shows "set (url_hostname u) \<inter> url_separators = {}"
  using host_info_clean [OF assms] before_char_subset set_drop_subset
  by (fastforce simp: url_hostname_def Let_def to_lower_def dest: lower_char_separator)

lemma minio_endpoint_clean:
  assumes "minio_endpoint host_ok raw secure = Inr e"
  shows "e \<noteq> []" and "c \<in> set e \<Longrightarrow> c \<notin> url_separators"
proof -
  obtain u where u: "urlsplit host_ok (if contains ''://'' raw then raw else ''//'' @ raw) = Inr u"
    and e: "url_hostname u \<noteq> []" "e = url_hostname u \<or> (\<exists>p. url_port u = Inr (Some p) \<and> e = url_hostname u @ '':'' @ show_int p)"
    using assms by (auto simp: minio_endpoint_def config_error_def bindR_eq_Inr split: if_split_asm sum.split_asm option.split_asm)
  moreover have "set (show_int p) \<inter> url_separators = {}" if "url_port u = Inr (Some p)" for p
    using that by (intro show_int_plain) (auto simp: url_port_def Let_def split: if_split_asm)
  ultimately show "e \<noteq> []" "c \<in> set e \<Longrightarrow> c \<notin> url_separators"
    using hostname_clean [OF u] by (auto simp: url_separators_def)
qed

lemma positive_number_ok: "parse_positive_number v name = Inr x \<Longrightarrow> \<not> float_le_zero x"
  by (auto simp: parse_positive_number_def config_error_def split: sum.split_asm if_split_asm)

definition minio_valid :: "MinioSettings \<Rightarrow> bool" where
  "minio_valid m \<longleftrightarrow> ms_endpoint m \<noteq> [] \<and> set (ms_endpoint m) \<inter> url_separators = {}
     \<and> ms_access_key m \<noteq> [] \<and> ms_secret_key m \<noteq> [] \<and> ms_region m \<noteq> []
     \<and> \<not> float_le_zero (ms_connect_timeout_seconds m) \<and> \<not> float_le_zero (ms_read_timeout_seconds m)
     \<and> 0 \<le> ms_max_retries m \<and> ms_max_retries m \<le> 10"

lemma minio_settings_valid:
  assumes "minio_settings host_ok env = Inr m" shows "minio_valid m"
  using assms unfolding minio_settings_def Let_def
  by (elim bindR_InrE)
     (auto simp: minio_valid_def config_error_def missing_names_def bindR_eq_Inr minio_retries_def positive_number_ok
       dest: minio_endpoint_clean split: if_split_asm sum.split_asm)

text \<open>The variables a local installation reads.\<close>

definition local_variables :: "string list" where
  "local_variables = [''STORAGE_BACKEND'', ''MINIO_BRONZE_BUCKET'', ''MINIO_QUARANTINE_BUCKET'', ''MINIO_SILVER_BUCKET'',
     ''SETTLEMENT_BRONZE_DIR'', ''SETTLEMENT_QUARANTINE_DIR'', ''SILVER_LOCAL_ROOT'']"

text \<open>
  C40. Storage settings. Whatever the environment holds, settings that are accepted have valid bucket
  names; MinIO is configured exactly when it is selected, with credentials, an endpoint without user
  information, path, query or fragment, positive time limits and 0 to 10 retries; and with the local
  backend the settings depend on no other variable, in particular on no MinIO secret.
\<close>

theorem storage_settings_valid:
  assumes "storage_settings host_ok env override = Inr S"
  shows "SAFE_BUCKET (sg_bronze_bucket S) \<and> SAFE_BUCKET (sg_quarantine_bucket S) \<and> SAFE_BUCKET (sg_silver_bucket S)
    \<and> (case sg_minio S of None \<Rightarrow> sg_backend S = LOCAL | Some m \<Rightarrow> sg_backend S = MINIO \<and> minio_valid m)
    \<and> (\<forall>env' host_ok'. sg_backend S = LOCAL \<longrightarrow> (\<forall>v\<in>set local_variables. map_of env' v = map_of env v) \<longrightarrow>
         storage_settings host_ok' env' override = Inr S)"
proof -
  have bucket: "bucket_of env n d = Inr b \<Longrightarrow> SAFE_BUCKET b" for n d b
    by (auto simp: bucket_of_def validate_bucket_name_def config_error_def split: if_split_asm)
  have same: "storage_settings host_ok' env' override = Inr S"
    if "\<forall>v\<in>set local_variables. map_of env' v = map_of env v" "sg_backend S = LOCAL" for env' host_ok'
  proof -
    have get: "env_get env' v d = env_get env v d" if "v \<in> set local_variables" for v d
      using that \<open>\<forall>v\<in>set local_variables. map_of env' v = map_of env v\<close> by (simp add: env_get_def)
    have gets: "env_get env' ''STORAGE_BACKEND'' d = env_get env ''STORAGE_BACKEND'' d"
      "env_get env' ''MINIO_BRONZE_BUCKET'' d = env_get env ''MINIO_BRONZE_BUCKET'' d"
      "env_get env' ''MINIO_QUARANTINE_BUCKET'' d = env_get env ''MINIO_QUARANTINE_BUCKET'' d"
      "env_get env' ''MINIO_SILVER_BUCKET'' d = env_get env ''MINIO_SILVER_BUCKET'' d"
      "env_get env' ''SETTLEMENT_BRONZE_DIR'' d = env_get env ''SETTLEMENT_BRONZE_DIR'' d"
      "env_get env' ''SETTLEMENT_QUARANTINE_DIR'' d = env_get env ''SETTLEMENT_QUARANTINE_DIR'' d"
      "env_get env' ''SILVER_LOCAL_ROOT'' d = env_get env ''SILVER_LOCAL_ROOT'' d" for d
      by (rule get, simp add: local_variables_def)+
    show ?thesis
      using assms that(2) unfolding storage_settings_def bucket_of_def gets
      by (elim bindR_InrE) (clarsimp split del: if_split)
  qed
  from assms same show ?thesis
    unfolding storage_settings_def
    by (elim bindR_InrE) (auto simp: bindR_eq_Inr bucket minio_settings_valid split: if_split_asm intro: StorageBackendKind.exhaust)
qed

theorem storage_settings_valid_witness:
  "\<exists>S. storage_settings (\<lambda>_. True) [(''STORAGE_BACKEND'', ''minio''), (''MINIO_ENDPOINT'', ''http://minio''),
      (''MINIO_ACCESS_KEY'', ''key''), (''MINIO_SECRET_KEY'', ''secret'')] [] = Inr S \<and> sg_backend S = MINIO
    \<and> SAFE_BUCKET (sg_bronze_bucket S) \<and> (case sg_minio S of None \<Rightarrow> False | Some m \<Rightarrow> minio_valid m \<and> ms_endpoint m = ''minio'')"
proof -
  let ?env = "[(''STORAGE_BACKEND'', ''minio''), (''MINIO_ENDPOINT'', ''http://minio''),
      (''MINIO_ACCESS_KEY'', ''key''), (''MINIO_SECRET_KEY'', ''secret'')]"
  have "case storage_settings (\<lambda>_. True) ?env [] of Inr S \<Rightarrow> sg_backend S = MINIO
      \<and> map_option ms_endpoint (sg_minio S) = Some ''minio'' | Inl _ \<Rightarrow> False"
    by code_simp
  then obtain S where "storage_settings (\<lambda>_. True) ?env [] = Inr S" "sg_backend S = MINIO"
      "map_option ms_endpoint (sg_minio S) = Some ''minio''"
    by (auto split: sum.split_asm)
  with storage_settings_valid [OF this(1)] show ?thesis by (auto split: option.split_asm)
qed

end
