(* ===== verification/Silver_Models.thy ===== *)
theory Silver_Models
  imports Cdc_Models Py_Json
begin

text \<open>
  \<open>processing/silver/models.py\<close>, \<open>quality.py\<close>, \<open>references.py\<close> and \<open>deduplication.py\<close>: the state,
  lineage and quality records of the Bronze-to-Silver pipeline, duplicate elimination in Kafka
  order and the classification of references. A state row (\<open>dict[str, object]\<close>) is an association
  list of Python values.
\<close>

datatype ProcessingStatus =
    DISCOVERED | READING | VALIDATING | TRANSFORMING | WRITING | COMPLETED | FAILED | QUARANTINED

datatype SourceType = CDC | SETTLEMENT

datatype OutputType =
    HISTORY | LATEST_ALL | CURRENT | EVENTS | SETTLEMENTS | REJECTIONS | UNRESOLVED_REFERENCES

datatype QualityCode =
    INVALID_BRONZE_SCHEMA | INVALID_JSON | MISSING_BUSINESS_KEY | INVALID_DECIMAL | INVALID_TIMESTAMP
  | UNSUPPORTED_OPERATION | DUPLICATE_EVENT | DUPLICATE_COORDINATE | OUT_OF_ORDER_EVENT
  | INVALID_REFERENCE | SCHEMA_VERSION_UNSUPPORTED

fun output_value :: "OutputType \<Rightarrow> string" where
  "output_value HISTORY = ''history''"
| "output_value LATEST_ALL = ''latest_all''"
| "output_value CURRENT = ''current''"
| "output_value EVENTS = ''events''"
| "output_value SETTLEMENTS = ''settlements''"
| "output_value REJECTIONS = ''rejections''"
| "output_value UNRESOLVED_REFERENCES = ''unresolved_references''"

fun code_value :: "QualityCode \<Rightarrow> string" where
  "code_value INVALID_BRONZE_SCHEMA = ''INVALID_BRONZE_SCHEMA''"
| "code_value INVALID_JSON = ''INVALID_JSON''"
| "code_value MISSING_BUSINESS_KEY = ''MISSING_BUSINESS_KEY''"
| "code_value INVALID_DECIMAL = ''INVALID_DECIMAL''"
| "code_value INVALID_TIMESTAMP = ''INVALID_TIMESTAMP''"
| "code_value UNSUPPORTED_OPERATION = ''UNSUPPORTED_OPERATION''"
| "code_value DUPLICATE_EVENT = ''DUPLICATE_EVENT''"
| "code_value DUPLICATE_COORDINATE = ''DUPLICATE_COORDINATE''"
| "code_value OUT_OF_ORDER_EVENT = ''OUT_OF_ORDER_EVENT''"
| "code_value INVALID_REFERENCE = ''INVALID_REFERENCE''"
| "code_value SCHEMA_VERSION_UNSUPPORTED = ''SCHEMA_VERSION_UNSUPPORTED''"

definition BUSINESS_KEYS :: "(string \<times> string) list" where
  "BUSINESS_KEYS = [(''customers'', ''customer_id''), (''accounts'', ''account_id''), (''merchants'', ''merchant_id''),
     (''payment_transactions'', ''transaction_id''), (''transaction_events'', ''event_id''), (''refunds'', ''refund_id'')]"

record InputObject =
  io_uri :: string
  io_bucket :: string
  io_object_key :: string
  io_checksum_sha256 :: string
  io_size_bytes :: int
  io_metadata :: "(string \<times> string) list"

record NormalizedCdcEvent =
  ne_event_id :: string
  ne_entity_name :: string
  ne_business_key :: string
  ne_operation :: string
  ne_is_snapshot :: bool
  ne_is_deleted :: bool
  ne_is_tombstone :: bool
  ne_before_json :: "string option"
  ne_after_json :: "string option"
  ne_business_payload_json :: "string option"
  ne_source_lsn :: "int option"
  ne_source_tx_id :: "int option"
  ne_source_ts :: "instant option"
  ne_connector_ts :: "instant option"
  ne_kafka_message_ts :: "instant option"
  ne_kafka_topic :: string
  ne_kafka_partition :: int
  ne_kafka_offset :: int
  ne_event_time :: instant
  ne_ingested_at :: instant
  ne_processed_at :: instant
  ne_processing_run_id :: string
  ne_source_schema_version :: string
  ne_silver_schema_version :: string

definition coordinate :: "NormalizedCdcEvent \<Rightarrow> string \<times> int \<times> int" where
  "coordinate e = (ne_kafka_topic e, ne_kafka_partition e, ne_kafka_offset e)"

record QualityRejection =
  qr_source_object_uri :: string
  qr_source_event_id :: "string option"
  qr_entity_name :: string
  qr_business_key :: "string option"
  qr_error_code :: string
  qr_error_message :: string
  qr_raw_reference :: string
  qr_processing_run_id :: string
  qr_rejected_at :: instant

record UnresolvedReference =
  ur_entity_name :: string
  ur_business_key :: string
  ur_reference_entity :: string
  ur_reference_key :: string
  ur_reference_field :: string
  ur_classification :: string
  ur_source_event_id :: string
  ur_processing_run_id :: string
  ur_observed_at :: instant

record SilverOutput =
  out_type :: OutputType
  out_object_uri :: string
  out_checksum_sha256 :: string
  out_record_count :: int

record ProcessingRun =
  pr_run_id :: string
  pr_pipeline_name :: string
  pr_source_type :: SourceType
  pr_entity_name :: string
  pr_input_object_uri :: string
  pr_input_checksum :: string
  pr_input_record_count :: int
  pr_status :: ProcessingStatus
  pr_started_at :: instant
  pr_completed_at :: "instant option"
  pr_output_object_uris :: "string list"
  pr_outputs :: "SilverOutput list"
  pr_output_record_count :: int
  pr_rejected_record_count :: int
  pr_error_code :: "string option"
  pr_error_message :: "string option"
  pr_code_version :: string
  pr_schema_version :: string

record ProcessingResult =
  ps_run_id :: "string option"
  ps_input_object_uri :: string
  ps_status :: ProcessingStatus
  ps_entity_name :: string
  ps_input_record_count :: int
  ps_output_record_count :: int
  ps_rejected_record_count :: int
  ps_output_object_uris :: "string list"
  ps_skipped :: bool
  ps_dry_run :: bool
  ps_error_code :: "string option"
  ps_error_message :: "string option"

definition deterministic_part_id :: "string \<Rightarrow> OutputType \<Rightarrow> string \<Rightarrow> string" where
  "deterministic_part_id run_id ot entity =
     take 16 (sha256_hex (run_id @ '':'' @ output_value ot @ '':'' @ entity @ '':0''))"

section \<open>Quality evidence\<close>

definition quality_rejection :: "string \<Rightarrow> string option \<Rightarrow> string \<Rightarrow> string option \<Rightarrow> QualityCode \<Rightarrow> string
    \<Rightarrow> string \<Rightarrow> string \<Rightarrow> instant \<Rightarrow> QualityRejection" where
  "quality_rejection uri event_id entity business_key code message raw_reference run_id rejected_at =
     \<lparr>qr_source_object_uri = uri, qr_source_event_id = event_id, qr_entity_name = entity,
      qr_business_key = business_key, qr_error_code = code_value code, qr_error_message = take 1000 message,
      qr_raw_reference = take 512 raw_reference, qr_processing_run_id = run_id, qr_rejected_at = rejected_at\<rparr>"

section \<open>Deduplication\<close>

text \<open>\<open>value or fallback\<close> on a time: an aware \<open>datetime\<close> is always true.\<close>

definition event_order_key :: "NormalizedCdcEvent
    \<Rightarrow> string \<times> int \<times> int \<times> int \<times> instant \<times> instant \<times> instant \<times> string" where
  "event_order_key e =
     (ne_kafka_topic e, ne_kafka_partition e, ne_kafka_offset e,
      (case ne_source_lsn e of Some n \<Rightarrow> n | None \<Rightarrow> - 1),
      (case ne_source_ts e of Some t \<Rightarrow> t | None \<Rightarrow> ne_event_time e),
      (case ne_connector_ts e of Some t \<Rightarrow> t | None \<Rightarrow> ne_event_time e),
      ne_ingested_at e, ne_event_id e)"

fun dedup_scan :: "(string \<times> int \<times> int) list \<Rightarrow> string list \<Rightarrow> NormalizedCdcEvent list
    \<Rightarrow> NormalizedCdcEvent list \<times> (NormalizedCdcEvent \<times> QualityCode) list" where
  "dedup_scan cs ids [] = ([], [])"
| "dedup_scan cs ids (e # es) =
     (if coordinate e \<in> set cs
      then (case dedup_scan cs ids es of (acc, rej) \<Rightarrow> (acc, (e, DUPLICATE_COORDINATE) # rej))
      else if ne_event_id e \<in> set ids
      then (case dedup_scan cs ids es of (acc, rej) \<Rightarrow> (acc, (e, DUPLICATE_EVENT) # rej))
      else (case dedup_scan (coordinate e # cs) (ne_event_id e # ids) es of (acc, rej) \<Rightarrow> (e # acc, rej)))"

definition deduplicate_events :: "NormalizedCdcEvent list
    \<Rightarrow> NormalizedCdcEvent list \<times> (NormalizedCdcEvent \<times> QualityCode) list" where
  "deduplicate_events events = dedup_scan [] [] (sort_key event_order_key events)"

section \<open>Rows of Python values\<close>

datatype pyval =
    PNone
  | PBool bool
  | PInt int
  | PDecimal decimal
  | PStr string
  | PTime instant
  | PDate int \<comment> \<open>days since the epoch\<close>
  | PJson json \<comment> \<open>an array, an object or a float constant left as decoded\<close>

type_synonym pyrow = "(string \<times> pyval) list"

fun pyval_of_json :: "json \<Rightarrow> pyval" where
  "pyval_of_json JNull = PNone"
| "pyval_of_json (JBool b) = PBool b"
| "pyval_of_json (JInt i) = PInt i"
| "pyval_of_json (JDecimal d) = PDecimal d"
| "pyval_of_json (JString s) = PStr s"
| "pyval_of_json v = PJson v"

text \<open>\<open>row.get(name)\<close>.\<close>

definition row_get :: "pyrow \<Rightarrow> string \<Rightarrow> pyval" where
  "row_get row name = (case map_of row name of None \<Rightarrow> PNone | Some v \<Rightarrow> v)"

text \<open>\<open>row[name] = value\<close>: an existing key keeps its place.\<close>

fun row_set :: "string \<Rightarrow> pyval \<Rightarrow> pyrow \<Rightarrow> pyrow" where
  "row_set k v [] = [(k, v)]"
| "row_set k v ((k', v') # r) = (if k = k' then (k, v) # r else (k', v') # row_set k v r)"

definition row_pop :: "string \<Rightarrow> pyrow \<Rightarrow> pyrow" where
  "row_pop k row = filter (\<lambda>(k', _). k' \<noteq> k) row"

text \<open>\<open>str(value)\<close>; the text of a container or a time is a parameter of the callers that need it.\<close>

fun pyval_text :: "(pyval \<Rightarrow> string) \<Rightarrow> pyval \<Rightarrow> string" where
  "pyval_text repr PNone = ''None''"
| "pyval_text repr (PBool b) = (if b then ''True'' else ''False'')"
| "pyval_text repr (PInt i) = show_int i"
| "pyval_text repr (PDecimal d) = decimal_str d"
| "pyval_text repr (PStr s) = s"
| "pyval_text repr v = repr v"

text \<open>Python truth of a value.\<close>

fun truthy :: "pyval \<Rightarrow> bool" where
  "truthy PNone = False"
| "truthy (PBool b) = b"
| "truthy (PInt i) = (i \<noteq> 0)"
| "truthy (PDecimal d) = (dec_coeff d \<noteq> 0)"
| "truthy (PStr s) = (s \<noteq> [])"
| "truthy (PTime t) = True"
| "truthy (PDate d) = True"
| "truthy (PJson (JArray vs)) = (vs \<noteq> [])"
| "truthy (PJson (JObject kvs)) = (kvs \<noteq> [])"
| "truthy (PJson v) = True"

text \<open>\<open>value in {None, ""}\<close>: a list or dictionary is not hashable.\<close>

fun none_or_empty :: "pyval \<Rightarrow> bool result" where
  "none_or_empty PNone = Inr True"
| "none_or_empty (PStr s) = Inr (s = [])"
| "none_or_empty (PJson (JArray vs)) = Inl (Type_Error ''unhashable type: list'')"
| "none_or_empty (PJson (JObject kvs)) = Inl (Type_Error ''unhashable type: dict'')"
| "none_or_empty v = Inr False"

section \<open>References\<close>

definition REFERENCE_RULES :: "(string \<times> (string \<times> string) list) list" where
  "REFERENCE_RULES =
     [(''accounts'', [(''customer_id'', ''customers'')]),
      (''payment_transactions'', [(''customer_id'', ''customers''), (''account_id'', ''accounts''), (''merchant_id'', ''merchants'')]),
      (''refunds'', [(''transaction_id'', ''payment_transactions'')])]"

type_synonym known_keys = "(string \<times> string list) list"

definition known :: "known_keys \<Rightarrow> string \<Rightarrow> string list" where
  "known ks entity = (case map_of ks entity of None \<Rightarrow> [] | Some xs \<Rightarrow> xs)"

fun classify_rules :: "(pyval \<Rightarrow> string) \<Rightarrow> NormalizedCdcEvent \<Rightarrow> pyrow \<Rightarrow> known_keys \<Rightarrow> instant
    \<Rightarrow> (string \<times> string) list \<Rightarrow> UnresolvedReference list result" where
  "classify_rules repr e row ks t [] = Inr []"
| "classify_rules repr e row ks t ((field, target) # rules) =
     bindR (none_or_empty (row_get row field)) (\<lambda>absent.
     bindR (classify_rules repr e row ks t rules) (\<lambda>rest.
       let value = pyval_text repr (row_get row field) in
       if absent \<or> value \<in> set (known ks target) then Inr rest
       else Inr (\<lparr>ur_entity_name = ne_entity_name e, ur_business_key = ne_business_key e,
                  ur_reference_entity = target, ur_reference_key = value, ur_reference_field = field,
                  ur_classification = ''TEMPORARILY_UNRESOLVED'', ur_source_event_id = ne_event_id e,
                  ur_processing_run_id = ne_processing_run_id e, ur_observed_at = t\<rparr> # rest)))"

definition classify_unresolved_references :: "(pyval \<Rightarrow> string) \<Rightarrow> NormalizedCdcEvent \<Rightarrow> pyrow \<Rightarrow> known_keys
    \<Rightarrow> instant \<Rightarrow> UnresolvedReference list result" where
  "classify_unresolved_references repr e row ks t =
     classify_rules repr e row ks t
       (case map_of REFERENCE_RULES (ne_entity_name e) of None \<Rightarrow> [] | Some rs \<Rightarrow> rs)"


section \<open>Facts\<close>

text \<open>The scan with the coordinates and identities accepted so far.\<close>

definition dedup_ok :: "(string \<times> int \<times> int) list \<Rightarrow> string list \<Rightarrow> NormalizedCdcEvent list
    \<Rightarrow> NormalizedCdcEvent list \<times> (NormalizedCdcEvent \<times> QualityCode) list \<Rightarrow> bool" where
  "dedup_ok cs ids es r \<longleftrightarrow> (case r of (acc, rej) \<Rightarrow>
     mset acc + mset (map fst rej) = mset es
     \<and> distinct (map coordinate acc) \<and> set (map coordinate acc) \<inter> set cs = {}
     \<and> distinct (map ne_event_id acc) \<and> set (map ne_event_id acc) \<inter> set ids = {}
     \<and> (\<forall>(e, c) \<in> set rej.
          (c = DUPLICATE_COORDINATE \<and> coordinate e \<in> set cs \<union> set (map coordinate acc))
          \<or> (c = DUPLICATE_EVENT \<and> ne_event_id e \<in> set ids \<union> set (map ne_event_id acc)))
     \<and> (sorted (map event_order_key es) \<longrightarrow> sorted (map event_order_key acc)))"

lemma dedup_scan_ok: "dedup_ok cs ids es (dedup_scan cs ids es)"
proof (induction cs ids es rule: dedup_scan.induct)
  case (2 cs ids e es)
  have sub: "set acc \<subseteq> set es" if "mset acc + mset r = mset es" for acc r :: "NormalizedCdcEvent list"
    using that by (metis Un_upper1 set_mset_mset set_mset_union)
  consider "coordinate e \<in> set cs" | "coordinate e \<notin> set cs" "ne_event_id e \<in> set ids"
    | "coordinate e \<notin> set cs" "ne_event_id e \<notin> set ids" by blast
  then show ?case
  proof cases
    case 1
    with "2.IH"(1) show ?thesis by (auto simp: dedup_ok_def split: prod.splits)
  next
    case 2
    with "2.IH"(2) show ?thesis by (auto simp: dedup_ok_def split: prod.splits)
  next
    case 3
    obtain acc rej where r: "dedup_scan (coordinate e # cs) (ne_event_id e # ids) es = (acc, rej)" by fastforce
    with "2.IH"(3) 3 have ih: "dedup_ok (coordinate e # cs) (ne_event_id e # ids) es (acc, rej)" by simp
    then have "set acc \<subseteq> set es" using sub [of acc "map fst rej"] by (simp add: dedup_ok_def)
    with ih r 3 show ?thesis by (auto simp: dedup_ok_def)
  qed
qed (simp add: dedup_ok_def)

lemma row_get_set [simp]: "row_get (row_set k v r) k' = (if k' = k then v else row_get r k')"
  by (induction k v r rule: row_set.induct) (auto simp: row_get_def)

lemma row_get_pop [simp]: "row_get (row_pop k r) k' = (if k' = k then PNone else row_get r k')"
  by (induction r) (auto simp: row_get_def row_pop_def)

section \<open>Properties\<close>

text \<open>
  C23. Deduplication partitions the normalised events: every event is accepted or rejected exactly
  once, accepted events have pairwise distinct Kafka coordinates and identities and come in Kafka
  order, and each rejected event repeats the coordinates or the identity of an accepted one, as
  its quality code says.
\<close>

theorem deduplicate_partition:
  assumes "deduplicate_events events = (accepted, rejected)"
  shows "mset accepted + mset (map fst rejected) = mset events
    \<and> distinct (map coordinate accepted) \<and> distinct (map ne_event_id accepted)
    \<and> sorted (map event_order_key accepted)
    \<and> (\<forall>(e, c) \<in> set rejected. (c = DUPLICATE_COORDINATE \<and> coordinate e \<in> set (map coordinate accepted))
         \<or> (c = DUPLICATE_EVENT \<and> ne_event_id e \<in> set (map ne_event_id accepted)))"
  using dedup_scan_ok [of "[]" "[]" "sort_key event_order_key events"] assms
  by (simp add: deduplicate_events_def dedup_ok_def)

definition sample_normalized :: "int \<Rightarrow> string \<Rightarrow> NormalizedCdcEvent" where
  "sample_normalized offset i =
     \<lparr>ne_event_id = i, ne_entity_name = ''refunds'', ne_business_key = ''r1'', ne_operation = ''c'',
      ne_is_snapshot = False, ne_is_deleted = False, ne_is_tombstone = False, ne_before_json = None,
      ne_after_json = None, ne_business_payload_json = None, ne_source_lsn = Some 1, ne_source_tx_id = None,
      ne_source_ts = None, ne_connector_ts = None, ne_kafka_message_ts = None, ne_kafka_topic = ''t'',
      ne_kafka_partition = 0, ne_kafka_offset = offset, ne_event_time = 0, ne_ingested_at = 0,
      ne_processed_at = 0, ne_processing_run_id = ''run'', ne_source_schema_version = ''v1'',
      ne_silver_schema_version = ''s1''\<rparr>"

theorem deduplicate_partition_witness:
  "\<exists>acc rej. deduplicate_events [sample_normalized 2 ''b'', sample_normalized 1 ''a'', sample_normalized 2 ''c''] = (acc, rej)
     \<and> acc = [sample_normalized 1 ''a'', sample_normalized 2 ''b''] \<and> distinct (map coordinate acc)"
proof -
  have "deduplicate_events [sample_normalized 2 ''b'', sample_normalized 1 ''a'', sample_normalized 2 ''c'']
      = ([sample_normalized 1 ''a'', sample_normalized 2 ''b''], [(sample_normalized 2 ''c'', DUPLICATE_COORDINATE)])"
    by (simp add: deduplicate_events_def event_order_key_def sample_normalized_def coordinate_def)
  from this deduplicate_partition [OF this] show ?thesis by simp
qed

end
