(* ===== verification/Silver_Normalizer.thy ===== *)
theory Silver_Normalizer
  imports Silver_Models
begin

text \<open>
  \<open>processing/silver/cdc_normalizer.py\<close>: the rows of a Bronze table become normalized events or
  bounded rejections, and an event is projected to the typed state of its entity. A row is the
  dictionary \<open>to_pylist\<close> yields. The \<open>repr\<close> of a container or a time is an argument, as nothing in
  the code depends on it. Exceptions the code does not catch are left values.
\<close>

section \<open>Values\<close>

definition SILVER_OPERATIONS :: "string list" where
  "SILVER_OPERATIONS = [''r'', ''c'', ''u'', ''d'', ''t'']"

definition DECIMAL_FIELDS :: "(string \<times> string list) list" where
  "DECIMAL_FIELDS = [(''accounts'', [''balance'']), (''payment_transactions'', [''amount'']), (''refunds'', [''amount''])]"

definition TIMESTAMP_FIELDS :: "(string \<times> string list) list" where
  "TIMESTAMP_FIELDS =
     [(''customers'', [''created_at'', ''updated_at'']), (''accounts'', [''created_at'', ''updated_at'']),
      (''merchants'', [''created_at'', ''updated_at'']),
      (''payment_transactions'', [''requested_at'', ''completed_at'', ''failed_at'', ''created_at'', ''updated_at'']),
      (''transaction_events'', [''event_time'', ''producer_time'', ''created_at'']),
      (''refunds'', [''requested_at'', ''completed_at'', ''created_at'', ''updated_at''])]"

definition fields_of :: "(string \<times> string list) list \<Rightarrow> string \<Rightarrow> string list" where
  "fields_of table entity = (case map_of table entity of None \<Rightarrow> [] | Some fs \<Rightarrow> fs)"

definition normalization_error :: "QualityCode \<Rightarrow> string \<Rightarrow> 'a result" where
  "normalization_error code message = Inl (Silver_Normalization_Error (code_value code) message)"

text \<open>\<open>int(value)\<close>.\<close>

fun py_int :: "pyval \<Rightarrow> int result" where
  "py_int (PBool b) = Inr (if b then 1 else 0)"
| "py_int (PInt i) = Inr i"
| "py_int (PDecimal d) = Inr (decimal_int d)"
| "py_int (PStr s) = int_of_text s"
| "py_int (PJson (JFloat w)) =
     (if w = ''NaN'' then Inl (Value_Error ''cannot convert float NaN to integer'')
      else Inl (Overflow_Error ''cannot convert float infinity to integer''))"
| "py_int v = Inl (Type_Error ''int() argument must be a string, a bytes-like object or a real number'')"

text \<open>\<open>row[name]\<close>.\<close>

definition row_item :: "pyrow \<Rightarrow> string \<Rightarrow> pyval result" where
  "row_item row name = (case map_of row name of None \<Rightarrow> Inl (Key_Error name) | Some v \<Rightarrow> Inr v)"

text \<open>\<open>str(value or fallback)\<close>.\<close>

definition text_or :: "(pyval \<Rightarrow> string) \<Rightarrow> pyval \<Rightarrow> string \<Rightarrow> string" where
  "text_or repr v fallback = (if truthy v then pyval_text repr v else fallback)"

text \<open>\<open>utc(value)\<close>: the times of a table are aware; anything else has no \<open>tzinfo\<close>.\<close>

fun utc_time :: "pyval \<Rightarrow> instant result" where
  "utc_time (PTime t) = Inr t"
| "utc_time v = Inl (Attribute_Error ''object has no attribute tzinfo'')"

definition canonical_json :: "json \<Rightarrow> string" where
  "canonical_json = deterministic_json"

section \<open>Rows to events\<close>

definition json_object :: "pyval \<Rightarrow> string \<Rightarrow> (string \<times> json) list option result" where
  "json_object value field =
     (case value of
        PNone \<Rightarrow> Inr None
      | PStr s \<Rightarrow>
          (case json_loads_text s of
             Inr JNull \<Rightarrow> Inr None
           | Inr (JObject kvs) \<Rightarrow> Inr (Some kvs)
           | Inr _ \<Rightarrow> normalization_error INVALID_JSON (field @ '' must be a JSON object'')
           | Inl (Json_Decode_Error _) \<Rightarrow> normalization_error INVALID_JSON (field @ '' is invalid JSON'')
           | Inl e \<Rightarrow> Inl e)
      | _ \<Rightarrow> Inl (Type_Error ''the JSON object must be str, bytes or bytearray''))"

definition payload_from_key :: "(string \<times> json) list option \<Rightarrow> (string \<times> json) list" where
  "payload_from_key key =
     (case key of
        None \<Rightarrow> []
      | Some kvs \<Rightarrow>
          (case map_of kvs ''payload'' of None \<Rightarrow> kvs | Some (JObject p) \<Rightarrow> p | Some _ \<Rightarrow> []))"

definition epoch_ms :: "pyval \<Rightarrow> instant option result" where
  "epoch_ms value =
     (case value of
        PNone \<Rightarrow> Inr None
      | PBool _ \<Rightarrow> normalization_error INVALID_TIMESTAMP ''Boolean is not a timestamp''
      | v \<Rightarrow>
          (case bindR (py_int v) (\<lambda>n. from_timestamp n 1000) of
             Inr t \<Rightarrow> Inr (Some t)
           | Inl _ \<Rightarrow> normalization_error INVALID_TIMESTAMP ''Epoch milliseconds are invalid''))"

definition optional_column :: "pyrow \<Rightarrow> string \<Rightarrow> int option result" where
  "optional_column row name =
     (if row_get row name = PNone then Inr None else bindR (py_int (row_get row name)) (\<lambda>n. Inr (Some n)))"

definition first_time :: "instant option list \<Rightarrow> instant \<Rightarrow> instant" where
  "first_time ts fallback = (case List.find (\<lambda>t. t \<noteq> None) ts of Some (Some t) \<Rightarrow> t | _ \<Rightarrow> fallback)"

text \<open>The identity of a row: what the code checks and decodes before the business key is known.\<close>

record row_identity =
  ri_topic :: string
  ri_partition :: int
  ri_offset :: int
  ri_before :: "(string \<times> json) list option"
  ri_after :: "(string \<times> json) list option"
  ri_payload :: "(string \<times> json) list option"
  ri_business_key :: string

definition business_key_of :: "(pyval \<Rightarrow> string) \<Rightarrow> string \<Rightarrow> (string \<times> json) list option \<Rightarrow> (string \<times> json) list
    \<Rightarrow> string result" where
  "business_key_of repr key_name payload key =
     (let raw = (case map_of (case payload of None \<Rightarrow> [] | Some p \<Rightarrow> p) key_name of
                   Some v \<Rightarrow> pyval_of_json v
                 | None \<Rightarrow> (case map_of key key_name of Some v \<Rightarrow> pyval_of_json v | None \<Rightarrow> PNone)) in
      bindR (none_or_empty raw) (\<lambda>absent.
        if absent then normalization_error MISSING_BUSINESS_KEY (key_name @ '' is missing'')
        else Inr (pyval_text repr raw)))"

definition identify_row :: "(pyval \<Rightarrow> string) \<Rightarrow> pyrow \<Rightarrow> string \<Rightarrow> string \<Rightarrow> string \<Rightarrow> row_identity result" where
  "identify_row repr row event_id entity operation =
     (case map_of BUSINESS_KEYS entity of
        None \<Rightarrow> normalization_error INVALID_BRONZE_SCHEMA ''CDC entity is unsupported''
      | Some key_name \<Rightarrow>
          if operation \<notin> set SILVER_OPERATIONS
          then normalization_error UNSUPPORTED_OPERATION ''CDC operation is unsupported''
          else
            bindR (row_item row ''kafka_topic'') (\<lambda>t. let topic = pyval_text repr t in
            bindR (bindR (row_item row ''kafka_partition'') py_int) (\<lambda>partition.
            bindR (bindR (row_item row ''kafka_offset'') py_int) (\<lambda>off.
            if event_id \<noteq> deterministic_event_id topic partition off
            then normalization_error DUPLICATE_EVENT ''event_id does not match Kafka coordinates''
            else
              bindR (json_object (row_get row ''before_json'') ''before_json'') (\<lambda>before.
              bindR (json_object (row_get row ''after_json'') ''after_json'') (\<lambda>after.
              bindR (json_object (row_get row ''event_key_json'') ''event_key_json'') (\<lambda>key.
              bindR (json_object (row_get row ''source_metadata_json'') ''source_metadata_json'') (\<lambda>_.
              let payload = (if operation = ''t'' then None else if operation = ''d'' then before else after) in
              bindR (business_key_of repr key_name payload (payload_from_key key)) (\<lambda>business_key.
                Inr \<lparr>ri_topic = topic, ri_partition = partition, ri_offset = off, ri_before = before,
                     ri_after = after, ri_payload = payload, ri_business_key = business_key\<rparr>)))))))))"

definition row_event :: "(pyval \<Rightarrow> string) \<Rightarrow> pyrow \<Rightarrow> string \<Rightarrow> string \<Rightarrow> string \<Rightarrow> row_identity
    \<Rightarrow> string \<Rightarrow> instant \<Rightarrow> string \<Rightarrow> NormalizedCdcEvent result" where
  "row_event repr row event_id entity operation ri run_id processed_at silver_schema_version =
     bindR (epoch_ms (row_get row ''source_ts_ms'')) (\<lambda>source_ts.
     bindR (epoch_ms (row_get row ''connector_ts_ms'')) (\<lambda>connector_ts.
     bindR (epoch_ms (row_get row ''kafka_message_ts_ms'')) (\<lambda>kafka_ts.
     bindR (bindR (row_item row ''ingested_at'') utc_time) (\<lambda>ingested_at.
     bindR (optional_column row ''source_lsn'') (\<lambda>lsn.
     bindR (optional_column row ''source_tx_id'') (\<lambda>tx.
     bindR (row_item row ''schema_version'') (\<lambda>version.
       Inr \<lparr>ne_event_id = event_id, ne_entity_name = entity, ne_business_key = ri_business_key ri,
            ne_operation = operation, ne_is_snapshot = (operation = ''r''),
            ne_is_deleted = (operation \<in> {''d'', ''t''}), ne_is_tombstone = (operation = ''t''),
            ne_before_json = map_option (\<lambda>kvs. canonical_json (JObject kvs)) (ri_before ri),
            ne_after_json = map_option (\<lambda>kvs. canonical_json (JObject kvs)) (ri_after ri),
            ne_business_payload_json = map_option (\<lambda>kvs. canonical_json (JObject kvs)) (ri_payload ri),
            ne_source_lsn = lsn, ne_source_tx_id = tx, ne_source_ts = source_ts,
            ne_connector_ts = connector_ts, ne_kafka_message_ts = kafka_ts,
            ne_kafka_topic = ri_topic ri, ne_kafka_partition = ri_partition ri,
            ne_kafka_offset = ri_offset ri,
            ne_event_time = first_time [source_ts, connector_ts, kafka_ts] ingested_at,
            ne_ingested_at = ingested_at, ne_processed_at = processed_at, ne_processing_run_id = run_id,
            ne_source_schema_version = pyval_text repr version,
            ne_silver_schema_version = silver_schema_version\<rparr>)))))))"

text \<open>The exceptions \<open>normalize_cdc_table\<close> turns into a rejection of the row.\<close>

fun row_error :: "exn \<Rightarrow> bool" where
  "row_error (Key_Error m) = True"
| "row_error (Type_Error m) = True"
| "row_error e = is_value_error e"

definition quality_code :: "string \<Rightarrow> QualityCode option" where
  "quality_code s = List.find (\<lambda>c. code_value c = s)
     [INVALID_BRONZE_SCHEMA, INVALID_JSON, MISSING_BUSINESS_KEY, INVALID_DECIMAL, INVALID_TIMESTAMP,
      UNSUPPORTED_OPERATION, DUPLICATE_EVENT, DUPLICATE_COORDINATE, OUT_OF_ORDER_EVENT, INVALID_REFERENCE,
      SCHEMA_VERSION_UNSUPPORTED]"

fun error_code :: "exn \<Rightarrow> QualityCode" where
  "error_code (Silver_Normalization_Error c m) =
     (case quality_code c of Some q \<Rightarrow> q | None \<Rightarrow> INVALID_BRONZE_SCHEMA)"
| "error_code e = INVALID_BRONZE_SCHEMA"

definition row_rejection :: "InputObject \<Rightarrow> string \<Rightarrow> string \<Rightarrow> string option \<Rightarrow> exn \<Rightarrow> string \<Rightarrow> instant
    \<Rightarrow> QualityRejection" where
  "row_rejection input event_id entity business_key e run_id processed_at =
     quality_rejection (io_uri input) (if event_id = [] then None else Some event_id) entity business_key
       (error_code e) (exn_message e) (''row:event_id='' @ (if event_id = [] then ''unknown'' else event_id))
       run_id processed_at"

definition normalize_row :: "(pyval \<Rightarrow> string) \<Rightarrow> InputObject \<Rightarrow> string \<Rightarrow> instant \<Rightarrow> string \<Rightarrow> pyrow
    \<Rightarrow> (NormalizedCdcEvent + QualityRejection) result" where
  "normalize_row repr input run_id processed_at silver_schema_version row =
     (let event_id = text_or repr (row_get row ''event_id'') [];
          entity = text_or repr (row_get row ''entity_name'') ''unknown'';
          operation = text_or repr (row_get row ''operation'') [];
          fail = (\<lambda>business_key e. if row_error e
                    then Inr (Inr (row_rejection input event_id entity business_key e run_id processed_at))
                    else Inl e)
      in case identify_row repr row event_id entity operation of
           Inl e \<Rightarrow> fail None e
         | Inr ri \<Rightarrow>
             (case row_event repr row event_id entity operation ri run_id processed_at silver_schema_version of
                Inl e \<Rightarrow> fail (Some (ri_business_key ri)) e
              | Inr ev \<Rightarrow> Inr (Inl ev)))"

fun normalize_rows :: "(pyrow \<Rightarrow> (NormalizedCdcEvent + QualityRejection) result) \<Rightarrow> pyrow list
    \<Rightarrow> (NormalizedCdcEvent list \<times> QualityRejection list) result" where
  "normalize_rows f [] = Inr ([], [])"
| "normalize_rows f (row # rows) =
     bindR (f row) (\<lambda>x. bindR (normalize_rows f rows) (\<lambda>(events, rejections).
       Inr (case x of Inl ev \<Rightarrow> (ev # events, rejections) | Inr rej \<Rightarrow> (events, rej # rejections))))"

definition normalize_cdc_table :: "(pyval \<Rightarrow> string) \<Rightarrow> pyrow list \<Rightarrow> InputObject \<Rightarrow> string \<Rightarrow> instant \<Rightarrow> string
    \<Rightarrow> (NormalizedCdcEvent list \<times> QualityRejection list) result" where
  "normalize_cdc_table repr table input run_id processed_at silver_schema_version =
     normalize_rows (normalize_row repr input run_id processed_at silver_schema_version) table"

section \<open>Typed values\<close>

text \<open>
  The number a base64 text encodes. \<open>scaleb\<close> would round a coefficient of more than 28 digits to
  28, which \<open>quantize\<close> refuses as it refuses the unrounded one.
\<close>

definition precise_decimal :: "nat \<Rightarrow> string \<Rightarrow> decimal result" where
  "precise_decimal scale s =
     (case b64decode_strict s of
        None \<Rightarrow> normalization_error INVALID_DECIMAL ''Precise Decimal encoding is invalid''
      | Some raw \<Rightarrow>
          if raw = [] then normalization_error INVALID_DECIMAL ''Precise Decimal encoding is invalid''
          else (let v = signed_int_of_bytes raw in Inr (Decimal (v < 0) (nat \<bar>v\<bar>) (- int scale))))"

text \<open>The parsed number; \<open>None\<close> when it is not finite.\<close>

definition money_value :: "nat \<Rightarrow> pyval \<Rightarrow> decimal option result" where
  "money_value scale value =
     (case value of
        PJson (JFloat _) \<Rightarrow> normalization_error INVALID_DECIMAL ''Float money is forbidden''
      | PDecimal d \<Rightarrow> Inr (Some d)
      | PInt i \<Rightarrow> Inr (Some (Decimal (i < 0) (nat \<bar>i\<bar>) 0))
      | PBool b \<Rightarrow> Inr (Some (Decimal False (if b then 1 else 0) 0))
      | PStr s \<Rightarrow>
          (case decimal_of_text s of
             Some d \<Rightarrow> Inr d
           | None \<Rightarrow> bindR (precise_decimal scale s) (\<lambda>d. Inr (Some d)))
      | _ \<Rightarrow> normalization_error INVALID_DECIMAL ''Money value is not Decimal-compatible'')"

definition decode_decimal :: "nat \<Rightarrow> nat \<Rightarrow> pyval \<Rightarrow> decimal result" where
  "decode_decimal precision scale value =
     bindR (money_value scale value) (\<lambda>parsed. case parsed of
       None \<Rightarrow> normalization_error INVALID_DECIMAL ''Money value must be finite''
     | Some d \<Rightarrow>
         (case quantize scale d of
            None \<Rightarrow> normalization_error INVALID_DECIMAL ''Money scale is invalid''
          | Some quantized \<Rightarrow>
              if precision < digit_count (dec_coeff quantized)
              then normalization_error INVALID_DECIMAL ''Money precision exceeds NUMERIC(18,2)''
              else Inr quantized))"

definition timestamp_of_int :: "int \<Rightarrow> instant option result" where
  "timestamp_of_int n =
     (case from_timestamp n (if 100000000000000 \<le> \<bar>n\<bar> then 1000000 else 1000) of
        Inr t \<Rightarrow> Inr (Some t)
      | Inl _ \<Rightarrow> normalization_error INVALID_TIMESTAMP ''Debezium timestamp is out of range'')"

definition decode_debezium_timestamp :: "pyval \<Rightarrow> instant option result" where
  "decode_debezium_timestamp value =
     (case value of
        PNone \<Rightarrow> Inr None
      | PTime t \<Rightarrow> Inr (Some t)
      | PBool _ \<Rightarrow> normalization_error INVALID_TIMESTAMP ''Boolean is not a timestamp''
      | PInt n \<Rightarrow> timestamp_of_int n
      | PDecimal d \<Rightarrow> timestamp_of_int (decimal_int d)
      | PStr s \<Rightarrow>
          if s = [] then Inr None
          else (case datetime_fromisoformat (replace_zulu s) of
              Inl _ \<Rightarrow> normalization_error INVALID_TIMESTAMP ''Timestamp is not ISO-8601''
            | Inr (Naive _) \<Rightarrow> normalization_error INVALID_TIMESTAMP ''Timestamp must include timezone''
            | Inr (Aware local off) \<Rightarrow> bindR (astimezone_utc local off) (\<lambda>t. Inr (Some t)))
      | _ \<Rightarrow> normalization_error INVALID_TIMESTAMP ''Timestamp representation is unsupported'')"

section \<open>State of an entity\<close>

definition optional_int_value :: "int option \<Rightarrow> pyval" where
  "optional_int_value n = (case n of None \<Rightarrow> PNone | Some i \<Rightarrow> PInt i)"

definition optional_time_value :: "instant option \<Rightarrow> pyval" where
  "optional_time_value t = (case t of None \<Rightarrow> PNone | Some x \<Rightarrow> PTime x)"

definition optional_text_value :: "string option \<Rightarrow> pyval" where
  "optional_text_value t = (case t of None \<Rightarrow> PNone | Some x \<Rightarrow> PStr x)"

text \<open>\<open>row.update(entries)\<close>.\<close>

definition row_update :: "pyrow \<Rightarrow> pyrow \<Rightarrow> pyrow" where
  "row_update row entries = foldl (\<lambda>r (k, v). row_set k v r) row entries"

text \<open>The lineage both \<open>project_entity_state\<close> and \<open>_apply_event_lineage\<close> store in a state row.\<close>

definition lineage :: "NormalizedCdcEvent \<Rightarrow> bool \<Rightarrow> pyrow" where
  "lineage e is_deleted =
     [(''is_deleted'', PBool is_deleted), (''source_lsn'', optional_int_value (ne_source_lsn e)),
      (''kafka_topic'', PStr (ne_kafka_topic e)), (''kafka_partition'', PInt (ne_kafka_partition e)),
      (''kafka_offset'', PInt (ne_kafka_offset e)), (''effective_event_time'', PTime (ne_event_time e)),
      (''processed_at'', PTime (ne_processed_at e)), (''processing_run_id'', PStr (ne_processing_run_id e)),
      (''source_schema_version'', PStr (ne_source_schema_version e)),
      (''silver_schema_version'', PStr (ne_silver_schema_version e))]"

text \<open>\<open>str(row.pop("full_name", "")).strip()\<close> split at its first space.\<close>

definition split_full_name :: "(pyval \<Rightarrow> string) \<Rightarrow> pyrow \<Rightarrow> pyrow" where
  "split_full_name repr row =
     (let full_name = py_strip (case map_of row ''full_name'' of None \<Rightarrow> [] | Some v \<Rightarrow> pyval_text repr v);
          first = takeWhile (\<lambda>c. c \<noteq> CHR '' '') full_name; rest = drop (length first) full_name
      in row_set ''last_name'' (if rest = [] then PNone else PStr (tl rest))
           (row_set ''first_name'' (if first = [] then PNone else PStr first) (row_pop ''full_name'' row)))"

fun decode_decimals :: "string list \<Rightarrow> pyrow \<Rightarrow> pyrow result" where
  "decode_decimals [] row = Inr row"
| "decode_decimals (f # fs) row =
     (if row_get row f = PNone then decode_decimals fs row
      else bindR (decode_decimal 18 2 (row_get row f)) (\<lambda>d. decode_decimals fs (row_set f (PDecimal d) row)))"

fun decode_timestamps :: "string list \<Rightarrow> pyrow \<Rightarrow> pyrow result" where
  "decode_timestamps [] row = Inr row"
| "decode_timestamps (f # fs) row =
     bindR (decode_debezium_timestamp (row_get row f)) (\<lambda>t. decode_timestamps fs (row_set f (optional_time_value t) row))"

definition project_transaction_event :: "(string \<times> json) list \<Rightarrow> pyrow \<Rightarrow> pyrow result" where
  "project_transaction_event payload row =
     bindR (if row_get row ''event_version'' = PNone then Inr row
            else bindR (py_int (row_get row ''event_version'')) (\<lambda>n. Inr (row_set ''event_version'' (PInt n) row)))
       (\<lambda>row1. Inr (row_set ''event_payload_json''
          (case map_of payload ''event_payload'' of
             None \<Rightarrow> PNone | Some JNull \<Rightarrow> PNone | Some v \<Rightarrow> PStr (canonical_json v))
          (row_pop ''event_payload'' row1)))"

definition required_references :: "string \<Rightarrow> string list" where
  "required_references entity =
     (if entity = ''accounts'' then [''customer_id'']
      else if entity = ''payment_transactions'' then [''customer_id'', ''account_id'']
      else if entity = ''refunds'' then [''transaction_id''] else [])"

text \<open>
  The fields of a Python set are visited in an unspecified order; the model takes the written one.
  It decides only which of several bad fields of a row is reported.
\<close>

definition project_entity_state :: "(pyval \<Rightarrow> string) \<Rightarrow> NormalizedCdcEvent \<Rightarrow> pyrow result" where
  "project_entity_state repr e =
     (case ne_business_payload_json e of
        None \<Rightarrow> normalization_error INVALID_BRONZE_SCHEMA ''State event has no business payload''
      | Some text \<Rightarrow>
          bindR (json_object (PStr text) ''business_payload_json'') (\<lambda>parsed.
          let payload = (case parsed of None \<Rightarrow> [] | Some kvs \<Rightarrow> kvs);
              row0 = map (\<lambda>(k, v). (k, pyval_of_json v)) payload;
              row1 = (if ne_entity_name e = ''customers'' then split_full_name repr row0 else row0) in
          bindR (decode_decimals (fields_of DECIMAL_FIELDS (ne_entity_name e)) row1) (\<lambda>row2.
          bindR (decode_timestamps (fields_of TIMESTAMP_FIELDS (ne_entity_name e)) row2) (\<lambda>row3.
          bindR (if ne_entity_name e = ''transaction_events'' then project_transaction_event payload row3 else Inr row3) (\<lambda>row4.
          let missing = filter (\<lambda>f. \<not> truthy (row_get row4 f)) (required_references (ne_entity_name e)) in
          if missing \<noteq> []
          then normalization_error INVALID_REFERENCE (''Required reference is missing: '' @ join_with '', '' missing)
          else Inr (row_update row4 (lineage e (ne_is_deleted e))))))))"

definition history_row :: "NormalizedCdcEvent \<Rightarrow> pyrow" where
  "history_row e =
     [(''event_id'', PStr (ne_event_id e)), (''entity_name'', PStr (ne_entity_name e)),
      (''business_key'', PStr (ne_business_key e)), (''operation'', PStr (ne_operation e)),
      (''is_snapshot'', PBool (ne_is_snapshot e)), (''is_deleted'', PBool (ne_is_deleted e)),
      (''is_tombstone'', PBool (ne_is_tombstone e)), (''before_json'', optional_text_value (ne_before_json e)),
      (''after_json'', optional_text_value (ne_after_json e)),
      (''business_payload_json'', optional_text_value (ne_business_payload_json e)),
      (''source_lsn'', optional_int_value (ne_source_lsn e)), (''source_tx_id'', optional_int_value (ne_source_tx_id e)),
      (''source_ts'', optional_time_value (ne_source_ts e)), (''connector_ts'', optional_time_value (ne_connector_ts e)),
      (''kafka_message_ts'', optional_time_value (ne_kafka_message_ts e)), (''kafka_topic'', PStr (ne_kafka_topic e)),
      (''kafka_partition'', PInt (ne_kafka_partition e)), (''kafka_offset'', PInt (ne_kafka_offset e)),
      (''event_time'', PTime (ne_event_time e)), (''ingested_at'', PTime (ne_ingested_at e)),
      (''processed_at'', PTime (ne_processed_at e)), (''processing_run_id'', PStr (ne_processing_run_id e)),
      (''source_schema_version'', PStr (ne_source_schema_version e)),
      (''silver_schema_version'', PStr (ne_silver_schema_version e))]"

section \<open>Facts about rows\<close>

text \<open>What a normalized event says of its Kafka record and of its own payloads.\<close>

definition normalized_ok :: "string \<Rightarrow> instant \<Rightarrow> string \<Rightarrow> NormalizedCdcEvent \<Rightarrow> bool" where
  "normalized_ok run_id t version e \<longleftrightarrow>
     ne_event_id e = deterministic_event_id (ne_kafka_topic e) (ne_kafka_partition e) (ne_kafka_offset e)
     \<and> map_of BUSINESS_KEYS (ne_entity_name e) \<noteq> None
     \<and> ne_operation e \<in> set SILVER_OPERATIONS
     \<and> (ne_is_snapshot e \<longleftrightarrow> ne_operation e = ''r'')
     \<and> (ne_is_deleted e \<longleftrightarrow> ne_operation e \<in> {''d'', ''t''})
     \<and> (ne_is_tombstone e \<longleftrightarrow> ne_operation e = ''t'')
     \<and> ne_business_payload_json e = (if ne_is_tombstone e then None else if ne_is_deleted e then ne_before_json e else ne_after_json e)
     \<and> ne_processing_run_id e = run_id \<and> ne_processed_at e = t \<and> ne_silver_schema_version e = version"

definition bounded_rejection :: "InputObject \<Rightarrow> string \<Rightarrow> instant \<Rightarrow> QualityRejection \<Rightarrow> bool" where
  "bounded_rejection input run_id t r \<longleftrightarrow> qr_source_object_uri r = io_uri input
     \<and> length (qr_error_message r) \<le> 1000 \<and> length (qr_raw_reference r) \<le> 512
     \<and> qr_processing_run_id r = run_id \<and> qr_rejected_at r = t"

lemma bounded_quality_rejection [simp]:
  "bounded_rejection input run_id t (quality_rejection (io_uri input) ev entity key code message raw run_id t)"
  by (simp add: bounded_rejection_def quality_rejection_def)

lemma identify_row_ok:
  assumes "identify_row repr row event_id entity operation = Inr ri"
  shows "event_id = deterministic_event_id (ri_topic ri) (ri_partition ri) (ri_offset ri)
    \<and> map_of BUSINESS_KEYS entity \<noteq> None \<and> operation \<in> set SILVER_OPERATIONS
    \<and> ri_payload ri = (if operation = ''t'' then None else if operation = ''d'' then ri_before ri else ri_after ri)"
  using assms unfolding identify_row_def normalization_error_def
  by (auto simp: bindR_eq_Inr Let_def split: option.splits if_splits)

lemma row_event_ok:
  assumes "row_event repr row event_id entity operation ri run_id t version = Inr e"
  shows "ne_event_id e = event_id \<and> ne_entity_name e = entity \<and> ne_operation e = operation
    \<and> ne_is_snapshot e = (operation = ''r'') \<and> ne_is_deleted e = (operation \<in> {''d'', ''t''})
    \<and> ne_is_tombstone e = (operation = ''t'')
    \<and> ne_kafka_topic e = ri_topic ri \<and> ne_kafka_partition e = ri_partition ri \<and> ne_kafka_offset e = ri_offset ri
    \<and> ne_before_json e = map_option (\<lambda>kvs. canonical_json (JObject kvs)) (ri_before ri)
    \<and> ne_after_json e = map_option (\<lambda>kvs. canonical_json (JObject kvs)) (ri_after ri)
    \<and> ne_business_payload_json e = map_option (\<lambda>kvs. canonical_json (JObject kvs)) (ri_payload ri)
    \<and> ne_business_key e = ri_business_key ri
    \<and> ne_processing_run_id e = run_id \<and> ne_processed_at e = t \<and> ne_silver_schema_version e = version"
  using assms unfolding row_event_def by (auto simp: bindR_eq_Inr)

lemma normalize_row_ok:
  assumes "normalize_row repr input run_id t version row = Inr x"
  shows "case x of Inl e \<Rightarrow> normalized_ok run_id t version e | Inr r \<Rightarrow> bounded_rejection input run_id t r"
proof (cases x)
  case (Inl e)
  let ?id = "text_or repr (row_get row ''event_id'') []" and ?en = "text_or repr (row_get row ''entity_name'') ''unknown''"
  let ?op = "text_or repr (row_get row ''operation'') []"
  obtain ri where ri: "identify_row repr row ?id ?en ?op = Inr ri"
    and ev: "row_event repr row ?id ?en ?op ri run_id t version = Inr e"
    using assms Inl by (auto simp: normalize_row_def Let_def split: sum.splits if_splits)
  from identify_row_ok [OF ri] row_event_ok [OF ev] show ?thesis by (auto simp: Inl normalized_ok_def)
next
  case (Inr r)
  with assms show ?thesis
    by (auto simp: normalize_row_def Let_def row_rejection_def split: sum.splits if_splits)
qed

lemma normalize_rows_ok:
  assumes "normalize_rows f table = Inr (events, rejections)"
    and "\<And>row x. row \<in> set table \<Longrightarrow> f row = Inr x \<Longrightarrow> (case x of Inl e \<Rightarrow> P e | Inr r \<Rightarrow> Q r)"
  shows "length events + length rejections = length table \<and> (\<forall>e \<in> set events. P e) \<and> (\<forall>r \<in> set rejections. Q r)"
  using assms
proof (induction table arbitrary: events rejections)
  case (Cons row rows)
  obtain x es rs where f: "f row = Inr x" and n: "normalize_rows f rows = Inr (es, rs)"
    and r: "(events, rejections) = (case x of Inl ev \<Rightarrow> (ev # es, rs) | Inr rej \<Rightarrow> (es, rej # rs))"
    using Cons.prems(1) by (auto simp: bindR_eq_Inr)
  have "case x of Inl e \<Rightarrow> P e | Inr r \<Rightarrow> Q r" using Cons.prems(2) [OF _ f] by simp
  moreover have "length es + length rs = length rows \<and> (\<forall>e \<in> set es. P e) \<and> (\<forall>r \<in> set rs. Q r)"
    by (rule Cons.IH [OF n]) (rule Cons.prems(2), simp_all)
  ultimately show ?case using r by (auto split: sum.splits)
qed simp


section \<open>Row isolation\<close>

fun escaping :: "exn \<Rightarrow> bool" where
  "escaping (Invalid_Operation m) = True"
| "escaping e = row_error e"

lemma json_exn_escaping: "json_exn e \<Longrightarrow> escaping e"
  by (cases e) simp_all

lemma raises_normalization [raises_rules]: "raises escaping (normalization_error code m)"
  by (simp add: normalization_error_def)

lemma raises_json_object [raises_rules]: "raises escaping (json_object v field)"
proof (cases v)
  case (PStr s)
  then show ?thesis
    using json_loads_text_raises [of s]
    by (cases "json_loads_text s")
      (auto simp: json_object_def normalization_error_def raises_def split: json.splits exn.splits dest: json_exn_escaping)
qed (simp_all add: json_object_def)

lemma raises_py_int [raises_rules]: "(\<And>w. v \<noteq> PJson (JFloat w)) \<Longrightarrow> raises escaping (py_int v)"
  by (cases v rule: py_int.cases) (auto simp: int_of_text_def Let_def)

lemma raises_none_or_empty [raises_rules]: "raises escaping (none_or_empty v)"
  by (cases v rule: none_or_empty.cases) simp_all

lemma raises_business_key [raises_rules]: "raises escaping (business_key_of repr n p k)"
  unfolding business_key_of_def Let_def by (intro raises_rules)

lemma raises_row_item [raises_rules]: "raises escaping (row_item row n)"
  by (simp add: row_item_def split: option.splits)

lemma raises_epoch_ms [raises_rules]: "raises escaping (epoch_ms v)"
  by (auto simp: epoch_ms_def normalization_error_def split: pyval.splits sum.splits)

text \<open>The columns the Arrow schema of Bronze types as integers, and the ingestion time.\<close>

definition integer_column :: "pyrow \<Rightarrow> string \<Rightarrow> bool" where
  "integer_column row n \<longleftrightarrow> (\<forall>v. map_of row n = Some v \<longrightarrow> v = PNone \<or> (\<exists>i. v = PInt i))"

definition bronze_typed :: "pyrow \<Rightarrow> bool" where
  "bronze_typed row \<longleftrightarrow> list_all (integer_column row) [''kafka_partition'', ''kafka_offset'', ''source_lsn'', ''source_tx_id'']
     \<and> (\<exists>t. map_of row ''ingested_at'' = Some (PTime t))"

lemma raises_int_column:
  "integer_column row n \<Longrightarrow> raises escaping (bindR (row_item row n) py_int)"
  "integer_column row n \<Longrightarrow> raises escaping (optional_column row n)"
  by (auto simp: integer_column_def row_item_def optional_column_def row_get_def split: option.splits)

lemma normalize_row_raises:
  assumes "bronze_typed row"
  shows "raises (\<lambda>e. \<exists>m. e = Invalid_Operation m) (normalize_row repr input run_id t version row)"
proof -
  have cols: "integer_column row ''kafka_partition''" "integer_column row ''kafka_offset''"
    "integer_column row ''source_lsn''" "integer_column row ''source_tx_id''"
    and time: "raises escaping (bindR (row_item row ''ingested_at'') utc_time)"
    using assms by (auto simp: bronze_typed_def row_item_def)
  have id: "raises escaping (identify_row repr row i e op)" for i e op
    unfolding identify_row_def Let_def by (intro raises_rules raises_int_column cols)
  have ev: "raises escaping (row_event repr row i e op ri run_id t version)" for i e op ri
    unfolding row_event_def by (intro raises_rules raises_int_column cols time)
  have esc: "escaping e \<Longrightarrow> \<not> row_error e \<Longrightarrow> \<exists>m. e = Invalid_Operation m" for e
    by (cases e) simp_all
  show ?thesis
    unfolding normalize_row_def Let_def
    using raisesD [OF id] raisesD [OF ev] esc
    by (auto simp: raises_def split: sum.splits)
qed


lemma digit_count_bound: "n < 10 ^ digit_count n"
proof -
  have "n < 10 ^ length (show_nat n)"
  proof (induction n rule: show_nat.induct)
    case (1 n)
    then show ?case by (cases "n < 10") (auto simp: show_nat.simps [of n])
  qed
  then show ?thesis by (simp add: digit_count_def)
qed

text \<open>The quantized number is the nearest multiple of the scale, exactly the number when it has no more digits.\<close>

definition rounds_to :: "nat \<Rightarrow> decimal \<Rightarrow> decimal \<Rightarrow> bool" where
  "rounds_to scale d q \<longleftrightarrow> dec_neg q = dec_neg d \<and> dec_exp q = - int scale
     \<and> (let shift = dec_exp d + int scale in
        if 0 \<le> shift then dec_coeff q = dec_coeff d * 10 ^ nat shift
        else \<bar>2 * (int (dec_coeff q) * 10 ^ nat (- shift) - int (dec_coeff d))\<bar> \<le> 10 ^ nat (- shift))"

lemma half_even_div_nonneg: "0 \<le> a \<Longrightarrow> 0 < b \<Longrightarrow> 0 \<le> half_even_div a b"
  by (auto simp: half_even_div_def Let_def pos_imp_zdiv_nonneg_iff)

lemma quantize_rounds: "quantize scale d = Some q \<Longrightarrow> rounds_to scale d q"
proof -
  assume q: "quantize scale d = Some q"
  let ?s = "dec_exp d + int scale"
  have nn: "0 \<le> half_even_div (int (dec_coeff d)) (10 ^ nat (- ?s))" by (rule half_even_div_nonneg) simp_all
  show ?thesis
    using q half_even_div_bound [of "10 ^ nat (- ?s)" "int (dec_coeff d)"] nn
    by (auto simp: quantize_def rounds_to_def Let_def split: if_splits)
qed

lemma decode_decimal_Inr:
  assumes "decode_decimal 18 2 value = Inr q"
  obtains d where "money_value 2 value = Inr (Some d)" "rounds_to 2 d q" "dec_coeff q < 10 ^ 18"
proof -
  from assms obtain parsed where p: "money_value 2 value = Inr parsed"
    by (auto simp: decode_decimal_def bindR_eq_Inr)
  with assms obtain d where d: "parsed = Some d"
    by (cases parsed) (auto simp: decode_decimal_def normalization_error_def)
  have q: "quantize 2 d = Some q" and c: "digit_count (dec_coeff q) \<le> 18"
    using assms by (auto simp: decode_decimal_def p d normalization_error_def split: option.splits if_splits)
  have "dec_coeff q < 10 ^ digit_count (dec_coeff q)" by (rule digit_count_bound)
  also have "\<dots> \<le> 10 ^ 18" using c by (intro power_increasing) simp_all
  finally show ?thesis using that p d quantize_rounds [OF q] by simp
qed

text \<open>
  C30. Money is decoded to hundredths: the result has scale two and at most eighteen digits, and it
  is the parsed number rounded half to even, never more than half a hundredth away and exact when
  the number has at most two fractional digits.
\<close>

theorem decode_decimal_bounds:
  assumes "decode_decimal 18 2 value = Inr q"
  shows "dec_exp q = -2 \<and> dec_coeff q < 10 ^ 18 \<and> (\<exists>d. money_value 2 value = Inr (Some d) \<and> rounds_to 2 d q)"
  using assms by (rule decode_decimal_Inr) (auto simp: rounds_to_def)

theorem decode_decimal_bounds_witness:
  "decode_decimal 18 2 (PDecimal (Decimal False 12355 (-3))) = Inr (Decimal False 1236 (-2))
   \<and> dec_coeff (Decimal False 1236 (-2)) < 10 ^ 18"
proof -
  have "decode_decimal 18 2 (PDecimal (Decimal False 12355 (-3))) = Inr (Decimal False 1236 (-2))"
    by (simp add: decode_decimal_def money_value_def quantize_def half_even_div_def digit_count_def show_nat.simps)
  with decode_decimal_bounds [OF this] show ?thesis by simp
qed

text \<open>A table of one good and one bad row.\<close>

definition sample_table :: "pyrow list" where
  "sample_table =
     [[(''event_id'', PStr (deterministic_event_id ''t'' 0 1)), (''entity_name'', PStr ''customers''),
       (''operation'', PStr ''t''), (''kafka_topic'', PStr ''t''), (''kafka_partition'', PInt 0),
       (''kafka_offset'', PInt 1), (''event_key_json'', PStr (replace_char (CHR ''!'') (CHR 0x22) ''{!customer_id!:!c1!}'')),
       (''ingested_at'', PTime 7), (''schema_version'', PStr ''v1'')],
      [(''event_id'', PNone), (''kafka_offset'', PInt 2), (''ingested_at'', PTime 8)]]"

definition sample_input :: InputObject where
  "sample_input = \<lparr>io_uri = ''s3://bronze/k'', io_bucket = ''bronze'', io_object_key = ''k'',
     io_checksum_sha256 = ''c'', io_size_bytes = 1, io_metadata = []\<rparr>"

lemma sample_normalized_table:
  "\<exists>e r. normalize_cdc_table (\<lambda>_. []) sample_table sample_input ''run'' 9 ''v2'' = Inr ([e], [r])"
proof -
  have key: "json_loads_text (replace_char (CHR ''!'') (CHR 0x22) ''{!customer_id!:!c1!}'') = Inr (JObject [(''customer_id'', JString ''c1'')])"
    by code_simp
  show ?thesis
    by (simp add: sample_table_def normalize_cdc_table_def normalize_row_def identify_row_def row_event_def text_or_def
        row_item_def row_get_def BUSINESS_KEYS_def SILVER_OPERATIONS_def json_object_def key payload_from_key_def
        business_key_of_def epoch_ms_def optional_column_def normalization_error_def sha256_hex_nonempty deterministic_event_id_def Let_def)
qed



section \<open>Typed state rows\<close>

fun money_cell :: "pyval \<Rightarrow> bool" where
  "money_cell PNone = True"
| "money_cell (PDecimal d) = (dec_exp d = -2 \<and> dec_coeff d < 10 ^ 18)"
| "money_cell v = False"

fun time_cell :: "pyval \<Rightarrow> bool" where
  "time_cell PNone = True"
| "time_cell (PTime t) = True"
| "time_cell v = False"

lemma decode_decimal_cell: "decode_decimal 18 2 v = Inr q \<Longrightarrow> money_cell (PDecimal q)"
  by (erule decode_decimal_Inr) (simp add: rounds_to_def)

lemma decode_decimals_typed:
  "decode_decimals fs row = Inr row' \<Longrightarrow> (\<forall>f \<in> set fs. money_cell (row_get row' f)) \<and> (\<forall>f. f \<notin> set fs \<longrightarrow> row_get row' f = row_get row f)
     \<and> (\<forall>f. money_cell (row_get row f) \<longrightarrow> money_cell (row_get row' f))"
proof (induction fs arbitrary: row)
  case (Cons f fs)
  show ?case
  proof (cases "row_get row f = PNone")
    case True
    with Cons.IH [of row] Cons.prems show ?thesis by auto
  next
    case False
    then obtain d where d: "decode_decimal 18 2 (row_get row f) = Inr d" and r: "decode_decimals fs (row_set f (PDecimal d) row) = Inr row'"
      using Cons.prems by (auto simp: bindR_eq_Inr)
    from Cons.IH [OF r] decode_decimal_cell [OF d] show ?thesis by auto
  qed
qed simp

lemma decode_timestamps_typed:
  "decode_timestamps fs row = Inr row' \<Longrightarrow> (\<forall>f \<in> set fs. time_cell (row_get row' f)) \<and> (\<forall>f. f \<notin> set fs \<longrightarrow> row_get row' f = row_get row f)"
proof (induction fs arbitrary: row)
  case (Cons f fs)
  then obtain t where r: "decode_timestamps fs (row_set f (optional_time_value t) row) = Inr row'"
    by (auto simp: bindR_eq_Inr)
  have "time_cell (row_get row' f)" if "f \<notin> set fs" using that Cons.IH [OF r] by (cases t) (simp_all add: optional_time_value_def)
  with Cons.IH [OF r] show ?case by auto
qed simp

lemma row_get_update: "row_get (row_update row entries) k = (case map_of (rev entries) k of Some v \<Rightarrow> v | None \<Rightarrow> row_get row k)"
  unfolding row_update_def
  by (induction entries arbitrary: row) (auto simp: map_add_def split: option.splits)

lemma row_update_lineage:
  "row_get (row_update row (lineage e b)) k = (case map_of (lineage e b) k of Some v \<Rightarrow> v | None \<Rightarrow> row_get row k)"
  by (simp add: row_get_update lineage_def)

lemma decimal_field_names: "f \<in> set (fields_of DECIMAL_FIELDS en) \<Longrightarrow> f \<in> {''balance'', ''amount''}"
  by (auto simp: fields_of_def DECIMAL_FIELDS_def split: option.splits if_splits)

lemma timestamp_field_names: "f \<in> set (fields_of TIMESTAMP_FIELDS en) \<Longrightarrow>
    f \<in> {''created_at'', ''updated_at'', ''requested_at'', ''completed_at'', ''failed_at'', ''event_time'', ''producer_time''}"
  by (auto simp: fields_of_def TIMESTAMP_FIELDS_def split: option.splits if_splits)

lemma required_field_names: "f \<in> set (required_references en) \<Longrightarrow> f \<in> {''customer_id'', ''account_id'', ''transaction_id''}"
  by (auto simp: required_references_def split: if_splits)

lemma lineage_names: "map_of (lineage e b) f \<noteq> None \<longleftrightarrow> f \<in> fst ` set (lineage e b)"
  by (simp add: map_of_eq_None_iff)

lemma project_transaction_event_get:
  "project_transaction_event p row = Inr row' \<Longrightarrow> f \<notin> {''event_version'', ''event_payload_json'', ''event_payload''} \<Longrightarrow> row_get row' f = row_get row f"
  by (auto simp: project_transaction_event_def bindR_eq_Inr split: if_splits)

text \<open>
  C31. The state row of an entity is well typed: its money columns are null or hold at most eighteen
  digits with two of them fractional, its time columns are null or instants, its required
  references are present, and its lineage columns are those of the event.
\<close>

theorem project_state_typed:
  assumes "project_entity_state repr e = Inr row"
  shows "list_all (\<lambda>f. money_cell (row_get row f)) (fields_of DECIMAL_FIELDS (ne_entity_name e))
    \<and> list_all (\<lambda>f. time_cell (row_get row f)) (fields_of TIMESTAMP_FIELDS (ne_entity_name e))
    \<and> list_all (\<lambda>f. truthy (row_get row f)) (required_references (ne_entity_name e))
    \<and> list_all (\<lambda>(k, v). row_get row k = v) (lineage e (ne_is_deleted e))"
proof -
  let ?en = "ne_entity_name e" and ?lin = "lineage e (ne_is_deleted e)"
  obtain p row1 row2 row3 row4
    where r2: "decode_decimals (fields_of DECIMAL_FIELDS ?en) row1 = Inr row2"
      and r3: "decode_timestamps (fields_of TIMESTAMP_FIELDS ?en) row2 = Inr row3"
      and r4: "(if ?en = ''transaction_events'' then project_transaction_event p row3 else Inr row3) = Inr row4"
      and refs: "filter (\<lambda>f. \<not> truthy (row_get row4 f)) (required_references ?en) = []"
      and row: "row = row_update row4 ?lin"
  proof (cases "ne_business_payload_json e")
    case None
    with assms show ?thesis by (simp add: project_entity_state_def normalization_error_def)
  next
    case (Some raw)
    show ?thesis
      using assms unfolding project_entity_state_def Some option.case Let_def
      by (elim bindR_InrE) (auto simp: normalization_error_def intro: that split: if_split_asm)
  qed
  have keep: "row_get row f = row_get row4 f" if "f \<notin> fst ` set ?lin" for f
    using that lineage_names [of e "ne_is_deleted e" f] by (auto simp: row row_update_lineage split: option.splits)
  have r4': "row_get row4 f = row_get row3 f" if "f \<notin> {''event_version'', ''event_payload_json'', ''event_payload''}" for f
    using r4 project_transaction_event_get [of p row3 row4 f] that by (auto split: if_splits)
  have "money_cell (row_get row f)" if f: "f \<in> set (fields_of DECIMAL_FIELDS ?en)" for f
  proof -
    have n: "f \<in> {''balance'', ''amount''}" using f by (rule decimal_field_names)
    have "f \<notin> set (fields_of TIMESTAMP_FIELDS ?en)" using n timestamp_field_names [of f ?en] by auto
    then have "row_get row3 f = row_get row2 f" using decode_timestamps_typed [OF r3] by blast
    moreover have "money_cell (row_get row2 f)" using decode_decimals_typed [OF r2] f by blast
    ultimately show ?thesis using keep [of f] r4' [of f] n by (auto simp: lineage_def)
  qed
  moreover have "time_cell (row_get row f)" if f: "f \<in> set (fields_of TIMESTAMP_FIELDS ?en)" for f
  proof -
    have "time_cell (row_get row3 f)" using decode_timestamps_typed [OF r3] f by blast
    then show ?thesis using keep [of f] r4' [of f] timestamp_field_names [OF f] by (auto simp: lineage_def)
  qed
  moreover have "truthy (row_get row f)" if f: "f \<in> set (required_references ?en)" for f
    using refs f keep [of f] required_field_names [OF f] by (auto simp: filter_empty_conv lineage_def)
  moreover have "list_all (\<lambda>(k, v). row_get row k = v) ?lin"
    by (simp add: row row_update_lineage) (simp add: lineage_def)
  ultimately show ?thesis by (simp add: list_all_iff)
qed

definition sample_account_event :: NormalizedCdcEvent where
  "sample_account_event = (sample_normalized 3 ''e3'')\<lparr>ne_entity_name := ''accounts'', ne_operation := ''c'', ne_is_tombstone := False,
     ne_business_payload_json := Some (replace_char (CHR ''!'') (CHR 0x22) ''{!balance!:!1.25!,!customer_id!:!c1!}'')\<rparr>"

theorem project_state_typed_witness:
  "\<exists>row. project_entity_state (\<lambda>_. []) sample_account_event = Inr row
     \<and> row_get row ''balance'' = PDecimal (Decimal False 125 (-2)) \<and> money_cell (row_get row ''balance'')"
proof -
  have p: "json_object (PStr (replace_char (CHR ''!'') (CHR 0x22) ''{!balance!:!1.25!,!customer_id!:!c1!}'')) ''business_payload_json''
      = Inr (Some [(''balance'', JString ''1.25''), (''customer_id'', JString ''c1'')])"
    by code_simp
  have d: "decode_decimal 18 2 (PStr ''1.25'') = Inr (Decimal False 125 (-2))" by code_simp
  obtain row where r: "project_entity_state (\<lambda>_. []) sample_account_event = Inr row"
    and b: "row_get row ''balance'' = PDecimal (Decimal False 125 (-2))"
    by (simp add: project_entity_state_def sample_account_event_def p Let_def fields_of_def DECIMAL_FIELDS_def TIMESTAMP_FIELDS_def
        row_get_def d decode_debezium_timestamp_def required_references_def row_update_def lineage_def)
  from project_state_typed [OF r] r b show ?thesis
    by (auto simp: sample_account_event_def fields_of_def DECIMAL_FIELDS_def)
qed

end
