(* ===== verification/Silver_State.thy ===== *)
theory Silver_State
  imports Silver_Normalizer "HOL-Library.AList"
begin

text \<open>
  The state transition of \<open>SilverProcessor._transform_and_write_cdc\<close>
  (\<open>processing/silver/processor.py\<close>): the published rows of an entity are keyed by business key
  and the accepted events are applied to them in Kafka order. The store and the manifest are in
  \<open>Silver_Processor\<close>.
\<close>

section \<open>Applying events\<close>

record silver_fold =
  sf_state :: "(string \<times> pyrow) list"
  sf_event_rows :: "pyrow list"
  sf_unresolved :: "UnresolvedReference list"
  sf_rejections :: "QualityRejection list"
  sf_known :: known_keys

text \<open>\<open>state[key] = row\<close>, a dictionary assignment.\<close>

definition state_set :: "string \<Rightarrow> pyrow \<Rightarrow> (string \<times> pyrow) list \<Rightarrow> (string \<times> pyrow) list" where
  "state_set k row st = AList.update k row st"

definition get_or :: "pyrow \<Rightarrow> string \<Rightarrow> pyval \<Rightarrow> pyval" where
  "get_or row name fallback = (case map_of row name of None \<Rightarrow> fallback | Some v \<Rightarrow> v)"

definition event_reference :: "NormalizedCdcEvent \<Rightarrow> string" where
  "event_reference e = ''coordinate:'' @ ne_kafka_topic e @ '':'' @ show_int (ne_kafka_partition e) @ '':'' @ show_int (ne_kafka_offset e)"

definition event_rejection :: "InputObject \<Rightarrow> NormalizedCdcEvent \<Rightarrow> QualityCode \<Rightarrow> string \<Rightarrow> instant \<Rightarrow> QualityRejection" where
  "event_rejection input e code message t =
     quality_rejection (io_uri input) (Some (ne_event_id e)) (ne_entity_name e) (Some (ne_business_key e)) code message
       (event_reference e) (ne_processing_run_id e) t"

definition apply_event_lineage :: "pyrow \<Rightarrow> NormalizedCdcEvent \<Rightarrow> bool \<Rightarrow> pyrow" where
  "apply_event_lineage row e is_deleted = row_update row (lineage e is_deleted)"

text \<open>What the loop does with one event: nothing, a rejection, or a new row.\<close>

datatype event_action = Ignore | Reject QualityCode string | Write pyrow

text \<open>The comparison with the published row of the same business key; \<open>None\<close> lets the event through.\<close>

definition check_order :: "(pyval \<Rightarrow> string) \<Rightarrow> pyrow \<Rightarrow> NormalizedCdcEvent \<Rightarrow> event_action option result" where
  "check_order repr prior e =
     (let prior_topic = pyval_text repr (get_or prior ''kafka_topic'' (PStr [])) in
      bindR (py_int (get_or prior ''kafka_partition'' (PInt (-1)))) (\<lambda>prior_partition.
      bindR (py_int (get_or prior ''kafka_offset'' (PInt (-1)))) (\<lambda>prior_offset.
        Inr (if prior_topic = ne_kafka_topic e \<and> prior_partition = ne_kafka_partition e
             then if ne_kafka_offset e \<le> prior_offset
                  then Some (if ne_kafka_offset e < prior_offset
                             then Reject OUT_OF_ORDER_EVENT ''CDC event precedes the published entity state'' else Ignore)
                  else None
             else if prior_topic = ne_kafka_topic e
             then Some (Reject OUT_OF_ORDER_EVENT ''Business key moved across Kafka partitions'')
             else None))))"

definition project_event :: "(pyval \<Rightarrow> string) \<Rightarrow> pyrow option \<Rightarrow> NormalizedCdcEvent \<Rightarrow> event_action result" where
  "project_event repr prior e =
     (if ne_is_tombstone e
      then Inr (case prior of None \<Rightarrow> Ignore | Some row \<Rightarrow> Write (apply_event_lineage row e True))
      else (case project_entity_state repr e of
          Inr row \<Rightarrow> Inr (Write row)
        | Inl (Silver_Normalization_Error c m) \<Rightarrow> Inr (Reject (error_code (Silver_Normalization_Error c m)) m)
        | Inl x \<Rightarrow> Inl x))"

definition event_action :: "(pyval \<Rightarrow> string) \<Rightarrow> (string \<times> pyrow) list \<Rightarrow> NormalizedCdcEvent \<Rightarrow> event_action result" where
  "event_action repr st e =
     (case map_of st (ne_business_key e) of
        None \<Rightarrow> project_event repr None e
      | Some row \<Rightarrow>
          bindR (check_order repr row e) (\<lambda>stop. case stop of
            Some a \<Rightarrow> Inr a
          | None \<Rightarrow> project_event repr (Some row) e))"

text \<open>\<open>known_keys.setdefault(entity, set()).add(key)\<close>.\<close>

definition add_known :: "string \<Rightarrow> string \<Rightarrow> known_keys \<Rightarrow> known_keys" where
  "add_known entity key ks = AList.update entity (List.insert key (known ks entity)) ks"

definition apply_event :: "(pyval \<Rightarrow> string) \<Rightarrow> InputObject \<Rightarrow> string \<Rightarrow> instant \<Rightarrow> NormalizedCdcEvent \<Rightarrow> silver_fold
    \<Rightarrow> silver_fold result" where
  "apply_event repr input entity t e sf =
     bindR (event_action repr (sf_state sf) e) (\<lambda>a. case a of
       Ignore \<Rightarrow> Inr sf
     | Reject code message \<Rightarrow> Inr (sf\<lparr>sf_rejections := sf_rejections sf @ [event_rejection input e code message t]\<rparr>)
     | Write row \<Rightarrow>
         if entity = ''transaction_events'' then Inr (sf\<lparr>sf_event_rows := sf_event_rows sf @ [row]\<rparr>)
         else (let ks = add_known entity (ne_business_key e) (sf_known sf) in
               bindR (classify_unresolved_references repr e row ks t) (\<lambda>refs.
                 Inr (sf\<lparr>sf_state := state_set (ne_business_key e) row (sf_state sf), sf_known := ks,
                         sf_unresolved := sf_unresolved sf @ refs\<rparr>))))"

fun apply_events :: "(pyval \<Rightarrow> string) \<Rightarrow> InputObject \<Rightarrow> string \<Rightarrow> instant \<Rightarrow> NormalizedCdcEvent list \<Rightarrow> silver_fold
    \<Rightarrow> silver_fold result" where
  "apply_events repr input entity t [] sf = Inr sf"
| "apply_events repr input entity t (e # es) sf =
     bindR (apply_event repr input entity t e sf) (apply_events repr input entity t es)"

text \<open>\<open>{str(row[BUSINESS_KEYS[entity]]): row for row in prior_state}\<close>.\<close>

fun key_rows :: "(pyval \<Rightarrow> string) \<Rightarrow> string \<Rightarrow> pyrow list \<Rightarrow> (string \<times> pyrow) list \<Rightarrow> (string \<times> pyrow) list result" where
  "key_rows repr key_name [] st = Inr st"
| "key_rows repr key_name (row # rows) st =
     bindR (row_item row key_name) (\<lambda>v. key_rows repr key_name rows (state_set (pyval_text repr v) row st))"

definition prior_state_of :: "(pyval \<Rightarrow> string) \<Rightarrow> string \<Rightarrow> pyrow list \<Rightarrow> (string \<times> pyrow) list result" where
  "prior_state_of repr entity rows =
     (if rows = [] then Inr []
      else (case map_of BUSINESS_KEYS entity of
          None \<Rightarrow> Inl (Key_Error entity)
        | Some key_name \<Rightarrow> key_rows repr key_name rows []))"

text \<open>\<open>latest_rows\<close> and \<open>current_rows\<close>.\<close>

definition latest_rows :: "(string \<times> pyrow) list \<Rightarrow> pyrow list" where
  "latest_rows st = map (\<lambda>k. the (map_of st k)) (sort (map fst st))"

fun current_rows :: "pyrow list \<Rightarrow> pyrow list result" where
  "current_rows [] = Inr []"
| "current_rows (row # rows) =
     bindR (row_item row ''is_deleted'') (\<lambda>d. bindR (current_rows rows) (\<lambda>rest.
       Inr (if truthy d then rest else row # rest)))"

section \<open>Coordinates of a state row\<close>

text \<open>The Kafka coordinates the loop reads back from a state row.\<close>

definition row_at :: "(pyval \<Rightarrow> string) \<Rightarrow> pyrow \<Rightarrow> string \<Rightarrow> int \<Rightarrow> int \<Rightarrow> bool" where
  "row_at repr row topic p n \<longleftrightarrow> pyval_text repr (get_or row ''kafka_topic'' (PStr [])) = topic
     \<and> py_int (get_or row ''kafka_partition'' (PInt (-1))) = Inr p
     \<and> py_int (get_or row ''kafka_offset'' (PInt (-1))) = Inr n"

lemma map_of_row_set [simp]: "map_of (row_set k v r) k' = (if k' = k then Some v else map_of r k')"
  by (induction k v r rule: row_set.induct) auto

lemma map_of_row_update: "map_of (row_update row entries) k = (case map_of (rev entries) k of Some v \<Rightarrow> Some v | None \<Rightarrow> map_of row k)"
  unfolding row_update_def
  by (induction entries arbitrary: row) (auto simp: map_add_def split: option.splits)

lemma row_at_lineage: "row_at repr (row_update row (lineage e b)) (ne_kafka_topic e) (ne_kafka_partition e) (ne_kafka_offset e)"
  by (simp add: row_at_def get_or_def map_of_row_update lineage_def)

lemma row_at_unique: "row_at repr row t p n \<Longrightarrow> row_at repr row t' p' n' \<Longrightarrow> t = t' \<and> p = p' \<and> n = n'"
  by (auto simp: row_at_def)

lemma check_order_at:
  assumes "row_at repr row topic p n"
  shows "check_order repr row e = Inr (if topic = ne_kafka_topic e \<and> p = ne_kafka_partition e
      then if ne_kafka_offset e \<le> n
           then Some (if ne_kafka_offset e < n
                      then Reject OUT_OF_ORDER_EVENT ''CDC event precedes the published entity state'' else Ignore)
           else None
      else if topic = ne_kafka_topic e then Some (Reject OUT_OF_ORDER_EVENT ''Business key moved across Kafka partitions'')
      else None)"
  using assms by (simp add: check_order_def row_at_def)

lemma project_state_lineage: "project_entity_state repr e = Inr row \<Longrightarrow> \<exists>r b. row = row_update r (lineage e b)"
proof -
  assume p: "project_entity_state repr e = Inr row"
  show ?thesis
  proof (cases "ne_business_payload_json e")
    case None
    with p show ?thesis by (simp add: project_entity_state_def normalization_error_def)
  next
    case (Some raw)
    show ?thesis
      using p unfolding project_entity_state_def Some option.case Let_def
      by (elim bindR_InrE) (auto simp: normalization_error_def split: if_split_asm)
  qed
qed

lemma project_event_write: "project_event repr prior e = Inr (Write row) \<Longrightarrow> \<exists>r b. row = row_update r (lineage e b)"
  by (auto simp: project_event_def apply_event_lineage_def dest: project_state_lineage
      split: if_splits option.splits sum.splits exn.splits)

lemma event_action_write: "event_action repr st e = Inr (Write row) \<Longrightarrow>
    row_at repr row (ne_kafka_topic e) (ne_kafka_partition e) (ne_kafka_offset e)"
proof -
  assume "event_action repr st e = Inr (Write row)"
  then have "\<exists>prior. project_event repr prior e = Inr (Write row)"
    by (auto simp: event_action_def check_order_def Let_def bindR_eq_Inr split: option.splits if_splits)
  then show ?thesis using project_event_write row_at_lineage by blast
qed

lemma apply_event_cases:
  assumes "apply_event repr input entity t e sf = Inr sf'" and "entity \<noteq> ''transaction_events''"
  obtains (kept) a where "event_action repr (sf_state sf) e = Inr a" "\<forall>row. a \<noteq> Write row" "sf_state sf' = sf_state sf"
  | (wrote) row where "event_action repr (sf_state sf) e = Inr (Write row)" "sf_state sf' = state_set (ne_business_key e) row (sf_state sf)"
proof -
  obtain a where a: "event_action repr (sf_state sf) e = Inr a" using assms(1) by (auto simp: apply_event_def bindR_eq_Inr)
  show thesis
  proof (cases a)
    case (Write row)
    with assms a show ?thesis by (auto simp: apply_event_def Let_def bindR_eq_Inr intro: wrote)
  qed (use assms a in \<open>auto simp: apply_event_def intro: kept\<close>)
qed

lemma state_set_get [simp]: "map_of (state_set k row st) k' = (if k' = k then Some row else map_of st k')"
  by (simp add: state_set_def update_conv')

section \<open>Replays\<close>

definition settled :: "(pyval \<Rightarrow> string) \<Rightarrow> (string \<times> pyrow) list \<Rightarrow> NormalizedCdcEvent \<Rightarrow> bool" where
  "settled repr st e \<longleftrightarrow> (\<exists>a. event_action repr st e = Inr a \<and> (\<forall>row. a \<noteq> Write row))"

lemma settled_at:
  assumes "map_of st (ne_business_key e) = Some row" and "row_at repr row (ne_kafka_topic e) (ne_kafka_partition e) n"
    and "ne_kafka_offset e \<le> n"
  shows "settled repr st e"
  using assms by (simp add: settled_def event_action_def check_order_at)

lemma settled_apply:
  assumes "apply_event repr input entity t e sf = Inr sf'" and "entity \<noteq> ''transaction_events''"
  shows "settled repr (sf_state sf') e"
  using assms
proof (cases rule: apply_event_cases)
  case (wrote row)
  show ?thesis by (rule settled_at [OF _ event_action_write [OF wrote(1)]]) (simp_all add: wrote)
qed (auto simp: settled_def)

lemma settled_later:
  assumes "apply_event repr input entity t e' sf = Inr sf'" and "entity \<noteq> ''transaction_events''"
    and "settled repr (sf_state sf) e" and "ne_kafka_topic e = ne_kafka_topic e'"
    and "ne_kafka_partition e = ne_kafka_partition e'" and "ne_kafka_offset e \<le> ne_kafka_offset e'"
  shows "settled repr (sf_state sf') e"
  using assms(1,2)
proof (cases rule: apply_event_cases)
  case (wrote row)
  show ?thesis
  proof (cases "ne_business_key e = ne_business_key e'")
    case True
    show ?thesis
      by (rule settled_at [of _ _ row]) (use True event_action_write [OF wrote(1)] assms(4-6) in \<open>simp_all add: wrote(2)\<close>)
  next
    case False
    with assms(3) show ?thesis by (simp add: settled_def event_action_def wrote(2))
  qed
qed (use assms(3) in simp)

lemma settled_all:
  assumes "apply_events repr input entity t es sf = Inr sf'" and "entity \<noteq> ''transaction_events''"
    and "\<forall>e \<in> set es. ne_kafka_topic e = topic \<and> ne_kafka_partition e = p" and "sorted (map ne_kafka_offset es)"
    and "\<forall>e \<in> D. settled repr (sf_state sf) e \<and> ne_kafka_topic e = topic \<and> ne_kafka_partition e = p
          \<and> (\<forall>e' \<in> set es. ne_kafka_offset e \<le> ne_kafka_offset e')"
  shows "\<forall>e \<in> D \<union> set es. settled repr (sf_state sf') e"
  using assms
proof (induction es arbitrary: sf D)
  case (Cons e es)
  obtain sf1 where s1: "apply_event repr input entity t e sf = Inr sf1" and s2: "apply_events repr input entity t es sf1 = Inr sf'"
    using Cons.prems(1) by (auto simp: bindR_eq_Inr)
  have "\<forall>x \<in> insert e D. settled repr (sf_state sf1) x \<and> ne_kafka_topic x = topic \<and> ne_kafka_partition x = p
          \<and> (\<forall>e' \<in> set es. ne_kafka_offset x \<le> ne_kafka_offset e')"
    using settled_apply [OF s1 Cons.prems(2)] settled_later [OF s1 Cons.prems(2)] Cons.prems by auto
  from Cons.IH [OF s2 Cons.prems(2) _ _ this] Cons.prems(3,4) show ?case by simp
qed simp

lemma apply_settled:
  assumes "\<forall>e \<in> set es. settled repr (sf_state sf) e"
  shows "\<exists>sf'. apply_events repr input entity t es sf = Inr sf' \<and> sf_state sf' = sf_state sf \<and> sf_event_rows sf' = sf_event_rows sf
    \<and> sf_unresolved sf' = sf_unresolved sf \<and> sf_known sf' = sf_known sf"
  using assms
proof (induction es arbitrary: sf)
  case (Cons e es)
  then obtain a where a: "event_action repr (sf_state sf) e = Inr a" "\<forall>row. a \<noteq> Write row" by (auto simp: settled_def)
  then obtain sf1 where s1: "apply_event repr input entity t e sf = Inr sf1" and eq: "sf_state sf1 = sf_state sf"
      "sf_event_rows sf1 = sf_event_rows sf" "sf_unresolved sf1 = sf_unresolved sf" "sf_known sf1 = sf_known sf"
    by (cases a) (auto simp: apply_event_def)
  from Cons.IH [of sf1] Cons.prems s1 eq show ?case by auto
qed simp

text \<open>
  C26. Replaying a Bronze object is harmless: applying the same events of one partition, in offset
  order, to the state they produced leaves every published row, the event rows, the unresolved
  references and the known keys as they are.
\<close>

theorem silver_replay_idempotent:
  assumes "apply_events repr input entity t es sf = Inr sf1" and "entity \<noteq> ''transaction_events''"
    and "\<forall>e \<in> set es. ne_kafka_topic e = topic \<and> ne_kafka_partition e = p" and "sorted (map ne_kafka_offset es)"
    and "sf_state replay = sf_state sf1"
  shows "\<exists>sf2. apply_events repr input' entity t' es replay = Inr sf2 \<and> sf_state sf2 = sf_state sf1
    \<and> sf_event_rows sf2 = sf_event_rows replay \<and> sf_unresolved sf2 = sf_unresolved replay \<and> sf_known sf2 = sf_known replay"
proof -
  have "\<forall>e \<in> set es. settled repr (sf_state replay) e"
    using settled_all [OF assms(1-4), of "{}"] assms(5) by simp
  from apply_settled [OF this] assms(5) show ?thesis by simp
qed

section \<open>No regression\<close>

lemma apply_event_advances:
  assumes "apply_event repr input entity t e sf = Inr sf'" and "ne_kafka_topic e = topic"
    and "map_of (sf_state sf) k = Some row" and "row_at repr row topic p n"
  shows "\<exists>row' n'. map_of (sf_state sf') k = Some row' \<and> row_at repr row' topic p n' \<and> n \<le> n'"
proof (cases "entity = ''transaction_events''")
  case True
  then have "sf_state sf' = sf_state sf"
    using assms(1) unfolding apply_event_def
    by (elim bindR_InrE) (auto split: event_action.split_asm)
  with assms(3,4) show ?thesis by auto
next
  case False
  with assms(1) show ?thesis
  proof (cases rule: apply_event_cases)
    case (wrote row')
    show ?thesis
    proof (cases "ne_business_key e = k")
      case True
      have "p = ne_kafka_partition e \<and> n < ne_kafka_offset e"
        using wrote(1) assms(2,3) True
        by (auto simp: event_action_def check_order_at [OF assms(4)] split: if_splits)
      then show ?thesis using event_action_write [OF wrote(1)] True wrote(2) assms(2) by fastforce
    qed (use assms(3,4) wrote(2) in auto)
  qed (use assms(3,4) in auto)
qed

text \<open>
  C27. The published state never goes back: when the events of a run are of one topic, no business
  key disappears, and the row of a key published from that topic stays on its partition at the
  same or a later offset.
\<close>

theorem silver_state_never_regresses:
  assumes "apply_events repr input entity t es sf = Inr sf'" and "\<forall>e \<in> set es. ne_kafka_topic e = topic"
    and "map_of (sf_state sf) k = Some row" and "row_at repr row topic p n"
  shows "\<exists>row' n'. map_of (sf_state sf') k = Some row' \<and> row_at repr row' topic p n' \<and> n \<le> n'"
  using assms
proof (induction es arbitrary: sf row n)
  case (Cons e es)
  obtain sf1 where s1: "apply_event repr input entity t e sf = Inr sf1" and s2: "apply_events repr input entity t es sf1 = Inr sf'"
    using Cons.prems(1) by (auto simp: bindR_eq_Inr)
  have "ne_kafka_topic e = topic" using Cons.prems(2) by simp
  from apply_event_advances [OF s1 this Cons.prems(3,4)] obtain row1 n1 where
    "map_of (sf_state sf1) k = Some row1" "row_at repr row1 topic p n1" "n \<le> n1" by blast
  with Cons.IH [OF s2 _ this(1,2)] Cons.prems(2) show ?case by fastforce
qed auto

text \<open>One published customer and the tombstone that deletes it.\<close>

definition sample_fold :: silver_fold where
  "sample_fold = \<lparr>sf_state = [(ne_business_key (sample_normalized 3 ''e3''),
       [(''kafka_topic'', PStr (ne_kafka_topic (sample_normalized 3 ''e3''))), (''kafka_partition'', PInt (ne_kafka_partition (sample_normalized 3 ''e3''))), (''kafka_offset'', PInt 1), (''is_deleted'', PBool False)])],
     sf_event_rows = [], sf_unresolved = [], sf_rejections = [], sf_known = []\<rparr>"

definition sample_tombstone :: NormalizedCdcEvent where
  "sample_tombstone = (sample_normalized 3 ''e3'')\<lparr>ne_entity_name := ''customers'', ne_operation := ''t'', ne_is_deleted := True, ne_is_tombstone := True,
     ne_business_payload_json := None\<rparr>"

lemma sample_fold_run: "\<exists>sf'. apply_events (\<lambda>_. []) sample_input ''customers'' 9 [sample_tombstone] sample_fold = Inr sf'"
  by (simp add: apply_event_def event_action_def sample_fold_def sample_tombstone_def sample_normalized_def check_order_def get_or_def
      project_event_def classify_unresolved_references_def REFERENCE_RULES_def Let_def)

theorem silver_replay_idempotent_witness:
  "\<exists>sf1 sf2. apply_events (\<lambda>_. []) sample_input ''customers'' 9 [sample_tombstone] sample_fold = Inr sf1
     \<and> apply_events (\<lambda>_. []) sample_input ''customers'' 10 [sample_tombstone] sf1 = Inr sf2 \<and> sf_state sf2 = sf_state sf1"
proof -
  obtain sf1 where s: "apply_events (\<lambda>_. []) sample_input ''customers'' 9 [sample_tombstone] sample_fold = Inr sf1"
    using sample_fold_run by blast
  have "\<exists>sf2. apply_events (\<lambda>_. []) sample_input ''customers'' 10 [sample_tombstone] sf1 = Inr sf2 \<and> sf_state sf2 = sf_state sf1
      \<and> sf_event_rows sf2 = sf_event_rows sf1 \<and> sf_unresolved sf2 = sf_unresolved sf1 \<and> sf_known sf2 = sf_known sf1"
    by (rule silver_replay_idempotent [OF s, where topic = "ne_kafka_topic sample_tombstone" and p = "ne_kafka_partition sample_tombstone"]) simp_all
  with s show ?thesis by blast
qed

theorem silver_state_never_regresses_witness:
  "\<exists>sf' row' n'. apply_events (\<lambda>_. []) sample_input ''customers'' 9 [sample_tombstone] sample_fold = Inr sf'
     \<and> map_of (sf_state sf') (ne_business_key sample_tombstone) = Some row'
     \<and> row_at (\<lambda>_. []) row' (ne_kafka_topic sample_tombstone) (ne_kafka_partition sample_tombstone) n' \<and> 1 \<le> n'"
proof -
  obtain sf1 where s: "apply_events (\<lambda>_. []) sample_input ''customers'' 9 [sample_tombstone] sample_fold = Inr sf1"
    using sample_fold_run by blast
  obtain row where m: "map_of (sf_state sample_fold) (ne_business_key sample_tombstone) = Some row"
    and r: "row_at (\<lambda>_. []) row (ne_kafka_topic sample_tombstone) (ne_kafka_partition sample_tombstone) 1"
    by (simp add: sample_fold_def sample_tombstone_def sample_normalized_def row_at_def get_or_def)
  from silver_state_never_regresses [OF s _ m r] s show ?thesis by simp
qed

end
