(* ===== verification/Silver_Store.thy ===== *)
theory Silver_Store
  imports Silver_State Storage Cdc_Storage
begin

text \<open>
  The data sets of Silver and their store: \<open>schemas.py\<close>, \<open>parquet.py\<close>, \<open>storage.py\<close> and
  \<open>bronze_reader.py\<close> of \<open>processing/silver\<close>. The Parquet library is a parameter: a writer from a
  schema and rows to bytes, and a reader from bytes to a schema and rows; an unreadable payload
  is \<open>OSError\<close> or \<open>ArrowInvalid\<close>, a \<open>ValueError\<close>. Temporary files are private to a call and are
  not modelled: a serialized table is its bytes.
\<close>

section \<open>Schemas\<close>

text \<open>A column has a name, an Arrow type and its nullability; the metadata of a schema is left out.\<close>

type_synonym arrow_schema = "(string \<times> string \<times> bool) list"

definition LINEAGE_FIELDS :: arrow_schema where
  "LINEAGE_FIELDS =
     [(''is_deleted'', ''bool'', False), (''source_lsn'', ''int64'', True),
      (''kafka_topic'', ''string'', False), (''kafka_partition'', ''int32'', False),
      (''kafka_offset'', ''int64'', False), (''effective_event_time'', ''timestamp[us, tz=UTC]'', False),
      (''processed_at'', ''timestamp[us, tz=UTC]'', False), (''processing_run_id'', ''string'', False),
      (''source_schema_version'', ''string'', False), (''silver_schema_version'', ''string'', False)]"

definition ENTITY_SCHEMAS :: "(string \<times> arrow_schema) list" where
  "ENTITY_SCHEMAS =
     [(''customers'',
       [(''customer_id'', ''string'', False), (''external_customer_ref'', ''string'', True),
        (''first_name'', ''string'', True), (''last_name'', ''string'', True), (''email'', ''string'', True),
        (''country_code'', ''string'', True), (''status'', ''string'', True),
        (''created_at'', ''timestamp[us, tz=UTC]'', True), (''updated_at'', ''timestamp[us, tz=UTC]'', True)] @ LINEAGE_FIELDS),
      (''accounts'',
       [(''account_id'', ''string'', False), (''customer_id'', ''string'', False),
        (''account_number'', ''string'', True), (''currency'', ''string'', True),
        (''balance'', ''decimal128(18, 2)'', True), (''status'', ''string'', True),
        (''created_at'', ''timestamp[us, tz=UTC]'', True), (''updated_at'', ''timestamp[us, tz=UTC]'', True)] @ LINEAGE_FIELDS),
      (''merchants'',
       [(''merchant_id'', ''string'', False), (''merchant_code'', ''string'', True),
        (''external_reference'', ''string'', True), (''merchant_name'', ''string'', True),
        (''category_code'', ''string'', True), (''country_code'', ''string'', True),
        (''settlement_currency'', ''string'', True), (''status'', ''string'', True),
        (''created_at'', ''timestamp[us, tz=UTC]'', True), (''updated_at'', ''timestamp[us, tz=UTC]'', True)] @ LINEAGE_FIELDS),
      (''payment_transactions'',
       [(''transaction_id'', ''string'', False), (''customer_id'', ''string'', False),
        (''account_id'', ''string'', False), (''destination_account_id'', ''string'', True),
        (''merchant_id'', ''string'', True), (''transaction_type'', ''string'', True),
        (''payment_channel'', ''string'', True), (''amount'', ''decimal128(18, 2)'', True),
        (''currency'', ''string'', True), (''status'', ''string'', True),
        (''partner_reference'', ''string'', True), (''idempotency_key'', ''string'', True),
        (''failure_code'', ''string'', True), (''requested_at'', ''timestamp[us, tz=UTC]'', True),
        (''completed_at'', ''timestamp[us, tz=UTC]'', True), (''failed_at'', ''timestamp[us, tz=UTC]'', True),
        (''created_at'', ''timestamp[us, tz=UTC]'', True), (''updated_at'', ''timestamp[us, tz=UTC]'', True)] @ LINEAGE_FIELDS),
      (''transaction_events'',
       [(''event_id'', ''string'', False), (''transaction_id'', ''string'', False),
        (''event_type'', ''string'', True), (''event_version'', ''int32'', True),
        (''previous_status'', ''string'', True), (''new_status'', ''string'', True),
        (''event_time'', ''timestamp[us, tz=UTC]'', True),
        (''producer_time'', ''timestamp[us, tz=UTC]'', True), (''trace_id'', ''string'', True),
        (''source_system'', ''string'', True), (''event_payload_json'', ''large_string'', True),
        (''created_at'', ''timestamp[us, tz=UTC]'', True)] @ LINEAGE_FIELDS),
      (''refunds'',
       [(''refund_id'', ''string'', False), (''transaction_id'', ''string'', False),
        (''amount'', ''decimal128(18, 2)'', True), (''currency'', ''string'', True),
        (''status'', ''string'', True), (''reason_code'', ''string'', True),
        (''partner_reference'', ''string'', True), (''requested_at'', ''timestamp[us, tz=UTC]'', True),
        (''completed_at'', ''timestamp[us, tz=UTC]'', True), (''created_at'', ''timestamp[us, tz=UTC]'', True),
        (''updated_at'', ''timestamp[us, tz=UTC]'', True)] @ LINEAGE_FIELDS)]"

definition HISTORY_SCHEMA :: arrow_schema where
  "HISTORY_SCHEMA =
     [(''event_id'', ''string'', False), (''entity_name'', ''string'', False),
      (''business_key'', ''string'', False), (''operation'', ''string'', False),
      (''is_snapshot'', ''bool'', False), (''is_deleted'', ''bool'', False),
      (''is_tombstone'', ''bool'', False), (''before_json'', ''large_string'', True),
      (''after_json'', ''large_string'', True), (''business_payload_json'', ''large_string'', True),
      (''source_lsn'', ''int64'', True), (''source_tx_id'', ''int64'', True),
      (''source_ts'', ''timestamp[us, tz=UTC]'', True), (''connector_ts'', ''timestamp[us, tz=UTC]'', True),
      (''kafka_message_ts'', ''timestamp[us, tz=UTC]'', True), (''kafka_topic'', ''string'', False),
      (''kafka_partition'', ''int32'', False), (''kafka_offset'', ''int64'', False),
      (''event_time'', ''timestamp[us, tz=UTC]'', False), (''ingested_at'', ''timestamp[us, tz=UTC]'', False),
      (''processed_at'', ''timestamp[us, tz=UTC]'', False), (''processing_run_id'', ''string'', False),
      (''source_schema_version'', ''string'', False), (''silver_schema_version'', ''string'', False)]"

definition SETTLEMENT_SCHEMA :: arrow_schema where
  "SETTLEMENT_SCHEMA =
     [(''partner_id'', ''string'', False), (''settlement_date'', ''date32[day]'', False),
      (''settlement_reference'', ''string'', False), (''partner_transaction_reference'', ''string'', False),
      (''internal_transaction_id'', ''string'', True),
      (''transaction_timestamp'', ''timestamp[us, tz=UTC]'', False),
      (''amount'', ''decimal128(18, 2)'', False), (''currency'', ''string'', False),
      (''settlement_status'', ''string'', False), (''fee_amount'', ''decimal128(18, 2)'', False),
      (''net_amount'', ''decimal128(18, 2)'', False), (''source_file_name'', ''string'', False),
      (''source_checksum'', ''string'', False), (''source_row_number'', ''int32'', False),
      (''ingestion_run_id'', ''string'', True), (''processing_run_id'', ''string'', False),
      (''processed_at'', ''timestamp[us, tz=UTC]'', False)]"

definition REJECTION_SCHEMA :: arrow_schema where
  "REJECTION_SCHEMA =
     [(''source_object_uri'', ''string'', False), (''source_event_id'', ''string'', True),
      (''entity_name'', ''string'', False), (''business_key'', ''string'', True),
      (''error_code'', ''string'', False), (''error_message'', ''string'', False),
      (''raw_reference'', ''string'', False), (''processing_run_id'', ''string'', False),
      (''rejected_at'', ''timestamp[us, tz=UTC]'', False)]"

definition UNRESOLVED_REFERENCE_SCHEMA :: arrow_schema where
  "UNRESOLVED_REFERENCE_SCHEMA =
     [(''entity_name'', ''string'', False), (''business_key'', ''string'', False),
      (''reference_entity'', ''string'', False), (''reference_key'', ''string'', False),
      (''reference_field'', ''string'', False), (''classification'', ''string'', False),
      (''source_event_id'', ''string'', False), (''processing_run_id'', ''string'', False),
      (''observed_at'', ''timestamp[us, tz=UTC]'', False)]"

definition entity_schema :: "string \<Rightarrow> arrow_schema result" where
  "entity_schema entity =
     (case map_of ENTITY_SCHEMAS entity of
        Some s \<Rightarrow> Inr s
      | None \<Rightarrow> Inl (Value_Error (''Unsupported Silver entity: '' @ entity)))"

section \<open>Parquet\<close>

record silver_parquet =
  pq_write :: "arrow_schema \<Rightarrow> pyrow list \<Rightarrow> bytes result"
  pq_read :: "bytes \<Rightarrow> (arrow_schema \<times> pyrow list) result"

record SerializedSilver =
  ss_payload :: bytes
  ss_checksum_sha256 :: string
  ss_size_bytes :: int
  ss_record_count :: int

definition serialize_rows :: "silver_parquet \<Rightarrow> pyrow list \<Rightarrow> arrow_schema \<Rightarrow> SerializedSilver result" where
  "serialize_rows P rows schema =
     bindR (pq_write P schema rows) (\<lambda>payload.
       Inr \<lparr>ss_payload = payload, ss_checksum_sha256 = sha256_hex payload,
            ss_size_bytes = int (length payload), ss_record_count = int (length rows)\<rparr>)"

definition read_table_bytes :: "silver_parquet \<Rightarrow> bytes \<Rightarrow> arrow_schema option \<Rightarrow> pyrow list result" where
  "read_table_bytes P payload schema =
     bindR (pq_read P payload) (\<lambda>(actual, rows).
       if schema \<noteq> None \<and> schema \<noteq> Some actual
       then Inl (Value_Error ''Silver Parquet schema does not match its explicit contract'')
       else Inr rows)"

section \<open>Silver objects\<close>

text \<open>The text before and after the first colon, as \<open>split(":", 1)\<close> gives with \<open>[0]\<close> and \<open>[-1]\<close>.\<close>

definition before_colon :: "string \<Rightarrow> string" where
  "before_colon s = takeWhile (\<lambda>c. c \<noteq> CHR '':'') s"

definition after_colon :: "string \<Rightarrow> string" where
  "after_colon s = (if CHR '':'' \<in> set s then drop (Suc (length (before_colon s))) s else s)"

text \<open>Dates are their ISO texts.\<close>

definition build_silver_object_key :: "OutputType \<Rightarrow> string \<Rightarrow> string \<Rightarrow> string \<Rightarrow> string option \<Rightarrow> string option
    \<Rightarrow> string option \<Rightarrow> string" where
  "build_silver_object_key ot entity run_id processing_date event_date partner_id settlement_date =
     (let part = ''part-'' @ deterministic_part_id run_id ot entity @ ''.parquet'';
          dated = (\<lambda>d. case d of None \<Rightarrow> processing_date | Some x \<Rightarrow> x) in
      case ot of
        HISTORY \<Rightarrow> ''silver/cdc/history/entity='' @ entity @ ''/event_date='' @ dated event_date
          @ ''/processing_date='' @ processing_date @ ''/run_id='' @ run_id @ ''/'' @ part
      | EVENTS \<Rightarrow> ''silver/cdc/events/entity='' @ entity @ ''/event_date='' @ dated event_date
          @ ''/processing_date='' @ processing_date @ ''/run_id='' @ run_id @ ''/'' @ part
      | SETTLEMENTS \<Rightarrow> ''silver/settlements/partner_id=''
          @ (case partner_id of None \<Rightarrow> ''UNKNOWN'' | Some p \<Rightarrow> if p = [] then ''UNKNOWN'' else p)
          @ ''/settlement_date='' @ dated settlement_date @ ''/run_id='' @ run_id @ ''/'' @ part
      | REJECTIONS \<Rightarrow> ''silver/rejections/source='' @ before_colon entity @ ''/entity='' @ after_colon entity
          @ ''/processing_date='' @ processing_date @ ''/run_id='' @ run_id @ ''/rejections.parquet''
      | UNRESOLVED_REFERENCES \<Rightarrow> ''silver/unresolved_references/entity='' @ entity @ ''/processing_date=''
          @ processing_date @ ''/run_id='' @ run_id @ ''/'' @ part
      | _ \<Rightarrow> ''silver/cdc/'' @ output_value ot @ ''/entity='' @ entity @ ''/snapshot_date='' @ processing_date
          @ ''/run_id='' @ run_id @ ''/'' @ part)"

text \<open>
  The store of Silver: a backend, a bucket, and the reading of a local path, which the code does
  directly for the URIs of the local backend.
\<close>

record 's SilverStorage =
  sl_backend :: "'s storage_backend"
  sl_bucket :: string
  sl_read_path :: "string \<Rightarrow> ('s, bytes) eff"
  sl_parquet :: silver_parquet

definition silver_metadata :: "OutputType \<Rightarrow> string \<Rightarrow> string \<Rightarrow> string \<Rightarrow> string \<Rightarrow> string \<Rightarrow> string \<Rightarrow> instant \<Rightarrow> int \<Rightarrow> metadata" where
  "silver_metadata ot entity run_id input_checksum code_version source_version silver_version t n =
     [(''artifact_type'', M_str ''silver_parquet''), (''pipeline_name'', M_str ''bronze-to-silver''),
      (''source_type'', M_str ''bronze''), (''entity_name'', M_str entity), (''output_type'', M_str (output_value ot)),
      (''processing_run_id'', M_str run_id), (''processing_date'', M_str (iso_date t)), (''record_count'', M_int n),
      (''input_checksum'', M_str input_checksum), (''code_version'', M_str code_version),
      (''source_schema_version'', M_str source_version), (''silver_schema_version'', M_str silver_version)]"

definition silver_put :: "'s SilverStorage \<Rightarrow> SerializedSilver \<Rightarrow> string \<Rightarrow> OutputType \<Rightarrow> string \<Rightarrow> string \<Rightarrow> string \<Rightarrow> string
    \<Rightarrow> string \<Rightarrow> string \<Rightarrow> instant \<Rightarrow> ('s, SilverOutput) eff" where
  "silver_put S ser key ot entity run_id input_checksum code_version source_version silver_version t =
     bindE (sb_put_immutable (sl_backend S) (sl_bucket S) key (ss_payload ser) (ss_checksum_sha256 ser)
              ''application/vnd.apache.parquet''
              (silver_metadata ot entity run_id input_checksum code_version source_version silver_version t (ss_record_count ser)))
       (\<lambda>stored. if so_checksum_sha256 stored \<noteq> ss_checksum_sha256 ser
                 then raiseE (Runtime_Error ''Silver object checksum verification failed'')
                 else returnE \<lparr>out_type = ot, out_object_uri = so_uri stored,
                               out_checksum_sha256 = so_checksum_sha256 stored, out_record_count = ss_record_count ser\<rparr>)"

definition parse_object_uri :: "string \<Rightarrow> string \<Rightarrow> (string \<times> string) result" where
  "parse_object_uri uri bucket =
     (let prefix = ''s3://'' @ bucket @ ''/'' in
      if starts_with prefix uri then Inr (bucket, remove_prefix prefix uri)
      else Inl (Value_Error ''Silver object URI must use the configured s3:// bucket''))"

definition silver_read_table :: "'s SilverStorage \<Rightarrow> string \<Rightarrow> arrow_schema option \<Rightarrow> ('s, pyrow list) eff" where
  "silver_read_table S uri schema =
     bindE (if starts_with ''s3://'' uri
            then bindE (liftE (parse_object_uri uri (sl_bucket S))) (\<lambda>(bucket, key). sb_read_bytes (sl_backend S) bucket key)
            else sl_read_path S uri)
       (\<lambda>payload. liftE (read_table_bytes (sl_parquet S) payload schema))"

definition silver_stat :: "'s SilverStorage \<Rightarrow> string \<Rightarrow> ('s, StoredObject option) eff" where
  "silver_stat S uri =
     (if \<not> starts_with ''s3://'' uri then returnE None
      else bindE (liftE (parse_object_uri uri (sl_bucket S))) (\<lambda>(bucket, key). sb_stat (sl_backend S) bucket key))"

section \<open>Bronze objects\<close>

definition bronze_read_error :: "QualityCode \<Rightarrow> string \<Rightarrow> 'a result" where
  "bronze_read_error code message = Inl (Bronze_Read_Error (code_value code) message)"

definition bronze_read_bytes :: "'s storage_backend \<Rightarrow> InputObject \<Rightarrow> ('s, bytes) eff" where
  "bronze_read_bytes B input =
     bindE (sb_read_bytes B (io_bucket input) (io_object_key input)) (\<lambda>payload.
       if io_checksum_sha256 input \<noteq> [] \<and> sha256_hex payload \<noteq> io_checksum_sha256 input
       then liftE (bronze_read_error INVALID_BRONZE_SCHEMA ''Input object checksum differs from storage metadata'')
       else returnE payload)"

definition column_types :: "arrow_schema \<Rightarrow> (string \<times> string) list" where
  "column_types schema = map (\<lambda>(n, t, _). (n, t)) schema"

definition missing_columns :: "arrow_schema \<Rightarrow> string list" where
  "missing_columns actual = sort (filter (\<lambda>n. n \<notin> fst ` set actual) (map fst CDC_ARROW_SCHEMA))"

definition incompatible_columns :: "arrow_schema \<Rightarrow> string list" where
  "incompatible_columns actual =
     sort (map fst (filter (\<lambda>(n, t). case map_of (rev (column_types actual)) n of None \<Rightarrow> False | Some u \<Rightarrow> u \<noteq> t) (column_types CDC_ARROW_SCHEMA)))"

definition check_cdc_table :: "string \<Rightarrow> arrow_schema \<times> pyrow list \<Rightarrow> pyrow list result" where
  "check_cdc_table supported_version tbl =
     (case tbl of (actual, rows) \<Rightarrow>
        if missing_columns actual \<noteq> [] \<or> incompatible_columns actual \<noteq> []
        then bronze_read_error INVALID_BRONZE_SCHEMA (''CDC Bronze schema is incompatible ('' @
               join_with '', '' (map (\<lambda>n. ''missing:'' @ n) (missing_columns actual) @ map (\<lambda>n. ''type:'' @ n) (incompatible_columns actual))
               @ '')'')
        else if set (map (\<lambda>row. row_get row ''schema_version'') rows) \<noteq> {PStr supported_version}
        then bronze_read_error SCHEMA_VERSION_UNSUPPORTED ''CDC Bronze schema version is unsupported''
        else Inr rows)"

definition read_cdc :: "'s storage_backend \<Rightarrow> silver_parquet \<Rightarrow> InputObject \<Rightarrow> string \<Rightarrow> ('s, pyrow list) eff" where
  "read_cdc B P input supported_version =
     bindE (bronze_read_bytes B input) (\<lambda>payload.
       case pq_read P payload of
         Inr tbl \<Rightarrow> liftE (check_cdc_table supported_version tbl)
       | Inl (OS_Error _) \<Rightarrow> liftE (bronze_read_error INVALID_BRONZE_SCHEMA ''CDC Bronze object is not readable Parquet'')
       | Inl (Value_Error _) \<Rightarrow> liftE (bronze_read_error INVALID_BRONZE_SCHEMA ''CDC Bronze object is not readable Parquet'')
       | Inl e \<Rightarrow> raiseE e)"

end
