(* ===== verification/Silver_Discovery.thy ===== *)
theory Silver_Discovery
  imports Common_Config Silver_Store
begin

text \<open>
  \<open>processing/silver/config.py\<close> and \<open>processing/silver/discovery.py\<close>: the settings of the Silver
  pipeline and the discovery of Bronze objects. Resolving a local path (symbolic links, working
  directory) is a parameter that gives the parts of the resolved path; \<open>FileNotFoundError\<close> is an
  \<open>OSError\<close>.
\<close>

section \<open>Settings\<close>

record SilverSettings =
  sv_storage :: StorageSettings
  sv_manifest_path :: string
  sv_temp_dir :: string
  sv_code_version :: string
  sv_silver_schema_version :: string
  sv_supported_bronze_schema :: string
  sv_settlement_contract_path :: string
  sv_max_objects :: int

text \<open>The version pattern \<open>_VERSION\<close> is \<open>safe_token 127\<close>.\<close>

definition version_of :: "environ \<Rightarrow> string \<Rightarrow> string \<Rightarrow> string" where
  "version_of env name fallback = py_strip (env_get env name fallback)"

definition silver_settings :: "(string \<Rightarrow> bool) \<Rightarrow> environ \<Rightarrow> string \<Rightarrow> SilverSettings result" where
  "silver_settings host_ok env backend_override =
     (let code_version = version_of env ''SILVER_CODE_VERSION'' ''phase6-v1'';
          schema_version = version_of env ''SILVER_SCHEMA_VERSION'' ''silver-v1'';
          bronze_version = version_of env ''SILVER_SUPPORTED_CDC_SCHEMA'' ''cdc-bronze-v1'' in
      bindR (safe_name code_version ''SILVER_CODE_VERSION'') (\<lambda>_.
      bindR (safe_name schema_version ''SILVER_SCHEMA_VERSION'') (\<lambda>_.
      bindR (safe_name bronze_version ''SILVER_SUPPORTED_CDC_SCHEMA'') (\<lambda>_.
      bindR (case int_of_text (env_get env ''SILVER_MAX_OBJECTS'' ''100'') of
               Inl _ \<Rightarrow> config_error ''SILVER_MAX_OBJECTS must be an integer''
             | Inr n \<Rightarrow> if 1 \<le> n \<and> n \<le> 10000 then Inr n
                         else config_error ''SILVER_MAX_OBJECTS must be between 1 and 10000'') (\<lambda>max_objects.
      bindR (storage_settings host_ok env backend_override) (\<lambda>storage.
        Inr \<lparr>sv_storage = storage,
             sv_manifest_path = env_get env ''SILVER_MANIFEST_DB'' ''data/control/silver_manifest.sqlite3'',
             sv_temp_dir = env_get env ''SILVER_TEMP_DIR'' ''data/tmp/silver'', sv_code_version = code_version,
             sv_silver_schema_version = schema_version, sv_supported_bronze_schema = bronze_version,
             sv_settlement_contract_path = env_get env ''SILVER_SETTLEMENT_CONTRACT'' ''contracts/batch/settlement_v1.yml'',
             sv_max_objects = max_objects\<rparr>))))))"

section \<open>Discovery\<close>

definition ENTITY_ORDER :: "(string \<times> int) list" where
  "ENTITY_ORDER = [(''customers'', 0), (''merchants'', 1), (''accounts'', 2), (''payment_transactions'', 3),
     (''transaction_events'', 4), (''refunds'', 5)]"

definition partition_value :: "string \<Rightarrow> string \<Rightarrow> string option" where
  "partition_value object_key name =
     (let prefix = name @ ''='' in
      map_option (remove_prefix prefix) (List.find (starts_with prefix) (split_on (CHR ''/'') object_key)))"

text \<open>The discovery of a bucket: a backend, the settings, reading a local file, resolving a local path.\<close>

record 's BronzeDiscovery =
  bd_backend :: "'s storage_backend"
  bd_bronze_bucket :: string
  bd_local_bronze_root :: string
  bd_read_path :: "string \<Rightarrow> ('s, bytes) eff"
  bd_resolve :: "string \<Rightarrow> string list"
  bd_host_ok :: "string \<Rightarrow> bool"

definition input_from_stored :: "'s BronzeDiscovery \<Rightarrow> StoredObject \<Rightarrow> ('s, InputObject) eff" where
  "input_from_stored D x =
     bindE (if so_checksum_sha256 x = [] \<and> \<not> starts_with ''s3://'' (so_uri x)
            then bindE (bd_read_path D (so_uri x)) (\<lambda>d. returnE (sha256_hex d))
            else returnE (so_checksum_sha256 x)) (\<lambda>checksum.
       returnE \<lparr>io_uri = so_uri x, io_bucket = so_bucket x, io_object_key = so_object_key x,
                io_checksum_sha256 = checksum, io_size_bytes = so_size_bytes x, io_metadata = so_metadata x\<rparr>)"

fun inputs_from_stored :: "'s BronzeDiscovery \<Rightarrow> StoredObject list \<Rightarrow> ('s, InputObject list) eff" where
  "inputs_from_stored D [] = returnE []"
| "inputs_from_stored D (x # xs) =
     bindE (input_from_stored D x) (\<lambda>i. bindE (inputs_from_stored D xs) (\<lambda>is. returnE (i # is)))"

text \<open>\<open>path.relative_to(root)\<close> on resolved parts.\<close>

definition relative_parts :: "string list \<Rightarrow> string list \<Rightarrow> string list option" where
  "relative_parts base path = (if take (length base) path = base then Some (drop (length base) path) else None)"

definition stat_input :: "'s BronzeDiscovery \<Rightarrow> string \<Rightarrow> string \<Rightarrow> string \<Rightarrow> ('s, InputObject) eff" where
  "stat_input D bucket key message =
     bindE (sb_stat (bd_backend D) bucket key) (\<lambda>stored. case stored of
       None \<Rightarrow> raiseE (OS_Error message)
     | Some x \<Rightarrow> input_from_stored D x)"

definition resolve_local :: "'s BronzeDiscovery \<Rightarrow> string \<Rightarrow> ('s, InputObject) eff" where
  "resolve_local D candidate =
     (case relative_parts (bd_resolve D (bd_local_bronze_root D)) (bd_resolve D candidate) of
        None \<Rightarrow> raiseE (Value_Error ''Local input object must be under the configured Bronze root'')
      | Some parts \<Rightarrow> stat_input D (bd_bronze_bucket D) (if parts = [] then ''.'' else join_with ''/'' parts)
          ''Local Bronze object does not exist'')"

definition resolve_input :: "'s BronzeDiscovery \<Rightarrow> string \<Rightarrow> ('s, InputObject) eff" where
  "resolve_input D uri =
     (if starts_with ''/'' uri then resolve_local D uri
      else bindE (liftE (urlsplit (bd_host_ok D) uri)) (\<lambda>u.
        if su_scheme u = ''s3''
        then stat_input D (su_netloc u) (dropWhile (\<lambda>c. c = CHR ''/'') (su_path u)) ''Bronze object does not exist''
        else if su_scheme u \<noteq> [] then raiseE (Value_Error ''Only s3:// or local Bronze object paths are supported'')
        else resolve_local D uri))"

definition date_matches :: "string option \<Rightarrow> int option \<Rightarrow> int option \<Rightarrow> bool" where
  "date_matches value from_date to_date =
     (case value of
        None \<Rightarrow> True
      | Some v \<Rightarrow>
          v = [] \<or> (case date_fromisoformat v of
            Inl _ \<Rightarrow> False
          | Inr d \<Rightarrow> (case from_date of None \<Rightarrow> True | Some f \<Rightarrow> f \<le> d) \<and> (case to_date of None \<Rightarrow> True | Some t \<Rightarrow> d \<le> t)))"

definition input_matches :: "InputObject \<Rightarrow> SourceType \<Rightarrow> string \<Rightarrow> int option \<Rightarrow> int option \<Rightarrow> bool" where
  "input_matches item source_type entity from_date to_date =
     (let key = io_object_key item in
      case source_type of
        CDC \<Rightarrow> ends_with ''.parquet'' key \<and> starts_with ''cdc/'' key
                 \<and> (entity = [] \<or> contains (''entity='' @ entity @ ''/'') key)
                 \<and> date_matches (partition_value key ''event_date'') from_date to_date
      | SETTLEMENT \<Rightarrow> ends_with ''.csv'' key \<and> starts_with ''settlements/'' key
                 \<and> date_matches (partition_value key ''settlement_date'') from_date to_date)"

text \<open>\<open>int(value or 0)\<close>.\<close>

definition int_or_zero :: "string option \<Rightarrow> int result" where
  "int_or_zero v = (case v of None \<Rightarrow> Inr 0 | Some s \<Rightarrow> if s = [] then Inr 0 else int_of_text s)"

type_synonym input_key = "int \<times> string \<times> int \<times> int \<times> string"

definition input_sort_key :: "InputObject \<Rightarrow> SourceType \<Rightarrow> input_key result" where
  "input_sort_key item source_type =
     (let key = io_object_key item in
      case source_type of
        CDC \<Rightarrow>
          (let entity = (case partition_value key ''entity'' of None \<Rightarrow> [] | Some e \<Rightarrow> e) in
           bindR (int_or_zero (partition_value key ''partition'')) (\<lambda>partition.
           bindR (int_or_zero (partition_value key ''offset_start'')) (\<lambda>offset.
             Inr (case map_of ENTITY_ORDER entity of None \<Rightarrow> 99 | Some n \<Rightarrow> n, entity, partition, offset, key))))
      | SETTLEMENT \<Rightarrow> Inr (0, [], 0, 0, key))"

fun keyed_inputs :: "SourceType \<Rightarrow> InputObject list \<Rightarrow> (input_key \<times> InputObject) list result" where
  "keyed_inputs st [] = Inr []"
| "keyed_inputs st (x # xs) =
     bindR (input_sort_key x st) (\<lambda>k. bindR (keyed_inputs st xs) (\<lambda>rest. Inr ((k, x) # rest)))"

definition order_inputs :: "SourceType \<Rightarrow> InputObject list \<Rightarrow> InputObject list result" where
  "order_inputs st xs = bindR (keyed_inputs st xs) (\<lambda>ks. Inr (map snd (sort_key fst ks)))"

text \<open>\<open>xs[:n]\<close> for an integer bound.\<close>

definition py_take :: "int \<Rightarrow> 'a list \<Rightarrow> 'a list" where
  "py_take n xs = (if 0 \<le> n then take (nat n) xs else take (length xs - nat (- n)) xs)"

definition discover_inputs :: "'s BronzeDiscovery \<Rightarrow> SourceType \<Rightarrow> string \<Rightarrow> string \<Rightarrow> string \<Rightarrow> int option \<Rightarrow> int option \<Rightarrow> int
    \<Rightarrow> ('s, InputObject list) eff" where
  "discover_inputs D source_type input_object input_prefix entity from_date to_date max_objects =
     bindE (if input_object \<noteq> [] then bindE (resolve_input D input_object) (\<lambda>x. returnE [x])
            else (let default = (case source_type of CDC \<Rightarrow> ''cdc/'' | SETTLEMENT \<Rightarrow> ''settlements/'');
                      prefix = (if input_prefix = [] then default else input_prefix) in
                  bindE (sb_list_objects (bd_backend D) (bd_bronze_bucket D) prefix) (inputs_from_stored D))) (\<lambda>candidates.
     bindE (liftE (order_inputs source_type (filter (\<lambda>x. input_matches x source_type entity from_date to_date) candidates))) (\<lambda>ordered.
       returnE (py_take max_objects ordered)))"

section \<open>Order of the objects of the CDC consumer\<close>

definition path_char_free :: "string \<Rightarrow> bool" where
  "path_char_free s \<longleftrightarrow> CHR ''/'' \<notin> set s"

text \<open>A batch whose texts fit one segment of an object key; its numbers are far below the digit limit of \<open>int\<close>.\<close>

definition plain_batch :: "CdcBatch \<Rightarrow> bool" where
  "plain_batch b \<longleftrightarrow> (\<exists>d. date_fromisoformat (cb_event_date b) = Inr d)
     \<and> path_char_free (cb_event_date b) \<and> path_char_free (cb_batch_id b)
     \<and> \<bar>cb_partition b\<bar> < 10 ^ 19 \<and> \<bar>cb_offset_start b\<bar> < 10 ^ 19"

definition batch_rank :: "CdcBatch \<Rightarrow> int \<times> string \<times> int \<times> int" where
  "batch_rank b = (case map_of ENTITY_ORDER (cb_entity_name b) of None \<Rightarrow> 99 | Some n \<Rightarrow> n,
     cb_entity_name b, cb_partition b, cb_offset_start b)"

definition batch_segments :: "CdcBatch \<Rightarrow> string list" where
  "batch_segments b = [''cdc'', ''entity='' @ cb_entity_name b, ''event_date='' @ cb_event_date b, ''topic='' @ cb_topic b,
     ''partition='' @ show_int (cb_partition b), ''offset_start='' @ show_int (cb_offset_start b),
     ''offset_end='' @ show_int (cb_offset_end b), ''batch_id='' @ cb_batch_id b @ ''.parquet'']"

lemma show_int_path: "path_char_free (show_int n)"
  using show_nat_digits by (auto simp: path_char_free_def show_int_def is_digit_def dest!: show_nat_digits)

lemma build_cdc_key_segments:
  assumes "build_cdc_object_key b = Inr key" "plain_batch b"
  shows "split_on (CHR ''/'') key = batch_segments b" and "key = join_with ''/'' (batch_segments b)"
    and "cb_entity_name b \<noteq> []"
proof -
  have safe: "path_char_free (cb_entity_name b)" "path_char_free (cb_topic b)" "cb_entity_name b \<noteq> []"
    and key: "key = join_with ''/'' (batch_segments b)"
    using assms(1) by (auto simp: build_cdc_object_key_def bindR_eq_Inr safe_value_def batch_segments_def safe_token_def
        path_char_free_def is_alnum_def list_all_iff split: if_split_asm list.split_asm)
  show "key = join_with ''/'' (batch_segments b)" "cb_entity_name b \<noteq> []" by fact+
  show "split_on (CHR ''/'') key = batch_segments b"
    unfolding key using safe assms(2) show_int_path
    by (intro split_on_join) (auto simp: batch_segments_def plain_batch_def path_char_free_def)
qed

lemma int_of_offset: "\<bar>n\<bar> < 10 ^ 19 \<Longrightarrow> int_of_text (show_int n) = Inr n"
proof (rule int_of_show_int)
  assume "\<bar>n\<bar> < 10 ^ 19"
  then have "nat \<bar>n\<bar> < 10 ^ Suc 18" by (simp add: nat_less_iff)
  from show_nat_length [OF this] show "length (show_nat (nat \<bar>n\<bar>)) \<le> 4300" by simp
qed

lemma batch_key_partitions:
  assumes "build_cdc_object_key b = Inr key" "plain_batch b"
  shows "partition_value key ''entity'' = Some (cb_entity_name b)"
    "partition_value key ''event_date'' = Some (cb_event_date b)"
    "partition_value key ''partition'' = Some (show_int (cb_partition b))"
    "partition_value key ''offset_start'' = Some (show_int (cb_offset_start b))"
  unfolding partition_value_def Let_def build_cdc_key_segments(1) [OF assms]
  by (simp_all add: batch_segments_def starts_with_def remove_prefix_def)

lemma show_int_nonempty [simp]: "show_int n \<noteq> []"
  by (simp add: show_int_def)

lemma batch_input_key:
  assumes "build_cdc_object_key b = Inr (io_object_key x)" "plain_batch b"
  shows "input_sort_key x CDC = Inr (case batch_rank b of (r, e, p, n) \<Rightarrow> (r, e, p, n, io_object_key x))"
  using assms(2) batch_key_partitions [OF assms]
  by (simp add: input_sort_key_def int_or_zero_def int_of_offset plain_batch_def batch_rank_def Let_def)

lemma ends_with_append: "ends_with p (s @ p)"
  by (simp add: ends_with_def)

lemma batch_input_matches:
  assumes "build_cdc_object_key b = Inr (io_object_key x)" "plain_batch b"
  shows "input_matches x CDC [] None None"
proof -
  let ?pre = "''entity='' @ cb_entity_name b @ ''/event_date='' @ cb_event_date b @ ''/topic='' @ cb_topic b
    @ ''/partition='' @ show_int (cb_partition b) @ ''/offset_start='' @ show_int (cb_offset_start b)
    @ ''/offset_end='' @ show_int (cb_offset_end b) @ ''/batch_id='' @ cb_batch_id b"
  have key: "io_object_key x = ''cdc/'' @ ?pre @ ''.parquet''"
    using assms(1) by (auto simp: build_cdc_object_key_def bindR_eq_Inr safe_value_def split: if_split_asm)
  have "starts_with ''cdc/'' (io_object_key x)" unfolding key starts_with_def by simp
  moreover have "ends_with ''.parquet'' (io_object_key x)"
    using ends_with_append [of "''.parquet''" "''cdc/'' @ ?pre"] unfolding key by simp
  ultimately show ?thesis
    using assms(2) batch_key_partitions [OF assms] by (auto simp: input_matches_def date_matches_def plain_batch_def Let_def)
qed

lemma keyed_inputs_map:
  "\<forall>x\<in>set xs. input_sort_key x st = Inr (k x) \<Longrightarrow> keyed_inputs st xs = Inr (map (\<lambda>x. (k x, x)) xs)"
  by (induction xs) auto

lemma sort_key_paired: "sort_key fst (map (\<lambda>x. (k x, x)) xs) = map (\<lambda>x. (k x, x)) (sort_key k xs)"
proof -
  have "insort_key fst (k x, x) (map (\<lambda>x. (k x, x)) ys) = map (\<lambda>x. (k x, x)) (insort_key k x ys)" for x ys
    by (induction ys) auto
  then show ?thesis by (induction xs) auto
qed

lemma order_inputs_sorted:
  assumes "\<forall>x\<in>set xs. input_sort_key x st = Inr (k x)"
  shows "order_inputs st xs = Inr (sort_key k xs)"
  by (simp add: order_inputs_def keyed_inputs_map [OF assms] sort_key_paired o_def)


definition sample_batch :: "int \<Rightarrow> CdcBatch" where
  "sample_batch n = \<lparr>cb_batch_id = ''b1'', cb_topic = ''p.payments.refunds'', cb_partition = 0, cb_offset_start = n,
     cb_offset_end = n, cb_entity_name = ''refunds'', cb_event_date = ''2026-01-02'', cb_schema_version = ''cdc-bronze-v1'',
     cb_events = []\<rparr>"

definition sample_input :: "int \<Rightarrow> InputObject" where
  "sample_input n = \<lparr>io_uri = [], io_bucket = ''bronze'',
     io_object_key = (case build_cdc_object_key (sample_batch n) of Inr k \<Rightarrow> k | Inl _ \<Rightarrow> []),
     io_checksum_sha256 = [], io_size_bytes = n, io_metadata = []\<rparr>"


end
