(* ===== verification/Sqlite.thy ===== *)
theory Sqlite
  imports Prelude
begin

text \<open>
  One SQLite table as the code uses it through \<open>with connection\<close>: the list of its rows in
  insertion order, changed by transactions that run atomically or not at all. An entry of the
  fault schedule makes a transaction fail inside SQLite; the schedule and the clock are arbitrary.
  The locale \<open>evolving_table\<close> is the contract of a table whose rows only evolve: the Silver, batch
  and orchestration manifests interpret it with their own row relation.
\<close>

record 'r table_db =
  tb_rows :: "'r list"
  tb_faults :: "nat \<Rightarrow> exn option"
  tb_tick :: nat
  tb_clock :: "nat \<Rightarrow> instant"

definition tb_now :: "('r table_db, instant) eff" where
  "tb_now = getE (\<lambda>db. tb_clock db (tb_tick db))"

definition transaction :: "('r list \<Rightarrow> ('a \<times> 'r list) result) \<Rightarrow> ('r table_db, 'a) eff" where
  "transaction body db =
     (let db' = db\<lparr>tb_tick := Suc (tb_tick db)\<rparr> in
      case tb_faults db (tb_tick db) of
        Some e \<Rightarrow> (Inl e, db')
      | None \<Rightarrow> (case body (tb_rows db) of
                  Inl e \<Rightarrow> (Inl e, db')
                | Inr (x, rows) \<Rightarrow> (Inr x, db'\<lparr>tb_rows := rows\<rparr>)))"

text \<open>A query: it changes nothing.\<close>

definition query :: "('r list \<Rightarrow> 'a) \<Rightarrow> ('r table_db, 'a) eff" where
  "query f = transaction (\<lambda>rows. Inr (f rows, rows))"

text \<open>\<open>UPDATE ... WHERE hit\<close> with the \<open>CHECK\<close> constraints of the table: row count and new rows.\<close>

definition update_where :: "('r \<Rightarrow> bool) \<Rightarrow> ('r \<Rightarrow> bool) \<Rightarrow> ('r \<Rightarrow> 'r) \<Rightarrow> 'r list \<Rightarrow> (nat \<times> 'r list) result" where
  "update_where checks hit f rows =
     (if list_all checks (map f (filter hit rows))
      then Inr (length (filter hit rows), map (\<lambda>r. if hit r then f r else r) rows)
      else Inl (Integrity_Error ''CHECK constraint failed''))"

text \<open>A program over one table and an object store; a call of either touches only its own part.\<close>

record ('d, 's) job_world =
  sw_db :: 'd
  sw_store :: 's

definition on_table :: "('d, 'a) eff \<Rightarrow> (('d, 's) job_world, 'a) eff" where
  "on_table m w = (case m (sw_db w) of (r, d) \<Rightarrow> (r, w\<lparr>sw_db := d\<rparr>))"

definition on_objects :: "('s, 'a) eff \<Rightarrow> (('d, 's) job_world, 'a) eff" where
  "on_objects m w = (case m (sw_store w) of (r, s) \<Rightarrow> (r, w\<lparr>sw_store := s\<rparr>))"

text \<open>The last row in the order of a key, as \<open>ORDER BY key DESC LIMIT 1\<close> returns it.\<close>

definition last_by :: "('r \<Rightarrow> 'k :: linorder) \<Rightarrow> 'r list \<Rightarrow> 'r option" where
  "last_by key rows = (if rows = [] then None else Some (last (sort_key key rows)))"

definition table_evolves :: "('r \<Rightarrow> 'r \<Rightarrow> bool) \<Rightarrow> 'r list \<Rightarrow> 'r list \<Rightarrow> bool" where
  "table_evolves R rows rows' \<longleftrightarrow> length rows \<le> length rows' \<and> (\<forall>i < length rows. R (rows ! i) (rows' ! i))"

definition table_keeps :: "('r list \<Rightarrow> bool) \<Rightarrow> ('r \<Rightarrow> 'r \<Rightarrow> bool) \<Rightarrow> 'r list \<Rightarrow> 'r table_db \<Rightarrow> bool" where
  "table_keeps good R rows0 db \<longleftrightarrow> good (tb_rows db) \<and> table_evolves R rows0 (tb_rows db)"

lemma wp_transaction [wp_rules]:
  "wp (transaction body) Q E db =
     (let db' = db\<lparr>tb_tick := Suc (tb_tick db)\<rparr> in
      case tb_faults db (tb_tick db) of
        Some e \<Rightarrow> E e db'
      | None \<Rightarrow> (case body (tb_rows db) of
                  Inl e \<Rightarrow> E e db'
                | Inr (x, rows) \<Rightarrow> Q x (db'\<lparr>tb_rows := rows\<rparr>)))"
  by (auto simp: wp_def transaction_def Let_def split: option.splits sum.splits prod.splits)

lemma wp_on_table [wp_rules]: "wp (on_table m) Q E w = wp m (\<lambda>x d. Q x (w\<lparr>sw_db := d\<rparr>)) (\<lambda>e d. E e (w\<lparr>sw_db := d\<rparr>)) (sw_db w)"
  by (auto simp: wp_def on_table_def split: prod.splits sum.splits)

lemma wp_on_objects [wp_rules]:
  "wp (on_objects m) Q E w = wp m (\<lambda>x s. Q x (w\<lparr>sw_store := s\<rparr>)) (\<lambda>e s. E e (w\<lparr>sw_store := s\<rparr>)) (sw_store w)"
  by (auto simp: wp_def on_objects_def split: prod.splits sum.splits)

lemma preserves_on_table:
  "(\<And>w. I w \<Longrightarrow> wp m (\<lambda>_ d. I (w\<lparr>sw_db := d\<rparr>)) (\<lambda>_ d. I (w\<lparr>sw_db := d\<rparr>)) (sw_db w)) \<Longrightarrow> preserves I (on_table m)"
  by (simp add: preserves_iff_wp wp_on_table)

lemma preserves_on_objects:
  "(\<And>w. I w \<Longrightarrow> wp m (\<lambda>_ s. I (w\<lparr>sw_store := s\<rparr>)) (\<lambda>_ s. I (w\<lparr>sw_store := s\<rparr>)) (sw_store w)) \<Longrightarrow> preserves I (on_objects m)"
  by (simp add: preserves_iff_wp wp_on_objects)

lemma preserves_table: "preserves I m \<Longrightarrow> preserves (\<lambda>w. I (sw_db w)) (on_table m)"
  by (rule preserves_on_table) (simp add: preserves_iff_wp)

lemma preserves_table_objects: "preserves (\<lambda>w. I (sw_db w)) (on_objects m)"
  by (rule preserves_on_objects) simp

lemma wp_query:
  "wp (query f) (\<lambda>x t. tb_rows t = tb_rows db \<and> x = f (tb_rows db)) (\<lambda>_ t. tb_rows t = tb_rows db) db"
  by (auto simp: query_def wp_transaction Let_def split: option.splits)

lemma query_run:
  "tb_faults db (tb_tick db) = None \<Longrightarrow> query f db = (Inr (f (tb_rows db)), db\<lparr>tb_tick := Suc (tb_tick db)\<rparr>)"
  by (simp add: query_def transaction_def)

lemma query_rows: "query f db = (q, db') \<Longrightarrow> tb_rows db' = tb_rows db"
  by (auto simp: query_def transaction_def Let_def split: option.splits)

lemma query_result: "query f db = (Inr x, db') \<Longrightarrow> x = f (tb_rows db) \<and> tb_rows db' = tb_rows db"
  by (auto simp: query_def transaction_def Let_def split: option.splits)

lemma wp_tb_now [wp_rules]: "wp tb_now Q E db = Q (tb_clock db (tb_tick db)) db"
  by (simp add: tb_now_def wp_getE)

lemma preserves_tb_now [preserves_rules]: "preserves I tb_now"
  by (simp add: tb_now_def preserves_getE)

lemma last_by_Some:
  assumes "last_by key rows = Some r"
  shows "r \<in> set rows \<and> (\<forall>x \<in> set rows. key x \<le> key r)"
proof -
  from assms have ne: "rows \<noteq> []" and r: "r = last (sort_key key rows)"
    by (auto simp: last_by_def split: if_splits)
  have ne': "sort_key key rows \<noteq> []" using ne by (metis length_0_conv length_sort)
  have "r \<in> set (sort_key key rows)" using r last_in_set [OF ne'] by simp
  moreover have "key x \<le> key r" if "x \<in> set rows" for x
  proof -
    have "sorted (map key (butlast (sort_key key rows) @ [r]))"
      unfolding r append_butlast_last_id [OF ne'] by simp
    moreover have "x \<in> set (butlast (sort_key key rows) @ [r])"
      unfolding r append_butlast_last_id [OF ne'] using that by simp
    ultimately show ?thesis by (auto simp: sorted_append)
  qed
  ultimately show ?thesis by simp
qed

lemma last_by_None: "last_by key rows = None \<longleftrightarrow> rows = []"
  by (simp add: last_by_def)

locale evolving_table =
  fixes good :: "'r list \<Rightarrow> bool" and R :: "'r \<Rightarrow> 'r \<Rightarrow> bool"
  assumes R_refl: "R r r" and R_trans: "R a b \<Longrightarrow> R b c \<Longrightarrow> R a c"
begin

lemma grows_refl: "table_evolves R rows rows"
  by (simp add: table_evolves_def R_refl)

lemma grows_trans: "table_evolves R a b \<Longrightarrow> table_evolves R b c \<Longrightarrow> table_evolves R a c"
  unfolding table_evolves_def using R_trans by (meson le_trans less_le_trans)

lemma grows_append: "table_evolves R a b \<Longrightarrow> table_evolves R a (b @ new)"
  by (auto simp: table_evolves_def nth_append)

lemma grows_map: "(\<And>r. r \<in> set rows \<Longrightarrow> R r (f r)) \<Longrightarrow> table_evolves R rows (map f rows)"
  by (simp add: table_evolves_def)

lemma grows_row: "table_evolves R rows rows' \<Longrightarrow> r \<in> set rows \<Longrightarrow> \<exists>r' \<in> set rows'. R r r'"
  unfolding table_evolves_def by (metis in_set_conv_nth less_le_trans)

lemma keeps_transaction:
  assumes "\<And>rows x rows'. good rows \<Longrightarrow> body rows = Inr (x, rows') \<Longrightarrow> good rows' \<and> table_evolves R rows rows'"
  shows "preserves (table_keeps good R rows0) (transaction body)"
  unfolding preserves_def table_keeps_def
  by (auto simp: transaction_def Let_def split: option.splits sum.splits dest: assms intro: grows_trans)

lemma keeps_query: "preserves (table_keeps good R rows0) (query f)"
  unfolding query_def by (rule keeps_transaction) (auto intro: grows_refl)

lemma keeps_start: "good (tb_rows db) \<Longrightarrow> table_keeps good R (tb_rows db) db"
  by (simp add: table_keeps_def grows_refl)

lemma update_where_evolves:
  assumes "update_where checks hit f rows = Inr (n, rows')" and "\<And>r. r \<in> set rows \<Longrightarrow> hit r \<Longrightarrow> checks (f r) \<Longrightarrow> R r (f r)"
  shows "table_evolves R rows rows'"
  using assms by (auto simp: update_where_def list_all_iff R_refl intro!: grows_map split: if_splits)

end

end
