(* ===== verification/Silver_Manifest.thy ===== *)
theory Silver_Manifest
  imports Sqlite Silver_Models
begin

text \<open>
  \<open>processing/silver/manifest.py\<close>: the table of Silver processing runs. The JSON and ISO texts that
  \<open>_record\<close> decodes are kept as the values they encode; where SQLite orders by a timestamp column,
  the order of its text is used.
\<close>

type_synonym silver_db = "ProcessingRun table_db"

fun TRANSITIONS :: "ProcessingStatus \<Rightarrow> ProcessingStatus list" where
  "TRANSITIONS DISCOVERED = [READING, FAILED, QUARANTINED]"
| "TRANSITIONS READING = [VALIDATING, FAILED, QUARANTINED]"
| "TRANSITIONS VALIDATING = [TRANSFORMING, FAILED, QUARANTINED]"
| "TRANSITIONS TRANSFORMING = [WRITING, FAILED, QUARANTINED]"
| "TRANSITIONS WRITING = [COMPLETED, FAILED]"
| "TRANSITIONS COMPLETED = []"
| "TRANSITIONS FAILED = []"
| "TRANSITIONS QUARANTINED = []"

fun processing_status_value :: "ProcessingStatus \<Rightarrow> string" where
  "processing_status_value DISCOVERED = ''DISCOVERED''"
| "processing_status_value READING = ''READING''"
| "processing_status_value VALIDATING = ''VALIDATING''"
| "processing_status_value TRANSFORMING = ''TRANSFORMING''"
| "processing_status_value WRITING = ''WRITING''"
| "processing_status_value COMPLETED = ''COMPLETED''"
| "processing_status_value FAILED = ''FAILED''"
| "processing_status_value QUARANTINED = ''QUARANTINED''"

text \<open>The \<open>CHECK\<close> constraints of the table.\<close>

definition run_checks :: "ProcessingRun \<Rightarrow> bool" where
  "run_checks r \<longleftrightarrow> 0 \<le> pr_input_record_count r \<and> 0 \<le> pr_output_record_count r \<and> 0 \<le> pr_rejected_record_count r"

definition find_run :: "string \<Rightarrow> ProcessingRun list \<Rightarrow> ProcessingRun option" where
  "find_run i rows = find (\<lambda>r. pr_run_id r = i) rows"

definition get_run :: "string \<Rightarrow> (silver_db, ProcessingRun option) eff" where
  "get_run i = query (find_run i)"

definition list_runs :: "(silver_db, ProcessingRun list) eff" where
  "list_runs = query (sort_key (\<lambda>r. (utc_isoformat (pr_started_at r), pr_run_id r)))"

definition new_run :: "string \<Rightarrow> string \<Rightarrow> SourceType \<Rightarrow> string \<Rightarrow> string \<Rightarrow> string \<Rightarrow> string \<Rightarrow> string \<Rightarrow> instant
    \<Rightarrow> ProcessingRun" where
  "new_run i pipeline source entity uri checksum code_version schema_version started =
     \<lparr>pr_run_id = i, pr_pipeline_name = pipeline, pr_source_type = source, pr_entity_name = entity,
      pr_input_object_uri = uri, pr_input_checksum = checksum, pr_input_record_count = 0,
      pr_status = DISCOVERED, pr_started_at = started, pr_completed_at = None, pr_output_object_uris = [],
      pr_outputs = [], pr_output_record_count = 0, pr_rejected_record_count = 0, pr_error_code = None,
      pr_error_message = None, pr_code_version = code_version, pr_schema_version = schema_version\<rparr>"

text \<open>Reading a row back that was just written.\<close>

definition reread :: "string \<Rightarrow> (silver_db, ProcessingRun) eff" where
  "reread i = bindE (get_run i) (\<lambda>r. case r of None \<Rightarrow> raiseE (Assertion_Error []) | Some x \<Rightarrow> returnE x)"

definition insert_run :: "ProcessingRun \<Rightarrow> ProcessingRun list \<Rightarrow> (unit \<times> ProcessingRun list) result" where
  "insert_run r rows =
     (if find_run (pr_run_id r) rows \<noteq> None
      then Inl (Processing_Manifest_Error (''Processing run already exists: '' @ pr_run_id r))
      else Inr ((), rows @ [r]))"

definition register_run :: "ProcessingRun \<Rightarrow> (silver_db, ProcessingRun) eff" where
  "register_run r = seqE (transaction (insert_run r)) (reread (pr_run_id r))"

text \<open>The columns \<open>transition\<close> may set; the two output columns are written together.\<close>

datatype run_update =
    Set_input_record_count int
  | Set_completed_at instant
  | Set_outputs "SilverOutput list"
  | Set_output_record_count int
  | Set_rejected_record_count int
  | Set_error_code "string option"
  | Set_error_message "string option"

fun set_run_column :: "run_update \<Rightarrow> ProcessingRun \<Rightarrow> ProcessingRun" where
  "set_run_column (Set_input_record_count n) r = r\<lparr>pr_input_record_count := n\<rparr>"
| "set_run_column (Set_completed_at t) r = r\<lparr>pr_completed_at := Some t\<rparr>"
| "set_run_column (Set_outputs os) r = r\<lparr>pr_output_object_uris := map out_object_uri os, pr_outputs := os\<rparr>"
| "set_run_column (Set_output_record_count n) r = r\<lparr>pr_output_record_count := n\<rparr>"
| "set_run_column (Set_rejected_record_count n) r = r\<lparr>pr_rejected_record_count := n\<rparr>"
| "set_run_column (Set_error_code c) r = r\<lparr>pr_error_code := c\<rparr>"
| "set_run_column (Set_error_message m) r = r\<lparr>pr_error_message := m\<rparr>"

definition transition_rows :: "string \<Rightarrow> ProcessingStatus \<Rightarrow> run_update list \<Rightarrow> ProcessingRun list
    \<Rightarrow> (unit \<times> ProcessingRun list) result" where
  "transition_rows i target updates rows =
     (case find_run i rows of
        None \<Rightarrow> Inl (Processing_Manifest_Error (''Unknown processing run: '' @ i))
      | Some row \<Rightarrow>
          if target \<notin> set (TRANSITIONS (pr_status row))
          then Inl (Processing_Manifest_Error (''Invalid processing transition ''
                 @ processing_status_value (pr_status row) @ '' -> '' @ processing_status_value target))
          else bindR (update_where run_checks (\<lambda>r. pr_run_id r = i \<and> pr_status r = pr_status row)
                        (\<lambda>r. fold set_run_column updates (r\<lparr>pr_status := target\<rparr>)) rows)
                 (\<lambda>(rowcount, rows').
                    if rowcount \<noteq> 1
                    then Inl (Processing_Manifest_Error ''Concurrent processing manifest update detected'')
                    else Inr ((), rows')))"

definition transition_run :: "string \<Rightarrow> ProcessingStatus \<Rightarrow> run_update list \<Rightarrow> (silver_db, ProcessingRun) eff" where
  "transition_run i target updates = seqE (transaction (transition_rows i target updates)) (reread i)"

definition mark_reading :: "string \<Rightarrow> (silver_db, ProcessingRun) eff" where
  "mark_reading i = transition_run i READING []"

definition mark_validating :: "string \<Rightarrow> int \<Rightarrow> (silver_db, ProcessingRun) eff" where
  "mark_validating i n = transition_run i VALIDATING [Set_input_record_count n]"

definition mark_transforming :: "string \<Rightarrow> (silver_db, ProcessingRun) eff" where
  "mark_transforming i = transition_run i TRANSFORMING []"

definition mark_writing :: "string \<Rightarrow> (silver_db, ProcessingRun) eff" where
  "mark_writing i = transition_run i WRITING []"

definition mark_completed :: "string \<Rightarrow> SilverOutput list \<Rightarrow> int \<Rightarrow> int \<Rightarrow> instant \<Rightarrow> (silver_db, ProcessingRun) eff" where
  "mark_completed i outputs output_count rejected_count completed =
     transition_run i COMPLETED
       [Set_completed_at completed, Set_outputs outputs, Set_output_record_count output_count,
        Set_rejected_record_count rejected_count, Set_error_code None, Set_error_message None]"

definition mark_run_failed :: "string \<Rightarrow> string \<Rightarrow> string \<Rightarrow> (silver_db, ProcessingRun) eff" where
  "mark_run_failed i error_name message =
     bindE (get_run i) (\<lambda>current. case current of
       None \<Rightarrow> raiseE (Processing_Manifest_Error (''Unknown processing run: '' @ i))
     | Some r \<Rightarrow>
         if pr_status r \<in> {COMPLETED, QUARANTINED} then returnE r
         else bindE tb_now (\<lambda>t. transition_run i FAILED
                [Set_completed_at t, Set_error_code (Some error_name), Set_error_message (Some (take 1000 message))]))"

definition mark_quarantined :: "string \<Rightarrow> string \<Rightarrow> string \<Rightarrow> int \<Rightarrow> instant \<Rightarrow> (silver_db, ProcessingRun) eff" where
  "mark_quarantined i code message rejected_count completed =
     transition_run i QUARANTINED
       [Set_completed_at completed, Set_rejected_record_count rejected_count, Set_error_code (Some code),
        Set_error_message (Some (take 1000 message))]"

definition same_identity :: "string \<Rightarrow> string \<Rightarrow> string \<Rightarrow> string \<Rightarrow> ProcessingRun \<Rightarrow> bool" where
  "same_identity pipeline checksum code_version schema_version r \<longleftrightarrow>
     pr_pipeline_name r = pipeline \<and> pr_input_checksum r = checksum \<and> pr_code_version r = code_version
     \<and> pr_schema_version r = schema_version"

text \<open>\<open>completed_at\<close> as the text SQLite compares; a null sorts first.\<close>

definition completed_key :: "ProcessingRun \<Rightarrow> string \<times> string" where
  "completed_key r = (case pr_completed_at r of None \<Rightarrow> [] | Some t \<Rightarrow> utc_isoformat t, pr_run_id r)"

definition find_completed :: "string \<Rightarrow> string \<Rightarrow> string \<Rightarrow> string \<Rightarrow> (silver_db, ProcessingRun option) eff" where
  "find_completed pipeline checksum code_version schema_version =
     query (\<lambda>rows. last_by completed_key
       (filter (\<lambda>r. same_identity pipeline checksum code_version schema_version r \<and> pr_status r = COMPLETED) rows))"

definition find_latest_identity :: "string \<Rightarrow> string \<Rightarrow> string \<Rightarrow> string \<Rightarrow> (silver_db, ProcessingRun option) eff" where
  "find_latest_identity pipeline checksum code_version schema_version =
     query (\<lambda>rows. last_by (\<lambda>r. (utc_isoformat (pr_started_at r), pr_run_id r))
       (filter (same_identity pipeline checksum code_version schema_version) rows))"

definition first_output :: "OutputType \<Rightarrow> ProcessingRun list \<Rightarrow> SilverOutput option" where
  "first_output ot rows = find (\<lambda>x. out_type x = ot) (concat (map pr_outputs rows))"

definition latest_output :: "string \<Rightarrow> OutputType \<Rightarrow> string option \<Rightarrow> (silver_db, SilverOutput option) eff" where
  "latest_output entity ot exclude =
     query (\<lambda>rows. first_output ot (rev (sort_key completed_key
       (filter (\<lambda>r. pr_entity_name r = entity \<and> pr_status r = COMPLETED \<and> exclude \<noteq> Some (pr_input_checksum r)) rows))))"

section \<open>Invariant and evolution\<close>

definition terminal :: "ProcessingStatus \<Rightarrow> bool" where
  "terminal s \<longleftrightarrow> TRANSITIONS s = []"

definition run_reaches :: "ProcessingStatus \<Rightarrow> ProcessingStatus \<Rightarrow> bool" where
  "run_reaches = (\<lambda>a b. b \<in> set (TRANSITIONS a))\<^sup>*\<^sup>*"

text \<open>A finished run has a completion time, a completed one its outputs and no error, the others an error.\<close>

definition run_ok :: "ProcessingRun \<Rightarrow> bool" where
  "run_ok r \<longleftrightarrow> run_checks r
     \<and> (terminal (pr_status r) \<longleftrightarrow> pr_completed_at r \<noteq> None)
     \<and> (pr_status r \<noteq> COMPLETED \<longrightarrow> pr_outputs r = [])
     \<and> pr_output_object_uris r = map out_object_uri (pr_outputs r)
     \<and> (pr_error_code r \<noteq> None \<longleftrightarrow> pr_status r \<in> {FAILED, QUARANTINED})"

definition runs_inv :: "ProcessingRun list \<Rightarrow> bool" where
  "runs_inv rows \<longleftrightarrow> distinct (map pr_run_id rows) \<and> (\<forall>r \<in> set rows. run_ok r)"

definition run_identity :: "ProcessingRun
    \<Rightarrow> string \<times> string \<times> SourceType \<times> string \<times> string \<times> string \<times> instant \<times> string \<times> string" where
  "run_identity r = (pr_run_id r, pr_pipeline_name r, pr_source_type r, pr_entity_name r, pr_input_object_uri r,
     pr_input_checksum r, pr_started_at r, pr_code_version r, pr_schema_version r)"

text \<open>A run keeps its identity, moves along the transitions, and a finished run never changes.\<close>

definition run_evolves :: "ProcessingRun \<Rightarrow> ProcessingRun \<Rightarrow> bool" where
  "run_evolves r r' \<longleftrightarrow> run_identity r' = run_identity r \<and> run_reaches (pr_status r) (pr_status r')
     \<and> (terminal (pr_status r) \<longrightarrow> r' = r)"

lemma run_evolves_trans: "run_evolves a b \<Longrightarrow> run_evolves b c \<Longrightarrow> run_evolves a c"
  unfolding run_evolves_def run_reaches_def by (auto intro: rtranclp_trans)

interpretation runs: evolving_table runs_inv run_evolves
  by unfold_locales (simp add: run_evolves_def run_reaches_def, rule run_evolves_trans)

abbreviation runs_keep :: "ProcessingRun list \<Rightarrow> silver_db \<Rightarrow> bool" where
  "runs_keep \<equiv> table_keeps runs_inv run_evolves"

lemma find_run_SomeD: "find_run i rows = Some r \<Longrightarrow> r \<in> set rows \<and> pr_run_id r = i"
  by (auto simp: find_run_def find_Some_iff)

lemma find_run_iff: "distinct (map pr_run_id rows) \<Longrightarrow> find_run i rows = Some r \<longleftrightarrow> r \<in> set rows \<and> pr_run_id r = i"
  by (induction rows) (auto simp: find_run_def)

lemma set_run_column_identity [simp]: "run_identity (set_run_column u r) = run_identity r"
  by (cases u) (simp_all add: run_identity_def)

lemma fold_run_identity [simp]: "run_identity (fold set_run_column us r) = run_identity r"
  by (induction us arbitrary: r) simp_all

lemma set_run_column_status [simp]: "pr_status (set_run_column u r) = pr_status r"
  by (cases u) simp_all

lemma fold_run_status [simp]: "pr_status (fold set_run_column us r) = pr_status r"
  by (induction us arbitrary: r) simp_all

lemma run_identity_id: "run_identity r' = run_identity r \<Longrightarrow> pr_run_id r' = pr_run_id r"
  by (simp add: run_identity_def)

lemma run_identity_status [simp]: "run_identity (r\<lparr>pr_status := s\<rparr>) = run_identity r"
  by (simp add: run_identity_def)

text \<open>What the updates of a transition must leave in order.\<close>

definition good_run_updates :: "ProcessingStatus \<Rightarrow> run_update list \<Rightarrow> bool" where
  "good_run_updates target us \<longleftrightarrow> (\<forall>r. run_ok r \<longrightarrow> target \<in> set (TRANSITIONS (pr_status r)) \<longrightarrow>
     run_checks (fold set_run_column us (r\<lparr>pr_status := target\<rparr>)) \<longrightarrow> run_ok (fold set_run_column us (r\<lparr>pr_status := target\<rparr>)))"

lemma transition_rows_keep:
  assumes "good_run_updates target us" and "runs_inv rows" and "transition_rows i target us rows = Inr (x, rows')"
  shows "runs_inv rows' \<and> table_evolves run_evolves rows rows'"
proof -
  let ?f = "\<lambda>r. fold set_run_column us (r\<lparr>pr_status := target\<rparr>)"
  obtain row where row: "find_run i rows = Some row" "target \<in> set (TRANSITIONS (pr_status row))"
    and up: "update_where run_checks (\<lambda>r. pr_run_id r = i \<and> pr_status r = pr_status row) ?f rows = Inr (1, rows')"
    using assms(3) by (auto simp: transition_rows_def bindR_eq_Inr split: option.splits if_splits)
  let ?hit = "\<lambda>r. pr_run_id r = i \<and> pr_status r = pr_status row"
  have one: "run_evolves r (?f r) \<and> run_ok (?f r)" if "r \<in> set rows" "?hit r" "run_checks (?f r)" for r
  proof -
    have "run_ok r" using assms(2) that(1) by (simp add: runs_inv_def)
    then have "run_ok (?f r)" using assms(1) that row(2) by (simp add: good_run_updates_def)
    moreover have "run_reaches (pr_status r) target"
      using that(2) row(2) by (auto simp: run_reaches_def)
    ultimately show ?thesis using that(2) row(2) by (auto simp: run_evolves_def terminal_def)
  qed
  have rows': "rows' = map (\<lambda>r. if ?hit r then ?f r else r) rows" and chk: "\<forall>r \<in> set rows. ?hit r \<longrightarrow> run_checks (?f r)"
    using up by (auto simp: update_where_def list_all_iff split: if_splits)
  have ids: "pr_run_id (?f r) = pr_run_id r" for r
    using run_identity_id [of "?f r" r] by simp
  have "map pr_run_id rows' = map pr_run_id rows" by (simp add: rows' ids)
  moreover have "\<forall>r \<in> set rows'. run_ok r" using assms(2) one chk by (auto simp: rows' runs_inv_def)
  moreover have "table_evolves run_evolves rows rows'"
    by (rule runs.update_where_evolves [OF up]) (use one in blast)
  ultimately show ?thesis using assms(2) unfolding runs_inv_def by auto
qed

lemma keeps_reread: "preserves (runs_keep rows0) (reread i)"
  unfolding reread_def get_run_def by (intro preserves_rules runs.keeps_query)

lemma keeps_transition_run: "good_run_updates target us \<Longrightarrow> preserves (runs_keep rows0) (transition_run i target us)"
  unfolding transition_run_def
  by (intro preserves_rules runs.keeps_transaction keeps_reread) (rule transition_rows_keep)

lemma keeps_register_run:
  assumes "run_ok r" shows "preserves (runs_keep rows0) (register_run r)"
proof -
  have "runs_inv rows' \<and> table_evolves run_evolves rows rows'" if "runs_inv rows" "insert_run r rows = Inr (x, rows')" for rows x rows'
    using that assms runs.grows_append [OF runs.grows_refl]
    by (auto simp: insert_run_def runs_inv_def find_run_def find_None_iff split: if_splits) blast
  then show ?thesis unfolding register_run_def by (intro preserves_rules runs.keeps_transaction keeps_reread)
qed

lemma transition_source: "target \<in> set (TRANSITIONS s) \<Longrightarrow> TRANSITIONS s \<noteq> [] \<and> s \<notin> {COMPLETED, FAILED, QUARANTINED}"
  by (cases s) auto

lemma good_run_updatesI:
  assumes "\<And>r. run_ok r \<Longrightarrow> TRANSITIONS (pr_status r) \<noteq> [] \<Longrightarrow> pr_status r \<notin> {COMPLETED, FAILED, QUARANTINED} \<Longrightarrow>
    run_checks (fold set_run_column us (r\<lparr>pr_status := target\<rparr>)) \<Longrightarrow> run_ok (fold set_run_column us (r\<lparr>pr_status := target\<rparr>))"
  shows "good_run_updates target us"
  unfolding good_run_updates_def using assms transition_source by blast

lemma keeps_mark_reading [preserves_rules]: "preserves (runs_keep rows0) (mark_reading i)"
  unfolding mark_reading_def
  by (intro keeps_transition_run good_run_updatesI) (auto simp: run_ok_def terminal_def run_checks_def)

lemma keeps_mark_validating [preserves_rules]: "preserves (runs_keep rows0) (mark_validating i n)"
  unfolding mark_validating_def
  by (intro keeps_transition_run good_run_updatesI) (auto simp: run_ok_def terminal_def run_checks_def)

lemma keeps_mark_transforming [preserves_rules]: "preserves (runs_keep rows0) (mark_transforming i)"
  unfolding mark_transforming_def
  by (intro keeps_transition_run good_run_updatesI) (auto simp: run_ok_def terminal_def run_checks_def)

lemma keeps_mark_writing [preserves_rules]: "preserves (runs_keep rows0) (mark_writing i)"
  unfolding mark_writing_def
  by (intro keeps_transition_run good_run_updatesI) (auto simp: run_ok_def terminal_def run_checks_def)

lemma keeps_mark_completed [preserves_rules]: "preserves (runs_keep rows0) (mark_completed i os n m t)"
  unfolding mark_completed_def
  by (intro keeps_transition_run good_run_updatesI) (auto simp: run_ok_def terminal_def run_checks_def)

lemma keeps_mark_quarantined [preserves_rules]: "preserves (runs_keep rows0) (mark_quarantined i c m n t)"
  unfolding mark_quarantined_def
  by (intro keeps_transition_run good_run_updatesI) (auto simp: run_ok_def terminal_def run_checks_def)

lemma keeps_get_run [preserves_rules]: "preserves (runs_keep rows0) (get_run i)"
  unfolding get_run_def by (rule runs.keeps_query)

lemma keeps_mark_run_failed [preserves_rules]: "preserves (runs_keep rows0) (mark_run_failed i e m)"
  unfolding mark_run_failed_def
  by (intro preserves_rules keeps_transition_run good_run_updatesI) (auto simp: run_ok_def terminal_def run_checks_def)

lemma new_run_ok: "run_ok (new_run i p src e u c cv sv t)"
  by (simp add: run_ok_def run_checks_def new_run_def terminal_def)

lemma keeps_register_new_run [preserves_rules]: "preserves (runs_keep rows0) (register_run (new_run i p src e u c cv sv t))"
  by (rule keeps_register_run [OF new_run_ok])

text \<open>Any call of the manifest's interface, with any arguments and faults.\<close>

inductive run_step :: "silver_db \<Rightarrow> silver_db \<Rightarrow> bool" where
  run_register: "run_step db (snd (register_run (new_run i p src e u c cv sv t) db))"
| run_reading: "run_step db (snd (mark_reading i db))"
| run_validating: "run_step db (snd (mark_validating i n db))"
| run_transforming: "run_step db (snd (mark_transforming i db))"
| run_writing: "run_step db (snd (mark_writing i db))"
| run_completed: "run_step db (snd (mark_completed i os n m t db))"
| run_failed: "run_step db (snd (mark_run_failed i en em db))"
| run_quarantined: "run_step db (snd (mark_quarantined i en em n t db))"
| run_get: "run_step db (snd (get_run i db))"
| run_list: "run_step db (snd (list_runs db))"
| run_find_completed: "run_step db (snd (find_completed p c cv sv db))"
| run_find_latest: "run_step db (snd (find_latest_identity p c cv sv db))"
| run_latest_output: "run_step db (snd (latest_output e ot x db))"

lemma run_step_keeps: "run_step db db' \<Longrightarrow> runs_keep rows0 db \<Longrightarrow> runs_keep rows0 db'"
  by (induction rule: run_step.induct,
      unfold list_runs_def find_completed_def find_latest_identity_def latest_output_def)
    (erule preservesD [rotated], intro preserves_rules runs.keeps_query)+

lemma run_steps_keep: "run_step\<^sup>*\<^sup>* db db' \<Longrightarrow> runs_keep rows0 db \<Longrightarrow> runs_keep rows0 db'"
  by (induction rule: rtranclp_induct) (auto intro: run_step_keeps)

section \<open>Results of the operations\<close>

lemma find_run_update:
  assumes "\<And>r. pr_run_id (f r) = pr_run_id r"
  shows "find_run i (map (\<lambda>r. if pr_run_id r = i \<and> pr_status r = st then f r else r) rows)
    = map_option (\<lambda>r. if pr_status r = st then f r else r) (find_run i rows)"
  unfolding find_run_def using assms by (induction rows) auto

lemma transition_run_ok:
  assumes "transition_run i target us db = (Inr r, db')"
  shows "\<exists>old. find_run i (tb_rows db) = Some old \<and> target \<in> set (TRANSITIONS (pr_status old))
    \<and> r = fold set_run_column us (old\<lparr>pr_status := target\<rparr>) \<and> find_run i (tb_rows db') = Some r"
proof -
  obtain db1 where t: "transaction (transition_rows i target us) db = (Inr (), db1)" and g: "reread i db1 = (Inr r, db')"
    using assms by (auto simp: transition_run_def seqE_def bindE_def split: prod.splits sum.splits)
  have rows: "transition_rows i target us (tb_rows db) = Inr ((), tb_rows db1)"
    using t by (auto simp: transaction_def Let_def split: option.splits sum.splits)
  then obtain old where old: "find_run i (tb_rows db) = Some old" "target \<in> set (TRANSITIONS (pr_status old))"
    and up: "update_where run_checks (\<lambda>r. pr_run_id r = i \<and> pr_status r = pr_status old)
        (\<lambda>r. fold set_run_column us (r\<lparr>pr_status := target\<rparr>)) (tb_rows db) = Inr (1, tb_rows db1)"
    by (auto simp: transition_rows_def bindR_eq_Inr split: option.splits if_splits)
  let ?f = "\<lambda>r. fold set_run_column us (r\<lparr>pr_status := target\<rparr>)"
  have ids: "pr_run_id (?f r) = pr_run_id r" for r using run_identity_id [of "?f r" r] by simp
  have "tb_rows db1 = map (\<lambda>r. if pr_run_id r = i \<and> pr_status r = pr_status old then ?f r else r) (tb_rows db)"
    using up by (auto simp: update_where_def split: if_splits)
  then have "find_run i (tb_rows db1) = Some (?f old)"
    using find_run_update [of ?f i "pr_status old" "tb_rows db"] ids old(1) by simp
  moreover have "find_run i (tb_rows db1) = Some r \<and> tb_rows db' = tb_rows db1"
    using g query_result [of "find_run i" db1]
    by (auto simp: reread_def get_run_def bindE_def returnE_def raiseE_def split: prod.splits sum.splits option.splits)
  ultimately show ?thesis using old by auto
qed

lemma find_output_in:
  "first_output ot rows = Some x \<Longrightarrow> \<exists>r \<in> set rows. x \<in> set (pr_outputs r) \<and> out_type x = ot"
  by (auto simp: first_output_def find_Some_iff dest!: nth_mem)

section \<open>Properties\<close>

text \<open>
  C22. Life cycle of Silver runs: whatever manifest calls and SQLite faults happen, run ids stay
  unique, a finished run has a completion time, only a completed run has outputs, exactly the
  failed and quarantined runs have an error code, every run keeps its identity and moves along
  the allowed transitions only, and a run in a terminal status is never changed again.
\<close>

theorem silver_run_lifecycle:
  assumes "runs_inv (tb_rows db)" and "run_step\<^sup>*\<^sup>* db db'"
  shows "runs_inv (tb_rows db')
    \<and> (\<forall>r \<in> set (tb_rows db). \<exists>r' \<in> set (tb_rows db'). run_identity r' = run_identity r
         \<and> run_reaches (pr_status r) (pr_status r') \<and> (pr_status r \<in> {COMPLETED, FAILED, QUARANTINED} \<longrightarrow> r' = r))"
proof -
  have k: "runs_keep (tb_rows db) db'" by (rule run_steps_keep [OF assms(2) runs.keeps_start [OF assms(1)]])
  then show ?thesis
    using runs.grows_row [of "tb_rows db" "tb_rows db'"]
    by (auto simp: table_keeps_def run_evolves_def terminal_def) (metis TRANSITIONS.simps)+
qed

definition empty_silver :: silver_db where
  "empty_silver = \<lparr>tb_rows = [], tb_faults = \<lambda>_. None, tb_tick = 0, tb_clock = \<lambda>_. 0\<rparr>"

theorem silver_run_lifecycle_witness:
  "runs_inv (tb_rows (snd (mark_reading ''r'' (snd (register_run
      (new_run ''r'' ''p'' CDC ''refunds'' ''u'' ''c'' ''v'' ''s'' 0) empty_silver)))))"
proof -
  have "run_step\<^sup>*\<^sup>* empty_silver (snd (mark_reading ''r'' (snd (register_run
      (new_run ''r'' ''p'' CDC ''refunds'' ''u'' ''c'' ''v'' ''s'' 0) empty_silver))))"
    by (meson run_step.intros rtranclp.rtrancl_into_rtrancl rtranclp.rtrancl_refl)
  moreover have "runs_inv (tb_rows empty_silver)" by (simp add: runs_inv_def empty_silver_def)
  ultimately show ?thesis using silver_run_lifecycle by blast
qed



end
