(* ===== verification/Py_Csv.thy ===== *)
theory Py_Csv
  imports Py_Json Sha256
begin

text \<open>
  Two more parts of Python's standard library that the settlement ingestion uses: the reader of
  \<open>csv.DictReader(handle, delimiter=d, strict=True)\<close> as the state machine of the \<open>_csv\<close> module, and
  \<open>uuid.UUID\<close> with \<open>uuid5\<close>. A text is its UTF-8 bytes; the delimiter is an ASCII character.
\<close>

section \<open>Lines and lengths\<close>

text \<open>\<open>len(text)\<close>: the code points of a UTF-8 text.\<close>

definition py_len :: "string \<Rightarrow> nat" where
  "py_len s = length (filter (\<lambda>c. \<not> cont_byte c) s)"

text \<open>The lines of a file opened with \<open>newline=""\<close>, with their terminators.\<close>

fun py_lines_from :: "string \<Rightarrow> string \<Rightarrow> string list" where
  "py_lines_from acc [] = (if acc = [] then [] else [acc])"
| "py_lines_from acc (c # s) =
     (if c = CHR 0x0A then (acc @ [c]) # py_lines_from [] s
      else if c = CHR 0x0D
      then (case s of
          d # r \<Rightarrow> if d = CHR 0x0A then (acc @ [c, d]) # py_lines_from [] r else (acc @ [c]) # py_lines_from [] s
        | [] \<Rightarrow> [acc @ [c]])
      else py_lines_from (acc @ [c]) s)"

text \<open>
  A text stream: the text decoded so far and the failure that ended it. A line is given out when its
  terminator is known, so the incomplete last line before a failure is not.
\<close>

type_synonym text_stream = "string \<times> exn option"

definition stream_lines :: "text_stream \<Rightarrow> string list" where
  "stream_lines st =
     (let ls = py_lines_from [] (fst st) in
      if snd st = None \<or> ls = [] \<or> last (last ls) = CHR 0x0A then ls else butlast ls)"

section \<open>The CSV reader\<close>

datatype csv_state = Start_Record | Start_Field | In_Field | In_Quoted | Quote_In_Quoted | Eat_Crnl

record csv_reader =
  cs_state :: csv_state
  cs_field :: string
  cs_fields :: "string list"

definition csv_fresh :: csv_reader where
  "csv_fresh = \<lparr>cs_state = Start_Record, cs_field = [], cs_fields = []\<rparr>"

definition csv_error :: "string \<Rightarrow> 'a result" where
  "csv_error m = Inl (Csv_Error m)"

definition csv_save :: "csv_state \<Rightarrow> csv_reader \<Rightarrow> csv_reader" where
  "csv_save st r = r\<lparr>cs_state := st, cs_field := [], cs_fields := cs_fields r @ [cs_field r]\<rparr>"

definition csv_add :: "csv_state \<Rightarrow> char \<Rightarrow> csv_reader \<Rightarrow> csv_reader result" where
  "csv_add st c r =
     (if \<not> cont_byte c \<and> 131072 \<le> py_len (cs_field r) then csv_error ''field larger than field limit (131072)''
      else Inr (r\<lparr>cs_state := st, cs_field := cs_field r @ [c]\<rparr>))"

definition is_newline :: "char \<Rightarrow> bool" where
  "is_newline c \<longleftrightarrow> c = CHR 0x0A \<or> c = CHR 0x0D"

definition csv_field_char :: "char \<Rightarrow> char \<Rightarrow> csv_reader \<Rightarrow> csv_reader result" where
  "csv_field_char delim c r =
     (if is_newline c then Inr (csv_save Eat_Crnl r)
      else if c = CHR 0x22 then Inr (r\<lparr>cs_state := In_Quoted\<rparr>)
      else if c = delim then Inr (csv_save Start_Field r)
      else csv_add In_Field c r)"

definition csv_char :: "char \<Rightarrow> char \<Rightarrow> csv_reader \<Rightarrow> csv_reader result" where
  "csv_char delim c r =
     (case cs_state r of
        Start_Record \<Rightarrow> if is_newline c then Inr (r\<lparr>cs_state := Eat_Crnl\<rparr>) else csv_field_char delim c r
      | Start_Field \<Rightarrow> csv_field_char delim c r
      | In_Field \<Rightarrow>
          if is_newline c then Inr (csv_save Eat_Crnl r)
          else if c = delim then Inr (csv_save Start_Field r)
          else csv_add In_Field c r
      | In_Quoted \<Rightarrow> if c = CHR 0x22 then Inr (r\<lparr>cs_state := Quote_In_Quoted\<rparr>) else csv_add In_Quoted c r
      | Quote_In_Quoted \<Rightarrow>
          if c = CHR 0x22 then csv_add In_Quoted c r
          else if c = delim then Inr (csv_save Start_Field r)
          else if is_newline c then Inr (csv_save Eat_Crnl r)
          else csv_error ''delimiter expected after quote''
      | Eat_Crnl \<Rightarrow> if is_newline c then Inr r else csv_error ''new-line character seen in unquoted field'')"

fun csv_line :: "char \<Rightarrow> string \<Rightarrow> csv_reader \<Rightarrow> csv_reader result" where
  "csv_line delim [] r = Inr r"
| "csv_line delim (c # s) r = bindR (csv_char delim c r) (csv_line delim s)"

text \<open>The end of a line of the file.\<close>

definition csv_eol :: "csv_reader \<Rightarrow> csv_reader" where
  "csv_eol r =
     (case cs_state r of
        Start_Record \<Rightarrow> r
      | In_Quoted \<Rightarrow> r
      | Eat_Crnl \<Rightarrow> r\<lparr>cs_state := Start_Record\<rparr>
      | _ \<Rightarrow> csv_save Start_Record r)"

text \<open>The lines are used up: the failure that ended them is raised, otherwise the reader ends.\<close>

definition csv_end :: "exn option \<Rightarrow> csv_reader \<Rightarrow> 'a \<Rightarrow> 'a result" where
  "csv_end fault r x =
     (case fault of
        Some e \<Rightarrow> Inl e
      | None \<Rightarrow> if cs_field r \<noteq> [] \<or> cs_state r = In_Quoted then csv_error ''unexpected end of data'' else Inr x)"

text \<open>The next record with the lines after it, and all remaining records.\<close>

fun csv_next :: "char \<Rightarrow> exn option \<Rightarrow> csv_reader \<Rightarrow> string list \<Rightarrow> (string list \<times> string list) option result" where
  "csv_next delim fault r [] = csv_end fault r None"
| "csv_next delim fault r (l # ls) =
     bindR (csv_line delim l r) (\<lambda>r1. let r2 = csv_eol r1 in
       if cs_state r2 = Start_Record then Inr (Some (cs_fields r2, ls)) else csv_next delim fault r2 ls)"

fun csv_rows :: "char \<Rightarrow> exn option \<Rightarrow> csv_reader \<Rightarrow> string list \<Rightarrow> string list list result" where
  "csv_rows delim fault r [] = csv_end fault r []"
| "csv_rows delim fault r (l # ls) =
     bindR (csv_line delim l r) (\<lambda>r1. let r2 = csv_eol r1 in
       if cs_state r2 = Start_Record
       then bindR (csv_rows delim fault csv_fresh ls) (\<lambda>rest. Inr (cs_fields r2 # rest))
       else csv_rows delim fault r2 ls)"

text \<open>
  \<open>DictReader\<close>: a record under the field names; missing cells are \<open>None\<close>, surplus ones go to the
  key \<open>None\<close>, which the validation never reads.
\<close>

definition dict_row :: "string list \<Rightarrow> string list \<Rightarrow> (string \<times> string option) list" where
  "dict_row names row = map (\<lambda>i. (names ! i, if i < length row then Some (row ! i) else None)) [0..<length names]"

section \<open>UUIDs\<close>

text \<open>\<open>text.replace(p, "")\<close>.\<close>

function remove_all :: "string \<Rightarrow> string \<Rightarrow> string" where
  "remove_all p s = (if p = [] \<or> s = [] then s
     else if starts_with p s then remove_all p (drop (length p) s) else hd s # remove_all p (tl s))"
  by pat_completeness auto
termination
  by (relation "measure (\<lambda>(p, s). length s)") auto

declare remove_all.simps [simp del]

text \<open>\<open>int(text, 16)\<close> of the 32 remaining characters.\<close>

fun underscored_hex :: "string \<Rightarrow> bool" where
  "underscored_hex [] = False"
| "underscored_hex [c] = (hex_value c \<noteq> None)"
| "underscored_hex (c # d # s) =
     (hex_value c \<noteq> None \<and> (if d = CHR ''_'' then underscored_hex s else underscored_hex (d # s)))"

definition hex_int :: "string \<Rightarrow> nat option" where
  "hex_int text =
     (let s = py_strip text; b = (if take 1 s = ''+'' then tl s else s);
          c = (if take 2 (to_lower b) = ''0x'' then (if take 1 (drop 2 b) = ''_'' then drop 3 b else drop 2 b) else b) in
      if underscored_hex c
      then Some (foldl (\<lambda>a d. case hex_value d of None \<Rightarrow> a | Some v \<Rightarrow> 16 * a + v) 0 c) else None)"

definition uuid_of_text :: "string \<Rightarrow> nat result" where
  "uuid_of_text text =
     (let t = remove_all ''uuid:'' (remove_all ''urn:'' text);
          u = rev (dropWhile (\<lambda>c. c = CHR ''{'' \<or> c = CHR ''}'') (rev (dropWhile (\<lambda>c. c = CHR ''{'' \<or> c = CHR ''}'') t)));
          h = filter (\<lambda>c. c \<noteq> CHR ''-'') u in
      if py_len h \<noteq> 32 then Inl (Value_Error ''badly formed hexadecimal UUID string'')
      else (case hex_int h of Some n \<Rightarrow> Inr n | None \<Rightarrow> Inl (Value_Error ''invalid literal for int() with base 16'')))"

definition uuid_str :: "nat \<Rightarrow> string" where
  "uuid_str n = (let h = hex_of 32 n in
     take 8 h @ ''-'' @ take 4 (drop 8 h) @ ''-'' @ take 4 (drop 12 h) @ ''-'' @ take 4 (drop 16 h) @ ''-'' @ drop 20 h)"

text \<open>\<open>hashlib.sha1\<close>, for \<open>uuid5\<close>.\<close>

fun sha1_schedule :: "nat \<Rightarrow> u32 list \<Rightarrow> u32 list" where
  "sha1_schedule 0 w = w"
| "sha1_schedule (Suc n) w =
     (let t = length w
      in sha1_schedule n (w @ [word_rotl 1 (w ! (t - 3) XOR w ! (t - 8) XOR w ! (t - 14) XOR w ! (t - 16))]))"

type_synonym sha1_state = "u32 \<times> u32 \<times> u32 \<times> u32 \<times> u32"

fun sha1_round :: "nat \<times> u32 \<Rightarrow> sha1_state \<Rightarrow> sha1_state" where
  "sha1_round (i, w) (a, b, c, d, e) =
     (let (f, k) = (if i < 20 then ((b AND c) OR (NOT b AND d), 1518500249)
                    else if i < 40 then (b XOR c XOR d, 1859775393)
                    else if i < 60 then ((b AND c) OR (b AND d) OR (c AND d), 2400959708)
                    else (b XOR c XOR d, 3395469782))
      in (word_rotl 5 a + f + e + k + w, a, word_rotl 30 b, c, d))"

fun sha1_add :: "sha1_state \<Rightarrow> sha1_state \<Rightarrow> sha1_state" where
  "sha1_add (a, b, c, d, e) (a', b', c', d', e') = (a + a', b + b', c + c', d + d', e + e')"

definition sha1_block :: "sha1_state \<Rightarrow> u32 list \<Rightarrow> sha1_state" where
  "sha1_block s block = sha1_add s (fold sha1_round (zip [0..<80] (sha1_schedule 64 block)) s)"

definition sha1_number :: "nat list \<Rightarrow> nat" where
  "sha1_number m =
     (case foldl sha1_block (1732584193, 4023233417, 2562383102, 271733878, 3285377520) (sha_blocks m) of
        (a, b, c, d, e) \<Rightarrow> foldl (\<lambda>n w. n * 4294967296 + unat w) 0 [a, b, c, d, e])"

text \<open>\<open>uuid5(namespace, name)\<close>: the first 128 bits with the version and variant set.\<close>

definition uuid5 :: "nat \<Rightarrow> string \<Rightarrow> nat" where
  "uuid5 ns name =
     (let h = sha1_number (be_bytes 16 ns @ map of_char name) div 2 ^ 32;
          hi = h div 2 ^ 80; mid = h div 2 ^ 64 mod 2 ^ 12; lo = h mod 2 ^ 62
      in hi * 2 ^ 80 + 5 * 2 ^ 76 + mid * 2 ^ 64 + 2 ^ 63 + lo)"

section \<open>Plain files\<close>

text \<open>
  A cell without delimiters, quotes and line breaks, and a record of such cells as a line. A record
  of one empty cell is excluded: its line is empty and is read as a record without cells.
\<close>

definition plain_cell :: "char \<Rightarrow> string \<Rightarrow> bool" where
  "plain_cell delim s \<longleftrightarrow> py_len s \<le> 131072 \<and> (\<forall>c\<in>set s. c \<noteq> delim \<and> c \<noteq> CHR 0x22 \<and> \<not> is_newline c)"

definition plain_row :: "char \<Rightarrow> string list \<Rightarrow> bool" where
  "plain_row delim cells \<longleftrightarrow> cells \<noteq> [] \<and> cells \<noteq> [[]] \<and> (\<forall>s\<in>set cells. plain_cell delim s)"

definition csv_text :: "char \<Rightarrow> string list \<Rightarrow> string" where
  "csv_text delim cells = join_with [delim] cells @ [CHR 0x0A]"

lemma py_len_append [simp]: "py_len (xs @ ys) = py_len xs + py_len ys"
  by (simp add: py_len_def)

lemma csv_line_append: "csv_line delim (xs @ ys) r = bindR (csv_line delim xs r) (csv_line delim ys)"
  by (induction xs arbitrary: r) (auto simp: bindR_def split: sum.splits)

lemma csv_char_plain:
  assumes "c \<noteq> delim" "c \<noteq> CHR 0x22" "\<not> is_newline c" "cs_state r \<in> {Start_Record, Start_Field, In_Field}"
    "py_len (cs_field r @ [c]) \<le> 131072"
  shows "csv_char delim c r = Inr (r\<lparr>cs_state := In_Field, cs_field := cs_field r @ [c]\<rparr>)"
proof -
  have "\<not> (\<not> cont_byte c \<and> 131072 \<le> py_len (cs_field r))"
    using assms(5) by (auto simp: py_len_def)
  then have "csv_add In_Field c r = Inr (r\<lparr>cs_state := In_Field, cs_field := cs_field r @ [c]\<rparr>)"
    unfolding csv_add_def by (simp only: if_False)
  then show ?thesis
    using assms(1-4) unfolding csv_char_def csv_field_char_def by (cases "cs_state r") (simp_all only: csv_state.case if_False, simp_all)
qed

lemma csv_line_plain:
  assumes "\<forall>c\<in>set xs. c \<noteq> delim \<and> c \<noteq> CHR 0x22 \<and> \<not> is_newline c" "xs \<noteq> []"
    "cs_state r \<in> {Start_Record, Start_Field, In_Field}" "py_len (cs_field r @ xs) \<le> 131072"
  shows "csv_line delim xs r = Inr (r\<lparr>cs_state := In_Field, cs_field := cs_field r @ xs\<rparr>)"
  using assms
proof (induction xs arbitrary: r)
  case (Cons c xs)
  have "csv_char delim c r = Inr (r\<lparr>cs_state := In_Field, cs_field := cs_field r @ [c]\<rparr>)"
    using Cons.prems by (intro csv_char_plain) (auto simp: py_len_def split: if_split_asm)
  moreover have "csv_line delim xs (r\<lparr>cs_state := In_Field, cs_field := cs_field r @ [c]\<rparr>)
      = Inr (r\<lparr>cs_state := In_Field, cs_field := cs_field r @ c # xs\<rparr>)"
    using Cons.prems Cons.IH [of "r\<lparr>cs_state := In_Field, cs_field := cs_field r @ [c]\<rparr>"] by (cases "xs = []") auto
  ultimately show ?case by simp
qed simp

lemma csv_line_cell:
  assumes "plain_cell delim s" "cs_state r = Start_Record \<or> cs_state r = Start_Field" "cs_field r = []"
    "delim \<noteq> CHR 0x22" "\<not> is_newline delim"
  shows "csv_line delim (s @ [delim]) r = Inr (csv_save Start_Field (r\<lparr>cs_field := s\<rparr>))"
    and "s \<noteq> [] \<or> cs_state r = Start_Field \<Longrightarrow>
      csv_line delim (s @ [CHR 0x0A]) r = Inr (csv_save Eat_Crnl (r\<lparr>cs_field := s\<rparr>))"
proof -
  have s: "s \<noteq> [] \<Longrightarrow> csv_line delim s r = Inr (r\<lparr>cs_state := In_Field, cs_field := s\<rparr>)"
    using assms csv_line_plain [of s delim r] by (auto simp: plain_cell_def)
  have d: "delim \<noteq> CHR 0x0A" using assms(5) by (auto simp: is_newline_def)
  have nl: "is_newline (CHR 0x0A)" by (simp add: is_newline_def)
  have r: "r\<lparr>cs_field := []\<rparr> = r" using assms(3) by simp
  show "csv_line delim (s @ [delim]) r = Inr (csv_save Start_Field (r\<lparr>cs_field := s\<rparr>))"
    using s assms(2-5) by (cases "s = []") (auto simp: csv_line_append csv_char_def csv_field_char_def csv_save_def)
  show "csv_line delim (s @ [CHR 0x0A]) r = Inr (csv_save Eat_Crnl (r\<lparr>cs_field := s\<rparr>))"
    if "s \<noteq> [] \<or> cs_state r = Start_Field"
    using s nl that assms(2,3) by (cases "s = []") (auto simp: csv_line_append csv_char_def csv_field_char_def csv_save_def)
qed

lemma csv_line_row:
  assumes "cells \<noteq> []" "\<forall>s\<in>set cells. plain_cell delim s" "cs_state r = Start_Field \<or> cs_state r = Start_Record \<and> cells \<noteq> [[]]"
    "cs_field r = []" "delim \<noteq> CHR 0x22" "\<not> is_newline delim"
  shows "csv_line delim (csv_text delim cells) r
    = Inr (r\<lparr>cs_state := Eat_Crnl, cs_field := [], cs_fields := cs_fields r @ cells\<rparr>)"
  using assms
proof (induction cells arbitrary: r)
  case (Cons s cells)
  show ?case
  proof (cases "cells = []")
    case True
    then show ?thesis using Cons.prems csv_line_cell(2) [of delim s r] by (auto simp: csv_text_def csv_save_def)
  next
    case False
    then obtain s2 rest where c: "cells = s2 # rest" by (cases cells) auto
    have "csv_line delim (s @ [delim]) r = Inr (csv_save Start_Field (r\<lparr>cs_field := s\<rparr>))"
      using Cons.prems by (intro csv_line_cell(1)) auto
    moreover have "csv_text delim (s # cells) = (s @ [delim]) @ csv_text delim cells"
      using c by (simp add: csv_text_def)
    ultimately show ?thesis
      using Cons.IH [of "csv_save Start_Field (r\<lparr>cs_field := s\<rparr>)"] Cons.prems False
      by (simp only: csv_line_append bindR_Inr) (simp add: csv_save_def)
  qed
qed simp

lemma csv_rows_plain:
  assumes "\<forall>row\<in>set rows. plain_row delim row" "delim \<noteq> CHR 0x22" "\<not> is_newline delim"
  shows "csv_rows delim None csv_fresh (map (csv_text delim) rows) = Inr rows"
    and "rows \<noteq> [] \<Longrightarrow>
      csv_next delim None csv_fresh (map (csv_text delim) rows) = Inr (Some (hd rows, map (csv_text delim) (tl rows)))"
proof -
  have line: "csv_line delim (csv_text delim row) csv_fresh
      = Inr (csv_fresh\<lparr>cs_state := Eat_Crnl, cs_field := [], cs_fields := row\<rparr>)" if "row \<in> set rows" for row
    using csv_line_row [of row delim csv_fresh] that assms by (auto simp: csv_fresh_def plain_row_def)
  then show "csv_rows delim None csv_fresh (map (csv_text delim) rows) = Inr rows"
    by (induction rows) (auto simp: csv_eol_def csv_fresh_def csv_end_def Let_def)
  show "rows \<noteq> [] \<Longrightarrow>
      csv_next delim None csv_fresh (map (csv_text delim) rows) = Inr (Some (hd rows, map (csv_text delim) (tl rows)))"
    using line by (cases rows) (auto simp: csv_eol_def csv_fresh_def Let_def)
qed

lemma py_lines_from_line:
  "\<forall>c\<in>set xs. \<not> is_newline c \<Longrightarrow> py_lines_from acc (xs @ CHR 0x0A # rest) = (acc @ xs @ [CHR 0x0A]) # py_lines_from [] rest"
  by (induction xs arbitrary: acc) (auto simp: is_newline_def)

lemma py_lines_plain:
  assumes "\<forall>row\<in>set rows. plain_row delim row" "\<not> is_newline delim"
  shows "py_lines_from [] (concat (map (csv_text delim) rows)) = map (csv_text delim) rows"
  using assms
proof (induction rows)
  case (Cons row rows)
  have "\<forall>c\<in>set (join_with [delim] row). \<not> is_newline c"
    using Cons.prems set_join_with [of "[delim]" row] by (fastforce simp: plain_row_def plain_cell_def)
  with Cons show ?case by (simp add: csv_text_def py_lines_from_line)
qed simp

end
