(* ===== verification/Batch_Validation.thy ===== *)
theory Batch_Validation
  imports Py_Csv "HOL-Library.Multiset"
begin

text \<open>
  The settlement files of the banking partners: \<open>models.py\<close>, \<open>contracts.py\<close>, the file names of
  \<open>discovery.py\<close> and \<open>validation.py\<close> of \<open>ingestion/batch\<close>. The regular expressions of a contract
  and its text encoding are data of the contract file, so matching and decoding are a parameter
  (\<open>text_env\<close>); the YAML library is a parameter too, given by the document it returns. A date is a
  number of days since the epoch, a \<open>UUID\<close> its number.
\<close>

section \<open>Models\<close>

datatype ManifestStatus = DISCOVERED | VALIDATING | VALIDATED | PROCESSING | PROCESSED | QUARANTINED | FAILED

datatype DuplicateKind = NEW_FILE | SAME_NAME_CHANGED_CONTENT | SAME_NAME_SAME_CONTENT | DIFFERENT_NAME_SAME_CONTENT

record FilenameMetadata =
  fm_partner_id :: string
  fm_settlement_date :: int
  fm_sequence :: int
  fm_file_name :: string

record SettlementRecord =
  st_partner_id :: string
  st_settlement_date :: int
  st_settlement_reference :: string
  st_partner_transaction_reference :: string
  st_internal_transaction_id :: "nat option"
  st_transaction_timestamp :: instant
  st_amount :: decimal
  st_currency :: string
  st_settlement_status :: string
  st_fee_amount :: decimal
  st_net_amount :: decimal
  st_source_row_number :: nat

record ValidationIssue =
  vi_code :: string
  vi_message :: string

type_synonym raw_record = "(string \<times> string option) list"

record RejectedRecord =
  rr_source_file :: string
  rr_source_row_number :: nat
  rr_raw_record :: raw_record
  rr_error_code :: string
  rr_error_message :: string
  rr_rejected_at :: instant
  rr_ingestion_run_id :: string

record FileValidationResult =
  fv_file_issues :: "ValidationIssue list"
  fv_accepted_records :: "SettlementRecord list"
  fv_rejected_records :: "RejectedRecord list"
  fv_record_count :: nat

definition file_is_valid :: "FileValidationResult \<Rightarrow> bool" where
  "file_is_valid v \<longleftrightarrow> fv_file_issues v = []"

definition issue :: "string \<Rightarrow> string \<Rightarrow> ValidationIssue" where
  "issue code message = \<lparr>vi_code = code, vi_message = message\<rparr>"

section \<open>Contracts\<close>

definition REQUIRED_SETTLEMENT_FIELDS :: "string list" where
  "REQUIRED_SETTLEMENT_FIELDS =
     [''partner_id'', ''settlement_date'', ''settlement_reference'', ''partner_transaction_reference'',
      ''internal_transaction_id'', ''transaction_timestamp'', ''amount'', ''currency'', ''settlement_status'',
      ''fee_amount'', ''net_amount'']"

record FieldContract =
  fc_name :: string
  fc_data_type :: string
  fc_required :: bool
  fc_nullable :: bool
  fc_precision :: "int option"
  fc_scale :: "int option"
  fc_pattern :: "string option"
  fc_max_length :: "int option"
  fc_allowed_values :: "string list"
  fc_timezone_required :: bool

record SettlementContract =
  sc_name :: string
  sc_schema_version :: string
  sc_contract_version :: string
  sc_owner :: string
  sc_source_owner :: string
  sc_classification :: string
  sc_encoding :: string
  sc_delimiter :: string
  sc_naming_convention :: string
  sc_naming_pattern :: string
  sc_timestamp_convention :: string
  sc_business_key :: "string list"
  sc_fields :: "FieldContract list"

definition field_names :: "SettlementContract \<Rightarrow> string list" where
  "field_names C = map fc_name (sc_fields C)"

definition contract_field :: "SettlementContract \<Rightarrow> string \<Rightarrow> FieldContract result" where
  "contract_field C name =
     (case List.find (\<lambda>f. fc_name f = name) (sc_fields C) of
        Some f \<Rightarrow> Inr f
      | None \<Rightarrow> Inl (Contract_Error (''Contract '' @ sc_schema_version C @ '' is missing field '' @ name)))"

definition allowed_statuses :: "SettlementContract \<Rightarrow> string list result" where
  "allowed_statuses C = bindR (contract_field C ''settlement_status'') (\<lambda>f. Inr (fc_allowed_values f))"

text \<open>
  Matching and decoding: pattern validity, the named groups of a pattern, a full match with its
  groups, and a codec, which gives the text it has decoded when it ends or fails.
\<close>

record text_env =
  te_pattern_valid :: "string \<Rightarrow> bool"
  te_pattern_groups :: "string \<Rightarrow> string list"
  te_fullmatch :: "string \<Rightarrow> string \<Rightarrow> (string \<times> string) list option"
  te_decode :: "string \<Rightarrow> bytes \<Rightarrow> string \<times> exn option"

text \<open>
  A document as the YAML library returns it, in the type of JSON values: other scalars count as
  \<open>JFloat\<close>, keys that are not texts are dropped, both of which the code never accepts.
\<close>

definition yaml_mapping :: "json option \<Rightarrow> string \<Rightarrow> (string \<times> json) list result" where
  "yaml_mapping v context =
     (case v of Some (JObject kvs) \<Rightarrow> Inr kvs | _ \<Rightarrow> Inl (Contract_Error (context @ '' must be a mapping'')))"

definition required_text :: "(string \<times> json) list \<Rightarrow> string \<Rightarrow> string \<Rightarrow> string result" where
  "required_text kvs key context =
     (case map_of kvs key of
        Some (JString s) \<Rightarrow>
          if py_strip s = [] then Inl (Contract_Error (context @ ''.'' @ key @ '' must be a non-empty string'')) else Inr (py_strip s)
      | _ \<Rightarrow> Inl (Contract_Error (context @ ''.'' @ key @ '' must be a non-empty string'')))"

definition optional_positive_int :: "(string \<times> json) list \<Rightarrow> string \<Rightarrow> string \<Rightarrow> int option result" where
  "optional_positive_int kvs key context =
     (case map_of kvs key of
        None \<Rightarrow> Inr None
      | Some JNull \<Rightarrow> Inr None
      | Some (JInt n) \<Rightarrow>
          if n < 1 then Inl (Contract_Error (context @ ''.'' @ key @ '' must be a positive integer'')) else Inr (Some n)
      | _ \<Rightarrow> Inl (Contract_Error (context @ ''.'' @ key @ '' must be a positive integer'')))"

fun string_values :: "json list \<Rightarrow> string list option" where
  "string_values [] = Some []"
| "string_values (JString s # vs) =
     (if s = [] then None else map_option (\<lambda>r. s # r) (string_values vs))"
| "string_values (_ # vs) = None"

definition parse_allowed_values :: "(string \<times> json) list \<Rightarrow> string \<Rightarrow> string list result" where
  "parse_allowed_values field context =
     (case (case map_of field ''allowed_values'' of None \<Rightarrow> Some [] | Some (JArray vs) \<Rightarrow> string_values vs | Some _ \<Rightarrow> None) of
        Some xs \<Rightarrow> Inr xs
      | None \<Rightarrow> Inl (Contract_Error (context @ ''.allowed_values must be a string list'')))"

definition parse_pattern :: "text_env \<Rightarrow> (string \<times> json) list \<Rightarrow> string \<Rightarrow> string option result" where
  "parse_pattern T field context =
     (case map_of field ''pattern'' of
        None \<Rightarrow> Inr None
      | Some JNull \<Rightarrow> Inr None
      | Some (JString p) \<Rightarrow>
          if te_pattern_valid T p then Inr (Some p) else Inl (Contract_Error (context @ ''.pattern is not valid regex''))
      | Some _ \<Rightarrow> Inl (Contract_Error (context @ ''.pattern must be a string'')))"

definition is_true :: "(string \<times> json) list \<Rightarrow> string \<Rightarrow> bool" where
  "is_true kvs key \<longleftrightarrow> map_of kvs key = Some (JBool True)"

definition parse_field :: "text_env \<Rightarrow> json \<Rightarrow> nat \<Rightarrow> FieldContract result" where
  "parse_field T raw index =
     (let context = ''fields['' @ show_nat index @ '']'' in
      bindR (yaml_mapping (Some raw) context) (\<lambda>field.
      bindR (parse_allowed_values field context) (\<lambda>allowed.
      bindR (parse_pattern T field context) (\<lambda>pattern.
      bindR (required_text field ''name'' context) (\<lambda>name.
      bindR (required_text field ''type'' context) (\<lambda>data_type.
      bindR (optional_positive_int field ''precision'' context) (\<lambda>precision.
      bindR (optional_positive_int field ''scale'' context) (\<lambda>scale.
      bindR (optional_positive_int field ''max_length'' context) (\<lambda>max_length.
        Inr \<lparr>fc_name = name, fc_data_type = data_type, fc_required = is_true field ''required'',
             fc_nullable = is_true field ''nullable'', fc_precision = precision, fc_scale = scale, fc_pattern = pattern,
             fc_max_length = max_length, fc_allowed_values = allowed,
             fc_timezone_required = is_true field ''timezone_required''\<rparr>)))))))))"

fun parse_fields :: "text_env \<Rightarrow> json list \<Rightarrow> nat \<Rightarrow> FieldContract list result" where
  "parse_fields T [] i = Inr []"
| "parse_fields T (raw # rest) i =
     bindR (parse_field T raw i) (\<lambda>f. bindR (parse_fields T rest (Suc i)) (\<lambda>fs. Inr (f # fs)))"

definition parse_business_key :: "(string \<times> json) list \<Rightarrow> string list \<Rightarrow> string list result" where
  "parse_business_key file_config names =
     (let bad = Inl (Contract_Error ''file.business_key must reference declared fields'') in
      case map_of file_config ''business_key'' of
        Some (JArray vs) \<Rightarrow>
          (if list_all (\<lambda>v. case v of JString s \<Rightarrow> s \<in> set names | _ \<Rightarrow> False) vs
           then Inr (map (\<lambda>v. case v of JString s \<Rightarrow> s | _ \<Rightarrow> []) vs) else bad)
      | _ \<Rightarrow> bad)"

definition parse_naming_pattern :: "text_env \<Rightarrow> (string \<times> json) list \<Rightarrow> string result" where
  "parse_naming_pattern T file_config =
     bindR (required_text file_config ''naming_pattern'' ''file'') (\<lambda>p.
       if \<not> te_pattern_valid T p then Inl (Contract_Error ''file.naming_pattern is not valid regex'')
       else if \<not> {''partner_id'', ''settlement_date'', ''sequence''} \<subseteq> set (te_pattern_groups T p)
       then Inl (Contract_Error ''file.naming_pattern must define partner_id, settlement_date, sequence'')
       else Inr p)"

definition parse_delimiter :: "(string \<times> json) list \<Rightarrow> string result" where
  "parse_delimiter file_config =
     bindR (required_text file_config ''delimiter'' ''file'') (\<lambda>d.
       if py_len d \<noteq> 1 then Inl (Contract_Error ''file.delimiter must contain exactly one character'') else Inr d)"

definition contract_fields :: "text_env \<Rightarrow> (string \<times> json) list \<Rightarrow> FieldContract list result" where
  "contract_fields T doc =
     bindR (case map_of doc ''fields'' of
              Some (JArray vs) \<Rightarrow> if vs = [] then Inl (Contract_Error ''fields must be a non-empty list'') else parse_fields T vs 0
            | _ \<Rightarrow> Inl (Contract_Error ''fields must be a non-empty list''))
       (\<lambda>fs. if map fc_name fs \<noteq> REQUIRED_SETTLEMENT_FIELDS
             then Inl (Contract_Error (''Settlement fields must exactly match the ordered v1 field list: ''
                    @ join_with '', '' REQUIRED_SETTLEMENT_FIELDS))
             else if \<not> distinct (map fc_name fs) then Inl (Contract_Error ''Settlement field names must be unique'')
             else Inr fs)"

text \<open>What reading and parsing the contract file gives.\<close>

datatype contract_file = Missing_File | Unreadable_File | Document json

definition load_settlement_contract :: "text_env \<Rightarrow> string \<Rightarrow> contract_file \<Rightarrow> SettlementContract result" where
  "load_settlement_contract T path content =
     (case content of
        Missing_File \<Rightarrow> Inl (Contract_Error (''Settlement contract does not exist: '' @ path))
      | Unreadable_File \<Rightarrow> Inl (Contract_Error (''Settlement contract cannot be read: '' @ path))
      | Document payload \<Rightarrow>
          bindR (yaml_mapping (Some payload) ''contract'') (\<lambda>doc.
          bindR (yaml_mapping (map_of doc ''file'') ''file'') (\<lambda>file_config.
          bindR (contract_fields T doc) (\<lambda>fields.
          bindR (parse_business_key file_config (map fc_name fields)) (\<lambda>business_key.
          bindR (parse_delimiter file_config) (\<lambda>delimiter.
          bindR (parse_naming_pattern T file_config) (\<lambda>naming_pattern.
          bindR (required_text doc ''name'' ''contract'') (\<lambda>name.
          bindR (required_text doc ''schema_version'' ''contract'') (\<lambda>schema_version.
          bindR (required_text doc ''contract_version'' ''contract'') (\<lambda>contract_version.
          bindR (required_text doc ''owner'' ''contract'') (\<lambda>owner.
          bindR (required_text doc ''source_owner'' ''contract'') (\<lambda>source_owner.
          bindR (required_text doc ''classification'' ''contract'') (\<lambda>classification.
          bindR (required_text file_config ''encoding'' ''file'') (\<lambda>encoding.
          bindR (required_text file_config ''naming_convention'' ''file'') (\<lambda>naming_convention.
          bindR (required_text file_config ''timestamp_convention'' ''file'') (\<lambda>timestamp_convention.
          let C = \<lparr>sc_name = name, sc_schema_version = schema_version, sc_contract_version = contract_version,
                   sc_owner = owner, sc_source_owner = source_owner, sc_classification = classification,
                   sc_encoding = encoding, sc_delimiter = delimiter, sc_naming_convention = naming_convention,
                   sc_naming_pattern = naming_pattern, sc_timestamp_convention = timestamp_convention,
                   sc_business_key = business_key, sc_fields = fields\<rparr> in
          bindR (contract_field C ''internal_transaction_id'') (\<lambda>f.
            if \<not> fc_nullable f then Inl (Contract_Error ''internal_transaction_id must remain nullable in settlement-v1'')
            else bindR (allowed_statuses C) (\<lambda>statuses.
              if statuses = [] then Inl (Contract_Error ''settlement_status must declare allowed_values'') else Inr C))))))))))))))))))"

section \<open>File names\<close>

text \<open>\<open>Path(name).suffix\<close>.\<close>

definition path_suffix :: "string \<Rightarrow> string" where
  "path_suffix name =
     (let tail = takeWhile (\<lambda>c. c \<noteq> CHR ''.'') (rev name); stem = length name - length tail - 1 in
      if CHR ''.'' \<in> set name \<and> 0 < stem \<and> tail \<noteq> [] then CHR ''.'' # rev tail else [])"

text \<open>\<open>match.group(name)\<close>.\<close>

definition match_group :: "(string \<times> string) list \<Rightarrow> string \<Rightarrow> string result" where
  "match_group groups name = (case map_of groups name of Some v \<Rightarrow> Inr v | None \<Rightarrow> Inl (Index_Error ''no such group''))"

definition parse_settlement_filename :: "text_env \<Rightarrow> string \<Rightarrow> string \<Rightarrow> string \<Rightarrow> FilenameMetadata result" where
  "parse_settlement_filename T name naming_pattern expected_partner_id =
     (if path_suffix name \<noteq> ''.csv''
      then Inl (Discovery_Error ''INVALID_EXTENSION'' ''Settlement file extension must be .csv'')
      else (case te_fullmatch T naming_pattern name of
          None \<Rightarrow> Inl (Discovery_Error ''INVALID_FILE_NAME'' (''Invalid settlement file name: '' @ name))
        | Some groups \<Rightarrow>
            bindR (match_group groups ''partner_id'') (\<lambda>partner_id.
            if expected_partner_id \<noteq> [] \<and> partner_id \<noteq> expected_partner_id
            then Inl (Discovery_Error ''PARTNER_FILE_NAME_MISMATCH'' (''File partner '' @ partner_id
                   @ '' does not match expected partner '' @ expected_partner_id))
            else
              bindR (match_group groups ''settlement_date'') (\<lambda>d.
              case date_fromisoformat d of
                Inl _ \<Rightarrow> Inl (Discovery_Error ''INVALID_SETTLEMENT_DATE'' ''File name date is not valid'')
              | Inr date \<Rightarrow>
                  bindR (bindR (match_group groups ''sequence'') int_of_text) (\<lambda>sequence.
                  if sequence < 1
                  then Inl (Discovery_Error ''INVALID_FILE_SEQUENCE'' ''Settlement file sequence must be 001-999'')
                  else Inr \<lparr>fm_partner_id = partner_id, fm_settlement_date = date, fm_sequence = sequence, fm_file_name = name\<rparr>)))))"

definition FILE_ID_NAMESPACE :: nat where
  "FILE_ID_NAMESPACE = 46027387081763326864879200083623321366"

definition deterministic_file_id :: "string \<Rightarrow> string \<Rightarrow> string \<Rightarrow> string" where
  "deterministic_file_id source_name partner_id checksum =
     uuid_str (uuid5 FILE_ID_NAMESPACE (source_name @ '':'' @ partner_id @ '':'' @ checksum))"

section \<open>Validation of a file\<close>

definition text_of :: "raw_record \<Rightarrow> string \<Rightarrow> string" where
  "text_of raw name = (case map_of raw name of Some (Some v) \<Rightarrow> py_strip v | _ \<Rightarrow> [])"

text \<open>A parsed cell with the issues it raised; an empty cell has no value and no issue.\<close>

definition parse_date_cell :: "string \<Rightarrow> int option \<times> ValidationIssue list" where
  "parse_date_cell value =
     (if value = [] then (None, [])
      else (case date_fromisoformat value of
          Inr d \<Rightarrow> (Some d, [])
        | Inl _ \<Rightarrow> (None, [issue ''INVALID_SETTLEMENT_DATE'' ''settlement_date is not ISO date''])))"

definition parse_optional_uuid :: "string \<Rightarrow> nat option \<times> ValidationIssue list" where
  "parse_optional_uuid value =
     (if value = [] then (None, [])
      else (case uuid_of_text value of
          Inr u \<Rightarrow> (Some u, [])
        | Inl _ \<Rightarrow> (None, [issue ''INVALID_INTERNAL_TRANSACTION_ID'' ''internal_transaction_id is not UUID''])))"

definition parse_timestamp_cell :: "string \<Rightarrow> (instant option \<times> ValidationIssue list) result" where
  "parse_timestamp_cell value =
     (if value = [] then Inr (None, [])
      else (case datetime_fromisoformat (replace_zulu value) of
          Inl _ \<Rightarrow> Inr (None, [issue ''INVALID_TRANSACTION_TIMESTAMP'' ''transaction_timestamp is not ISO-8601''])
        | Inr (Naive _) \<Rightarrow> Inr (None, [issue ''TIMESTAMP_TIMEZONE_REQUIRED''
                                       ''transaction_timestamp must contain an explicit UTC offset''])
        | Inr (Aware local off) \<Rightarrow> bindR (astimezone_utc local off) (\<lambda>t. Inr (Some t, []))))"

definition parse_decimal_cell :: "string \<Rightarrow> FieldContract \<Rightarrow> string \<Rightarrow> (decimal option \<times> ValidationIssue list) result" where
  "parse_decimal_cell value f name =
     (if value = [] then Inr (None, [])
      else (case decimal_of_text value of
          None \<Rightarrow> Inr (None, [issue ''INVALID_DECIMAL'' (name @ '' is not a decimal'')])
        | Some None \<Rightarrow> Inr (None, [issue ''INVALID_DECIMAL'' (name @ '' must be finite'')])
        | Some (Some d) \<Rightarrow>
            (let scale = max (- dec_exp d) 0; precision = int (digit_count (dec_coeff d)) + max (dec_exp d) 0 in
             if (case fc_scale f of None \<Rightarrow> False | Some n \<Rightarrow> n < scale)
             then Inr (None, [issue ''DECIMAL_SCALE_EXCEEDED'' (name @ '' exceeds scale '' @ show_int (the (fc_scale f)))])
             else if (case fc_precision f of None \<Rightarrow> False | Some n \<Rightarrow> n < precision)
             then Inr (None, [issue ''DECIMAL_PRECISION_EXCEEDED'' (name @ '' exceeds precision '' @ show_int (the (fc_precision f)))])
             else (case quantize 2 d of None \<Rightarrow> Inl (Invalid_Operation []) | Some q \<Rightarrow> Inr (Some q, [])))))"

text \<open>The value of a quantized amount in hundredths.\<close>

definition cents :: "decimal \<Rightarrow> int" where
  "cents d = (if dec_neg d then - int (dec_coeff d) else int (dec_coeff d))"

text \<open>
  \<open>(amount - fee).quantize(CENT)\<close> of two quantized amounts; a difference of more than 28 digits is
  rounded by the subtraction and then refused by \<open>quantize\<close>.
\<close>

definition expected_net :: "decimal \<Rightarrow> decimal \<Rightarrow> int result" where
  "expected_net amount fee =
     (let d = cents amount - cents fee in
      if 28 < digit_count (nat \<bar>d\<bar>) then Inl (Invalid_Operation []) else Inr d)"

definition field_issues :: "raw_record \<Rightarrow> FieldContract \<Rightarrow> ValidationIssue list" where
  "field_issues raw f =
     (case map_of raw (fc_name f) of
        Some (Some v) \<Rightarrow>
          (if py_strip v = [] \<and> \<not> fc_nullable f
           then [issue ''REQUIRED_FIELD_EMPTY'' (fc_name f @ '' must not be empty'')] else [])
          @ (case fc_max_length f of
               Some n \<Rightarrow> if py_strip v \<noteq> [] \<and> n < int (py_len (py_strip v))
                         then [issue ''MAX_LENGTH_EXCEEDED'' (fc_name f @ '' exceeds maximum length'')] else []
             | None \<Rightarrow> [])
      | _ \<Rightarrow> if fc_required f then [issue ''REQUIRED_FIELD_MISSING'' (fc_name f @ '' column value is missing'')] else [])"

definition pattern_issues :: "text_env \<Rightarrow> SettlementContract \<Rightarrow> string \<Rightarrow> string \<Rightarrow> ValidationIssue \<Rightarrow> ValidationIssue list result" where
  "pattern_issues T C name value bad =
     (if value = [] then Inr []
      else bindR (contract_field C name) (\<lambda>f.
        Inr (if te_fullmatch T (case fc_pattern f of None \<Rightarrow> [] | Some p \<Rightarrow> p) value = None then [bad] else [])))"

definition status_issues :: "SettlementContract \<Rightarrow> string \<Rightarrow> ValidationIssue list result" where
  "status_issues C status =
     (if status = [] then Inr []
      else bindR (allowed_statuses C) (\<lambda>allowed.
        Inr (if status \<in> set allowed then []
             else [issue ''INVALID_SETTLEMENT_STATUS'' (''settlement_status must be one of '' @ join_with '', '' allowed)])))"

definition amount_issues :: "decimal option \<Rightarrow> ValidationIssue list" where
  "amount_issues amount = (case amount of None \<Rightarrow> [] | Some a \<Rightarrow>
     if cents a \<le> 0 then [issue ''AMOUNT_NOT_POSITIVE'' ''amount must be greater than zero''] else [])"

definition fee_issues :: "decimal option \<Rightarrow> ValidationIssue list" where
  "fee_issues fee = (case fee of None \<Rightarrow> [] | Some a \<Rightarrow>
     if cents a < 0 then [issue ''NEGATIVE_FEE_AMOUNT'' ''fee_amount must be zero or greater''] else [])"

definition net_issues :: "decimal option \<Rightarrow> decimal option \<Rightarrow> decimal option \<Rightarrow> ValidationIssue list result" where
  "net_issues amount fee net =
     (case (amount, fee, net) of
        (Some a, Some f, Some n) \<Rightarrow>
          bindR (expected_net a f) (\<lambda>d.
            Inr (if cents n = d then [] else [issue ''NET_AMOUNT_INCONSISTENT'' ''net_amount must equal amount minus fee_amount'']))
      | _ \<Rightarrow> Inr [])"

definition decimal_cell :: "SettlementContract \<Rightarrow> raw_record \<Rightarrow> string \<Rightarrow> (decimal option \<times> ValidationIssue list) result" where
  "decimal_cell C raw name = bindR (contract_field C name) (\<lambda>f. parse_decimal_cell (text_of raw name) f name)"

definition validate_row :: "text_env \<Rightarrow> SettlementContract \<Rightarrow> FilenameMetadata \<Rightarrow> raw_record \<Rightarrow> nat
    \<Rightarrow> (SettlementRecord option \<times> ValidationIssue list) result" where
  "validate_row T C fm raw row_number =
     (let partner_id = text_of raw ''partner_id''; reference = text_of raw ''settlement_reference'';
          partner_reference = text_of raw ''partner_transaction_reference''; currency = text_of raw ''currency'';
          status = text_of raw ''settlement_status'';
          i0 = concat (map (field_issues raw) (sc_fields C));
          (date, i3) = parse_date_cell (text_of raw ''settlement_date'');
          (internal_id, i5) = parse_optional_uuid (text_of raw ''internal_transaction_id'') in
      bindR (pattern_issues T C ''partner_id'' partner_id (issue ''INVALID_PARTNER_ID'' ''partner_id format is invalid'')) (\<lambda>i1.
      let i2 = (if partner_id \<noteq> [] \<and> partner_id \<noteq> fm_partner_id fm
                then [issue ''PARTNER_MISMATCH'' ''partner_id does not match the file name''] else []);
          i4 = (if date \<noteq> None \<and> date \<noteq> Some (fm_settlement_date fm)
                then [issue ''SETTLEMENT_DATE_MISMATCH'' ''settlement_date does not match file name''] else []) in
      bindR (parse_timestamp_cell (text_of raw ''transaction_timestamp'')) (\<lambda>(timestamp, i6).
      bindR (decimal_cell C raw ''amount'') (\<lambda>(amount, i7).
      bindR (pattern_issues T C ''currency'' currency (issue ''INVALID_CURRENCY'' ''currency must be three uppercase letters'')) (\<lambda>i8.
      bindR (status_issues C status) (\<lambda>i9.
      bindR (decimal_cell C raw ''fee_amount'') (\<lambda>(fee, i10).
      bindR (decimal_cell C raw ''net_amount'') (\<lambda>(net, i11).
      bindR (net_issues amount fee net) (\<lambda>i12.
      let issues = i0 @ i1 @ i2 @ i3 @ i4 @ i5 @ i6 @ i7 @ amount_issues amount @ i8 @ i9 @ i10 @ fee_issues fee @ i11 @ i12 in
      Inr (if issues \<noteq> [] \<or> partner_id = [] \<or> reference = [] \<or> partner_reference = [] \<or> currency = [] \<or> status = [] then None
           else (case (date, timestamp, amount, fee, net) of
               (Some d, Some t, Some a, Some f, Some n) \<Rightarrow>
                 Some \<lparr>st_partner_id = partner_id, st_settlement_date = d, st_settlement_reference = reference,
                       st_partner_transaction_reference = partner_reference, st_internal_transaction_id = internal_id,
                       st_transaction_timestamp = t, st_amount = a, st_currency = currency, st_settlement_status = status,
                       st_fee_amount = f, st_net_amount = n, st_source_row_number = row_number\<rparr>
             | _ \<Rightarrow> None),
           issues))))))))))"

text \<open>\<open>"|".join(dict.fromkeys(codes))\<close>: each code once, in order of appearance.\<close>

fun first_occurrences :: "string list \<Rightarrow> string list" where
  "first_occurrences [] = []"
| "first_occurrences (x # xs) = x # filter (\<lambda>y. y \<noteq> x) (first_occurrences xs)"

definition rejected_record :: "string \<Rightarrow> instant \<Rightarrow> string \<Rightarrow> nat \<Rightarrow> raw_record \<Rightarrow> ValidationIssue list \<Rightarrow> RejectedRecord" where
  "rejected_record file_name rejected_at run_id row_number raw issues =
     \<lparr>rr_source_file = file_name, rr_source_row_number = row_number, rr_raw_record = raw,
      rr_error_code = join_with ''|'' (first_occurrences (map vi_code issues)),
      rr_error_message = join_with ''; '' (map vi_message issues), rr_rejected_at = rejected_at, rr_ingestion_run_id = run_id\<rparr>"

text \<open>The loop over the rows, with the rows and references seen so far.\<close>

fun validate_rows :: "(raw_record \<Rightarrow> nat \<Rightarrow> (SettlementRecord option \<times> ValidationIssue list) result)
    \<Rightarrow> (nat \<Rightarrow> raw_record \<Rightarrow> ValidationIssue list \<Rightarrow> RejectedRecord) \<Rightarrow> raw_record list \<Rightarrow> string list \<Rightarrow> nat \<Rightarrow> raw_record list
    \<Rightarrow> (SettlementRecord list \<times> RejectedRecord list) result" where
  "validate_rows check reject seen_rows seen_refs n [] = Inr ([], [])"
| "validate_rows check reject seen_rows seen_refs n (raw # rest) =
     (let duplicate = raw \<in> set seen_rows; reference = text_of raw ''settlement_reference'';
          d1 = (if duplicate then [issue ''DUPLICATE_ROW'' ''Identical row already appeared in file''] else []);
          d2 = (if reference \<in> set seen_refs \<and> \<not> duplicate
                then [issue ''DUPLICATE_SETTLEMENT_REFERENCE'' ''settlement_reference must be unique within one file''] else []) in
      bindR (check raw n) (\<lambda>(rec, row_issues).
      bindR (validate_rows check reject (if duplicate then seen_rows else raw # seen_rows)
               (if reference = [] then seen_refs else reference # seen_refs) (Suc n) rest) (\<lambda>(acc, rej).
        let issues = d1 @ d2 @ row_issues in
        if issues \<noteq> [] then Inr (acc, reject n raw issues # rej)
        else Inr (case rec of None \<Rightarrow> (acc, rej) | Some r \<Rightarrow> (r # acc, rej)))))"

definition file_rejection :: "string \<Rightarrow> string \<Rightarrow> FileValidationResult" where
  "file_rejection code message =
     \<lparr>fv_file_issues = [issue code message], fv_accepted_records = [], fv_rejected_records = [], fv_record_count = 0\<rparr>"

definition validate_records :: "text_env \<Rightarrow> SettlementContract \<Rightarrow> FilenameMetadata \<Rightarrow> string \<Rightarrow> instant \<Rightarrow> string
    \<Rightarrow> string list list \<Rightarrow> FileValidationResult result" where
  "validate_records T C fm file_name rejected_at run_id rows =
     (let raws = map (dict_row (field_names C)) (filter (\<lambda>r. r \<noteq> []) rows) in
      if raws = [] then Inr (file_rejection ''EMPTY_FILE'' ''Settlement file has a header but no records'')
      else bindR (validate_rows (validate_row T C fm) (rejected_record file_name rejected_at run_id) [] [] 2 raws) (\<lambda>(acc, rej).
        Inr \<lparr>fv_file_issues = [], fv_accepted_records = acc, fv_rejected_records = rej, fv_record_count = length raws\<rparr>))"

text \<open>
  The file as it is read: the bytes, and the failure that ended the reading. It is decoded while the
  reader asks for lines, so a failure of the file or of the codec shows only when the lines before it
  are used up, and a wrong header is reported first.
\<close>

definition read_records :: "SettlementContract \<Rightarrow> text_stream \<Rightarrow> (FileValidationResult + string list list) result" where
  "read_records C source =
     (let delim = hd (sc_delimiter C); fault = snd source in
      bindR (csv_next delim fault csv_fresh (stream_lines source)) (\<lambda>header. case header of
        None \<Rightarrow> Inr (Inl (file_rejection ''EMPTY_FILE'' ''Settlement file has no header''))
      | Some (names, ls) \<Rightarrow>
          if names \<noteq> field_names C
          then Inr (Inl (file_rejection ''INVALID_FILE_SCHEMA'' ''CSV header must exactly match the ordered settlement-v1 field list''))
          else bindR (csv_rows delim fault csv_fresh ls) (\<lambda>rows. Inr (Inr rows))))"

definition decoded_file :: "text_env \<Rightarrow> SettlementContract \<Rightarrow> bytes \<times> exn option \<Rightarrow> text_stream" where
  "decoded_file T C file =
     (case te_decode T (sc_encoding C) (fst file) of (s, fault) \<Rightarrow> (s, if fault = None then snd file else fault))"

definition validate_settlement_file :: "text_env \<Rightarrow> SettlementContract \<Rightarrow> FilenameMetadata \<Rightarrow> string \<Rightarrow> instant \<Rightarrow> string
    \<Rightarrow> bytes \<times> exn option \<Rightarrow> FileValidationResult result" where
  "validate_settlement_file T C fm file_name rejected_at run_id file =
     (case read_records C (decoded_file T C file) of
        Inr (Inl rejection) \<Rightarrow> Inr rejection
      | Inr (Inr rows) \<Rightarrow> validate_records T C fm file_name rejected_at run_id rows
      | Inl (Unicode_Decode_Error _) \<Rightarrow> Inr (file_rejection ''INVALID_ENCODING'' (''File must use '' @ sc_encoding C @ '' encoding''))
      | Inl (OS_Error m) \<Rightarrow> Inr (file_rejection ''INVALID_CSV'' (''CSV cannot be parsed: '' @ m))
      | Inl (Csv_Error m) \<Rightarrow> Inr (file_rejection ''INVALID_CSV'' (''CSV cannot be parsed: '' @ m))
      | Inl e \<Rightarrow> Inl e)"

section \<open>Rows and records\<close>

text \<open>What an accepted record promises, for the file it came from.\<close>

definition record_valid :: "SettlementContract \<Rightarrow> FilenameMetadata \<Rightarrow> SettlementRecord \<Rightarrow> bool" where
  "record_valid C fm r \<longleftrightarrow>
     st_partner_id r = fm_partner_id fm \<and> st_settlement_date r = fm_settlement_date fm
     \<and> (\<exists>allowed. allowed_statuses C = Inr allowed \<and> st_settlement_status r \<in> set allowed)
     \<and> st_settlement_reference r \<noteq> [] \<and> st_partner_transaction_reference r \<noteq> [] \<and> st_currency r \<noteq> []
     \<and> (\<forall>d\<in>{st_amount r, st_fee_amount r, st_net_amount r}. dec_exp d = - 2)
     \<and> 0 < cents (st_amount r) \<and> 0 \<le> cents (st_fee_amount r)
     \<and> cents (st_net_amount r) = cents (st_amount r) - cents (st_fee_amount r)"

text \<open>A contract whose value fields may not be left out: the one the repository ships is of this kind.\<close>

definition values_required :: "SettlementContract \<Rightarrow> bool" where
  "values_required C \<longleftrightarrow> field_names C = REQUIRED_SETTLEMENT_FIELDS
     \<and> (\<forall>f\<in>set (sc_fields C). fc_name f \<noteq> ''internal_transaction_id'' \<longrightarrow> fc_required f \<and> \<not> fc_nullable f)"

lemma quantize_exp: "quantize n d = Some q \<Longrightarrow> dec_exp q = - int n"
  by (auto simp: quantize_def Let_def split: if_splits)

lemma parse_decimal_cell_cases:
  assumes "parse_decimal_cell v f name = Inr (d, is)"
  shows "is = [] \<and> (\<forall>q. d = Some q \<longrightarrow> dec_exp q = - 2) \<and> (d = None \<longrightarrow> v = []) \<or> is \<noteq> []"
  using assms quantize_exp [of 2]
  by (fastforce simp: parse_decimal_cell_def Let_def split: if_split_asm option.split_asm)

lemma parse_date_cell_none: "parse_date_cell v = (None, []) \<Longrightarrow> v = []"
  by (auto simp: parse_date_cell_def split: if_split_asm sum.split_asm)

lemma parse_timestamp_cell_none: "parse_timestamp_cell v = Inr (None, []) \<Longrightarrow> v = []"
  by (auto simp: parse_timestamp_cell_def bindR_eq_Inr split: if_split_asm sum.split_asm pydatetime.split_asm)

lemma decimal_cell_cases:
  assumes "decimal_cell C raw name = Inr (d, [])"
  shows "(\<forall>q. d = Some q \<longrightarrow> dec_exp q = - 2) \<and> (d = None \<longrightarrow> text_of raw name = [])"
  using assms parse_decimal_cell_cases by (fastforce simp: decimal_cell_def bindR_eq_Inr)

lemma status_issues_ok:
  assumes "status_issues C s = Inr []" "s \<noteq> []"
  shows "\<exists>allowed. allowed_statuses C = Inr allowed \<and> s \<in> set allowed"
  using assms by (auto simp: status_issues_def bindR_eq_Inr split: if_split_asm)

lemma net_issues_ok:
  assumes "net_issues (Some a) (Some f) (Some n) = Inr []"
  shows "cents n = cents a - cents f"
  using assms by (auto simp: net_issues_def expected_net_def bindR_eq_Inr Let_def split: if_split_asm)

lemma field_issues_present:
  assumes "field_issues raw f = []" "fc_required f" "\<not> fc_nullable f"
  shows "text_of raw (fc_name f) \<noteq> []"
  using assms by (auto simp: field_issues_def text_of_def split: option.split_asm if_split_asm)

lemma bindR_pairE:
  assumes "bindR m (\<lambda>(a, b). f a b) = Inr y"
  obtains a b where "m = Inr (a, b)" "f a b = Inr y"
  using assms by (auto simp: bindR_eq_Inr)

lemma validate_row_parts:
  assumes "validate_row T C fm raw n = Inr (rec, is)"
  obtains (parts) date i3 timestamp i6 amount i7 i9 fee i10 net i11 i12 internal_id i5 i1 i8 where
    "parse_date_cell (text_of raw ''settlement_date'') = (date, i3)"
    "parse_optional_uuid (text_of raw ''internal_transaction_id'') = (internal_id, i5)"
    "parse_timestamp_cell (text_of raw ''transaction_timestamp'') = Inr (timestamp, i6)"
    "decimal_cell C raw ''amount'' = Inr (amount, i7)"
    "status_issues C (text_of raw ''settlement_status'') = Inr i9"
    "decimal_cell C raw ''fee_amount'' = Inr (fee, i10)"
    "decimal_cell C raw ''net_amount'' = Inr (net, i11)"
    "net_issues amount fee net = Inr i12"
    "is = concat (map (field_issues raw) (sc_fields C)) @ i1
       @ (if text_of raw ''partner_id'' \<noteq> [] \<and> text_of raw ''partner_id'' \<noteq> fm_partner_id fm
          then [issue ''PARTNER_MISMATCH'' ''partner_id does not match the file name''] else [])
       @ i3 @ (if date \<noteq> None \<and> date \<noteq> Some (fm_settlement_date fm)
          then [issue ''SETTLEMENT_DATE_MISMATCH'' ''settlement_date does not match file name''] else [])
       @ i5 @ i6 @ i7 @ amount_issues amount @ i8 @ i9 @ i10 @ fee_issues fee @ i11 @ i12"
    "rec = (if is \<noteq> [] \<or> text_of raw ''partner_id'' = [] \<or> text_of raw ''settlement_reference'' = []
              \<or> text_of raw ''partner_transaction_reference'' = [] \<or> text_of raw ''currency'' = []
              \<or> text_of raw ''settlement_status'' = [] then None
           else (case (date, timestamp, amount, fee, net) of
               (Some d, Some t, Some a, Some f, Some m) \<Rightarrow>
                 Some \<lparr>st_partner_id = text_of raw ''partner_id'', st_settlement_date = d,
                       st_settlement_reference = text_of raw ''settlement_reference'',
                       st_partner_transaction_reference = text_of raw ''partner_transaction_reference'',
                       st_internal_transaction_id = internal_id, st_transaction_timestamp = t, st_amount = a,
                       st_currency = text_of raw ''currency'', st_settlement_status = text_of raw ''settlement_status'',
                       st_fee_amount = f, st_net_amount = m, st_source_row_number = n\<rparr>
             | _ \<Rightarrow> None))"
proof -
  obtain date i3 where d: "parse_date_cell (text_of raw ''settlement_date'') = (date, i3)"
    by (rule prod.exhaust)
  obtain internal_id i5 where u: "parse_optional_uuid (text_of raw ''internal_transaction_id'') = (internal_id, i5)"
    by (rule prod.exhaust)
  show thesis
    using assms unfolding validate_row_def Let_def d u prod.case
    by (elim bindR_pairE bindR_InrE) (rule that [OF d u], assumption+, (simp only: sum.inject prod.inject prod.case, elim conjE, hypsubst, rule refl)+)
qed

lemma validate_row_record:
  assumes "validate_row T C fm raw n = Inr (Some r, is)"
  shows "is = [] \<and> record_valid C fm r \<and> st_source_row_number r = n
         \<and> st_settlement_reference r = text_of raw ''settlement_reference''"
  using assms
proof (cases rule: validate_row_parts)
  case (parts date i3 timestamp i6 amount i7 i9 fee i10 net i11 i12 internal_id i5 i1 i8)
  have no: "is = []" using parts(10) by (auto split: if_split_asm)
  from parts(10) no obtain d t a f m where vals: "date = Some d" "timestamp = Some t" "amount = Some a" "fee = Some f" "net = Some m"
    by (auto split: if_split_asm option.split_asm)
  then show ?thesis
    using parts no decimal_cell_cases [of C raw "''amount''"] decimal_cell_cases [of C raw "''fee_amount''"]
      decimal_cell_cases [of C raw "''net_amount''"] status_issues_ok [of C "text_of raw ''settlement_status''"] net_issues_ok [of a f m]
    by (auto simp: record_valid_def amount_issues_def fee_issues_def split: if_split_asm)
qed

lemma required_value:
  assumes "values_required C" "concat (map (field_issues raw) (sc_fields C)) = []"
    "name \<in> set REQUIRED_SETTLEMENT_FIELDS" "name \<noteq> ''internal_transaction_id''"
  shows "text_of raw name \<noteq> []"
proof -
  have "name \<in> set (map fc_name (sc_fields C))"
    using assms(1,3) by (simp only: values_required_def field_names_def)
  then obtain f where f: "f \<in> set (sc_fields C)" "fc_name f = name" by auto
  then show ?thesis
    using assms field_issues_present [of raw f] by (auto simp: values_required_def)
qed

lemma validate_row_decides:
  assumes "values_required C" "validate_row T C fm raw n = Inr (rec, is)"
  shows "rec = None \<longleftrightarrow> is \<noteq> []"
  using assms(2)
proof (cases rule: validate_row_parts)
  case (parts date i3 timestamp i6 amount i7 i9 fee i10 net i11 i12 internal_id i5 i1 i8)
  show ?thesis
  proof (cases "is = []")
    case True
    note none = parts(9) [unfolded True, symmetric, unfolded append_is_Nil_conv]
    have texts: "\<forall>name\<in>set REQUIRED_SETTLEMENT_FIELDS - {''internal_transaction_id''}. text_of raw name \<noteq> []"
      using required_value [OF assms(1)] none by simp
    have "date \<noteq> None"
      using parts(1) none parse_date_cell_none [of "text_of raw ''settlement_date''"] texts by (auto simp: REQUIRED_SETTLEMENT_FIELDS_def)
    moreover have "timestamp \<noteq> None"
      using parts(3) none parse_timestamp_cell_none [of "text_of raw ''transaction_timestamp''"] texts by (auto simp: REQUIRED_SETTLEMENT_FIELDS_def)
    moreover have "amount \<noteq> None" "fee \<noteq> None" "net \<noteq> None"
      using parts(4,6,7) none texts decimal_cell_cases [of C raw "''amount''" amount]
        decimal_cell_cases [of C raw "''fee_amount''" fee] decimal_cell_cases [of C raw "''net_amount''" net]
      by (auto simp: REQUIRED_SETTLEMENT_FIELDS_def)
    ultimately show ?thesis using True parts(10) texts by (auto simp: REQUIRED_SETTLEMENT_FIELDS_def)
  qed (use parts(10) in simp)
qed

text \<open>The loop: every row number goes to exactly one side, references are accepted once.\<close>

lemma validate_rows_accounting:
  assumes "validate_rows check reject seen_rows seen_refs n raws = Inr (acc, rej)"
    and decides: "\<And>raw k rec iss. check raw k = Inr (rec, iss) \<Longrightarrow> (rec = None \<longleftrightarrow> iss \<noteq> [])"
    and valid: "\<And>raw k r iss. check raw k = Inr (Some r, iss) \<Longrightarrow>
        ok r \<and> st_source_row_number r = k \<and> st_settlement_reference r = text_of raw ''settlement_reference''"
    and reject: "\<And>k raw iss. rr_source_row_number (reject k raw iss) = k"
    and nonempty: "\<And>r. ok r \<Longrightarrow> st_settlement_reference r \<noteq> []"
  shows "(\<forall>r\<in>set acc. ok r \<and> st_settlement_reference r \<notin> set seen_refs)
    \<and> distinct (map st_settlement_reference acc)
    \<and> mset (map st_source_row_number acc) + mset (map rr_source_row_number rej) = mset [n..<n + length raws]
    \<and> sorted_wrt (<) (map st_source_row_number acc) \<and> (\<forall>r\<in>set acc. n \<le> st_source_row_number r)"
  using assms(1)
proof (induction raws arbitrary: seen_rows seen_refs n acc rej)
  case (Cons raw rest)
  let ?ref = "text_of raw ''settlement_reference''"
  from Cons.prems obtain rec iss acc1 rej1 where row: "check raw n = Inr (rec, iss)"
    and rest: "validate_rows check reject (if raw \<in> set seen_rows then seen_rows else raw # seen_rows)
        (if ?ref = [] then seen_refs else ?ref # seen_refs) (Suc n) rest = Inr (acc1, rej1)"
    and out: "(\<exists>j js. acc = acc1 \<and> rej = reject n raw (j # js) # rej1)
        \<or> ?ref \<notin> set seen_refs \<and> iss = [] \<and> (\<exists>r. rec = Some r \<and> acc = r # acc1 \<and> rej = rej1)"
    using decides [of raw n]
    by (fastforce simp: Let_def bindR_eq_Inr neq_Nil_conv split: if_split_asm prod.split_asm option.split_asm)
  note IH = Cons.IH [OF rest]
  have nums: "mset [n..<n + length (raw # rest)] = add_mset n (mset [Suc n..<Suc n + length rest])"
    by (simp add: upt_conv_Cons del: upt_Suc)
  from out show ?case
  proof (elim disjE exE conjE)
    fix j js assume "acc = acc1" "rej = reject n raw (j # js) # rej1"
    then show ?thesis using IH reject nums by (auto split: if_split_asm)
  next
    fix r assume "?ref \<notin> set seen_refs" "rec = Some r" "acc = r # acc1" "rej = rej1"
    then show ?thesis using IH valid [of raw n r iss] row nums nonempty [of r] by (auto split: if_split_asm)
  qed
qed simp

text \<open>What the result of a file promises: all its rows are accounted for and the accepted ones are valid.\<close>

definition file_accounted :: "SettlementContract \<Rightarrow> FilenameMetadata \<Rightarrow> FileValidationResult \<Rightarrow> bool" where
  "file_accounted C fm v \<longleftrightarrow>
     (if file_is_valid v
      then mset (map st_source_row_number (fv_accepted_records v)) + mset (map rr_source_row_number (fv_rejected_records v))
             = mset [2..<2 + fv_record_count v] \<and> 0 < fv_record_count v
        \<and> (\<forall>r\<in>set (fv_accepted_records v). record_valid C fm r)
        \<and> distinct (map st_settlement_reference (fv_accepted_records v))
        \<and> sorted_wrt (<) (map st_source_row_number (fv_accepted_records v))
      else fv_accepted_records v = [] \<and> fv_rejected_records v = [] \<and> fv_record_count v = 0)"

lemma file_accounted_rejection [simp]: "file_accounted C fm (file_rejection code message)"
  by (simp add: file_accounted_def file_is_valid_def file_rejection_def)

lemma validate_records_accounted:
  assumes "values_required C" "validate_records T C fm file_name rejected_at run_id rows = Inr v"
  shows "file_accounted C fm v"
proof -
  let ?raws = "map (dict_row (field_names C)) (filter (\<lambda>r. r \<noteq> []) rows)"
  consider "v = file_rejection ''EMPTY_FILE'' ''Settlement file has a header but no records''"
    | acc rej where "?raws \<noteq> []"
        "validate_rows (validate_row T C fm) (rejected_record file_name rejected_at run_id) [] [] 2 ?raws = Inr (acc, rej)"
        "v = \<lparr>fv_file_issues = [], fv_accepted_records = acc, fv_rejected_records = rej, fv_record_count = length ?raws\<rparr>"
    using assms(2) by (auto simp: validate_records_def Let_def bindR_eq_Inr split: if_split_asm)
  then show ?thesis
  proof cases
    case (2 acc rej)
    have "(\<forall>r\<in>set acc. record_valid C fm r \<and> st_settlement_reference r \<notin> set []) \<and> distinct (map st_settlement_reference acc)
       \<and> mset (map st_source_row_number acc) + mset (map rr_source_row_number rej) = mset [2..<2 + length ?raws]
       \<and> sorted_wrt (<) (map st_source_row_number acc) \<and> (\<forall>r\<in>set acc. 2 \<le> st_source_row_number r)"
      by (rule validate_rows_accounting [OF 2(2)])
         (auto dest: validate_row_decides [OF assms(1)] validate_row_record simp: rejected_record_def record_valid_def)
    with 2(1,3) show ?thesis by (simp add: file_accounted_def file_is_valid_def del: upt_Suc)
  qed simp
qed

lemma read_plain_file:
  assumes "sc_delimiter C = [delim]" "delim \<noteq> CHR 0x22" "\<not> is_newline delim"
    "plain_row delim (field_names C)" "\<forall>row\<in>set rows. plain_row delim row"
  shows "read_records C (concat (map (csv_text delim) (field_names C # rows)), None) = Inr (Inr rows)"
proof -
  let ?all = "field_names C # rows"
  have "stream_lines (concat (map (csv_text delim) ?all), None) = map (csv_text delim) ?all"
    using assms py_lines_plain [of ?all delim] by (simp add: stream_lines_def)
  moreover have "csv_next delim None csv_fresh (map (csv_text delim) ?all) = Inr (Some (field_names C, map (csv_text delim) rows))"
    using assms csv_rows_plain(2) [of ?all delim] by simp
  ultimately show ?thesis
    using assms csv_rows_plain(1) [of rows delim] by (simp add: read_records_def Let_def)
qed

text \<open>
  A concrete run: the shipped field list with every pattern accepted, and a file of two rows, the
  second of which has a wrong net amount.
\<close>

definition sample_field :: "string \<Rightarrow> FieldContract" where
  "sample_field name = \<lparr>fc_name = name, fc_data_type = ''string'', fc_required = True,
     fc_nullable = (name = ''internal_transaction_id''), fc_precision = Some 18, fc_scale = Some 2, fc_pattern = None,
     fc_max_length = None, fc_allowed_values = [''SETTLED''], fc_timezone_required = False\<rparr>"

definition sample_contract :: SettlementContract where
  "sample_contract = \<lparr>sc_name = ''settlement'', sc_schema_version = ''v1'', sc_contract_version = ''1'', sc_owner = ''o'',
     sc_source_owner = ''s'', sc_classification = ''c'', sc_encoding = ''utf-8'', sc_delimiter = '','', sc_naming_convention = ''n'',
     sc_naming_pattern = ''p'', sc_timestamp_convention = ''t'', sc_business_key = [],
     sc_fields = map sample_field REQUIRED_SETTLEMENT_FIELDS\<rparr>"

definition sample_text_env :: text_env where
  "sample_text_env = \<lparr>te_pattern_valid = (\<lambda>_. True), te_pattern_groups = (\<lambda>_. []), te_fullmatch = (\<lambda>_ _. Some []),
     te_decode = (\<lambda>_ b. (b, None))\<rparr>"

definition sample_rows :: "string list list" where
  "sample_rows =
     [[''P1'', ''2026-01-02'', ''R1'', ''T1'', [], ''2026-01-02T10:00:00Z'', ''10.50'', ''USD'', ''SETTLED'', ''0.50'', ''10.00''],
      [''P1'', ''2026-01-02'', ''R2'', ''T2'', [], ''2026-01-02T10:00:00Z'', ''10.50'', ''USD'', ''SETTLED'', ''0.50'', ''9.00'']]"

definition sample_name :: FilenameMetadata where
  "sample_name = \<lparr>fm_partner_id = ''P1'', fm_settlement_date = 20455, fm_sequence = 1, fm_file_name = ''f.csv''\<rparr>"

lemma sample_rows_checked:
  "case validate_records sample_text_env sample_contract sample_name ''f.csv'' 0 ''run'' sample_rows of
     Inr v \<Rightarrow> map st_source_row_number (fv_accepted_records v) = [2] \<and> map rr_source_row_number (fv_rejected_records v) = [3]
   | Inl _ \<Rightarrow> False"
  by code_simp

definition sample_file :: bytes where
  "sample_file = concat (map (csv_text (CHR '','')) (REQUIRED_SETTLEMENT_FIELDS # sample_rows))"

lemma plain_rowI:
  assumes "cells \<noteq> []" "cells \<noteq> [[]]"
    "list_all (\<lambda>s. length s \<le> 100 \<and> list_all (\<lambda>c. c \<noteq> delim \<and> c \<noteq> CHR 0x22 \<and> \<not> is_newline c) s) cells"
  shows "plain_row delim cells"
proof -
  have "py_len s \<le> 131072" if "length s \<le> 100" for s
    unfolding py_len_def by (rule order_trans [OF length_filter_le]) (use that in simp)
  then show ?thesis using assms by (auto simp: plain_row_def plain_cell_def list_all_iff)
qed

lemma sample_plain: "\<forall>row\<in>set (REQUIRED_SETTLEMENT_FIELDS # sample_rows). plain_row (CHR '','') row"
proof -
  have "list_all (list_all (\<lambda>s. length s \<le> 100 \<and> list_all (\<lambda>c. c \<noteq> CHR '','' \<and> c \<noteq> CHR 0x22 \<and> \<not> is_newline c) s))
      (REQUIRED_SETTLEMENT_FIELDS # sample_rows)"
    by code_simp
  then show ?thesis
    by (auto simp: list_all_iff REQUIRED_SETTLEMENT_FIELDS_def sample_rows_def intro!: plain_rowI)
qed

lemma sample_contract_facts:
  "field_names sample_contract = REQUIRED_SETTLEMENT_FIELDS" "sc_delimiter sample_contract = '',''"
  "values_required sample_contract"
  by (auto simp: values_required_def field_names_def sample_contract_def sample_field_def o_def)

lemma sample_read: "read_records sample_contract (sample_file, None) = Inr (Inr sample_rows)"
  using read_plain_file [of sample_contract "CHR '',''" sample_rows] sample_plain
  by (simp add: sample_contract_facts sample_file_def is_newline_def)



text \<open>
  C33. Reading back a settlement file. A file written from plain cells (no delimiter, quote or line
  break in a cell) under the header of the contract is read as exactly those rows.
\<close>

theorem settlement_file_round_trip:
  assumes "sc_delimiter C = [delim]" "delim \<noteq> CHR 0x22" "\<not> is_newline delim"
    "plain_row delim (field_names C)" "\<forall>row\<in>set rows. plain_row delim row"
  shows "read_records C (concat (map (csv_text delim) (field_names C # rows)), None) = Inr (Inr rows)"
  by (rule read_plain_file [OF assms])

theorem settlement_file_round_trip_witness:
  "read_records sample_contract (concat (map (csv_text (CHR '','')) (field_names sample_contract # sample_rows)), None)
     = Inr (Inr sample_rows)"
  using sample_plain by (intro settlement_file_round_trip) (auto simp: sample_contract_facts is_newline_def)

end
