(* ===== verification/Silver_Processor.thy ===== *)
theory Silver_Processor
  imports Silver_Discovery Silver_Manifest Batch_Validation
begin

text \<open>
  \<open>processing/silver/settlement_normalizer.py\<close> and \<open>processing/silver/processor.py\<close>: one run of the
  Bronze-to-Silver pipeline over the processing manifest and the object store. The world of a run is
  the two of them; every SQLite call and every storage call may fail, so a run whose calls fail from
  some point on has the effects of a crash at that point. The time and the run id of a run are
  arguments, the values its clock and its id factory return. Temporary files are private to a run:
  writing one and reading it back is a parameter (\<open>sx_spool\<close>), their removal is not modelled.
\<close>

section \<open>Normalization of settlement files\<close>

definition path_partition :: "string \<Rightarrow> string \<Rightarrow> string" where
  "path_partition object_key name = (case partition_value object_key name of None \<Rightarrow> ''UNKNOWN'' | Some v \<Rightarrow> v)"

definition settlement_quality_code :: "string \<Rightarrow> QualityCode" where
  "settlement_quality_code codes =
     (if contains ''DECIMAL'' codes \<or> contains ''AMOUNT'' codes then INVALID_DECIMAL
      else if contains ''TIMESTAMP'' codes \<or> contains ''DATE'' codes then INVALID_TIMESTAMP
      else if contains ''INTERNAL_TRANSACTION_ID'' codes then INVALID_REFERENCE
      else INVALID_BRONZE_SCHEMA)"

text \<open>\<open>metadata.get(name) or fallback\<close>.\<close>

definition metadata_or :: "InputObject \<Rightarrow> string \<Rightarrow> string \<Rightarrow> string" where
  "metadata_or input name fallback =
     (case map_of (io_metadata input) name of None \<Rightarrow> fallback | Some v \<Rightarrow> if v = [] then fallback else v)"

definition settlement_rejection :: "InputObject \<Rightarrow> string \<Rightarrow> instant \<Rightarrow> string option \<Rightarrow> QualityCode \<Rightarrow> string \<Rightarrow> string
    \<Rightarrow> QualityRejection" where
  "settlement_rejection input run_id t reference code message raw_reference =
     quality_rejection (io_uri input) reference ''settlements'' reference code message raw_reference run_id t"

definition raw_reference_of :: "RejectedRecord \<Rightarrow> string option" where
  "raw_reference_of r = (case map_of (rr_raw_record r) ''settlement_reference'' of None \<Rightarrow> None | Some v \<Rightarrow> v)"

definition settlement_row :: "InputObject \<Rightarrow> string \<Rightarrow> string \<Rightarrow> instant \<Rightarrow> SettlementRecord \<Rightarrow> pyrow" where
  "settlement_row input file_name run_id t r =
     [(''partner_id'', PStr (st_partner_id r)), (''settlement_date'', PDate (st_settlement_date r)),
      (''settlement_reference'', PStr (st_settlement_reference r)),
      (''partner_transaction_reference'', PStr (st_partner_transaction_reference r)),
      (''internal_transaction_id'', case st_internal_transaction_id r of None \<Rightarrow> PNone | Some u \<Rightarrow> PStr (uuid_str u)),
      (''transaction_timestamp'', PTime (st_transaction_timestamp r)), (''amount'', PDecimal (st_amount r)),
      (''currency'', PStr (st_currency r)), (''settlement_status'', PStr (st_settlement_status r)),
      (''fee_amount'', PDecimal (st_fee_amount r)), (''net_amount'', PDecimal (st_net_amount r)),
      (''source_file_name'', PStr file_name), (''source_checksum'', PStr (io_checksum_sha256 input)),
      (''source_row_number'', PInt (int (st_source_row_number r))),
      (''ingestion_run_id'', case map_of (io_metadata input) ''ingestion_run_id'' of None \<Rightarrow> PNone | Some v \<Rightarrow> PStr v),
      (''processing_run_id'', PStr run_id), (''processed_at'', PTime t)]"

definition settlement_quality :: "InputObject \<Rightarrow> string \<Rightarrow> string \<Rightarrow> instant \<Rightarrow> FileValidationResult \<Rightarrow> QualityRejection list" where
  "settlement_quality input file_name run_id t v =
     map (\<lambda>i. settlement_rejection input run_id t None INVALID_BRONZE_SCHEMA (vi_code i @ '': '' @ vi_message i) (''file:'' @ file_name))
       (fv_file_issues v)
     @ map (\<lambda>r. settlement_rejection input run_id t (raw_reference_of r) (settlement_quality_code (rr_error_code r))
              (rr_error_message r) (''row:'' @ show_nat (rr_source_row_number r)))
       (fv_rejected_records v)"

definition normalize_settlement_bytes :: "text_env \<Rightarrow> (string \<Rightarrow> bytes \<Rightarrow> (bytes \<times> exn option) result) \<Rightarrow> bytes \<Rightarrow> InputObject
    \<Rightarrow> SettlementContract \<Rightarrow> string \<Rightarrow> instant \<Rightarrow> (pyrow list \<times> QualityRejection list \<times> int \<times> string) result" where
  "normalize_settlement_bytes T spool payload input C run_id t =
     (let file_name = metadata_or input ''source_file_name'' (path_name (io_object_key input));
          partner_id = metadata_or input ''partner_id'' (path_partition (io_object_key input) ''partner_id'');
          name = path_name file_name in
      bindR (spool name payload) (\<lambda>source.
      case parse_settlement_filename T name (sc_naming_pattern C) partner_id of
        Inl (Discovery_Error _ m) \<Rightarrow>
          Inr ([], [settlement_rejection input run_id t None INVALID_BRONZE_SCHEMA m (''file:'' @ file_name)], 0, partner_id)
      | Inl e \<Rightarrow> Inl e
      | Inr fm \<Rightarrow>
          bindR (validate_settlement_file T C fm name t
                   (case map_of (io_metadata input) ''ingestion_run_id'' of None \<Rightarrow> ''unknown'' | Some v \<Rightarrow> v) source) (\<lambda>v.
            Inr (map (settlement_row input file_name run_id t) (fv_accepted_records v),
                 settlement_quality input file_name run_id t v, int (fv_record_count v), partner_id))))"

section \<open>The processor\<close>

type_synonym 's silver_world = "(silver_db, 's) job_world"

record 's SilverProcessor =
  sx_settings :: SilverSettings
  sx_reader :: "'s storage_backend"
  sx_storage :: "'s SilverStorage"
  sx_repr :: "pyval \<Rightarrow> string"
  sx_text :: text_env
  sx_contract :: contract_file
  sx_spool :: "string \<Rightarrow> bytes \<Rightarrow> (bytes \<times> exn option) result"

definition CDC_PIPELINE :: string where "CDC_PIPELINE = ''cdc-bronze-to-silver''"

definition SETTLEMENT_PIPELINE :: string where "SETTLEMENT_PIPELINE = ''settlement-bronze-to-silver''"

definition entity_from_key :: "string \<Rightarrow> string" where
  "entity_from_key object_key = (case partition_value object_key ''entity'' of None \<Rightarrow> ''unknown'' | Some e \<Rightarrow> e)"

definition date_from_key :: "string \<Rightarrow> string \<Rightarrow> int \<Rightarrow> int" where
  "date_from_key object_key name fallback =
     (case partition_value object_key name of
        None \<Rightarrow> fallback
      | Some v \<Rightarrow> (case date_fromisoformat v of Inl _ \<Rightarrow> fallback | Inr d \<Rightarrow> d))"

definition processing_result :: "ProcessingRun \<Rightarrow> ProcessingResult" where
  "processing_result r = \<lparr>ps_run_id = Some (pr_run_id r), ps_input_object_uri = pr_input_object_uri r, ps_status = pr_status r,
     ps_entity_name = pr_entity_name r, ps_input_record_count = pr_input_record_count r,
     ps_output_record_count = pr_output_record_count r, ps_rejected_record_count = pr_rejected_record_count r,
     ps_output_object_uris = pr_output_object_uris r, ps_skipped = False, ps_dry_run = False,
     ps_error_code = pr_error_code r, ps_error_message = pr_error_message r\<rparr>"

definition skipped_result :: "ProcessingRun \<Rightarrow> ProcessingResult" where
  "skipped_result r = (processing_result r)\<lparr>ps_skipped := True, ps_error_code := None, ps_error_message := None\<rparr>"

definition dry_result :: "InputObject \<Rightarrow> string \<Rightarrow> int \<Rightarrow> int \<Rightarrow> int \<Rightarrow> ProcessingResult" where
  "dry_result input entity input_count output_count rejected_count =
     \<lparr>ps_run_id = None, ps_input_object_uri = io_uri input, ps_status = COMPLETED, ps_entity_name = entity,
      ps_input_record_count = input_count, ps_output_record_count = output_count,
      ps_rejected_record_count = rejected_count, ps_output_object_uris = [], ps_skipped = False, ps_dry_run = True,
      ps_error_code = None, ps_error_message = None\<rparr>"

text \<open>\<open>vars_from_slots\<close> of the two evidence records.\<close>

definition option_value :: "string option \<Rightarrow> pyval" where
  "option_value v = (case v of None \<Rightarrow> PNone | Some s \<Rightarrow> PStr s)"

definition rejection_row :: "QualityRejection \<Rightarrow> pyrow" where
  "rejection_row q =
     [(''source_object_uri'', PStr (qr_source_object_uri q)), (''source_event_id'', option_value (qr_source_event_id q)),
      (''entity_name'', PStr (qr_entity_name q)), (''business_key'', option_value (qr_business_key q)),
      (''error_code'', PStr (qr_error_code q)), (''error_message'', PStr (qr_error_message q)),
      (''raw_reference'', PStr (qr_raw_reference q)), (''processing_run_id'', PStr (qr_processing_run_id q)),
      (''rejected_at'', PTime (qr_rejected_at q))]"

definition unresolved_row :: "UnresolvedReference \<Rightarrow> pyrow" where
  "unresolved_row u =
     [(''entity_name'', PStr (ur_entity_name u)), (''business_key'', PStr (ur_business_key u)),
      (''reference_entity'', PStr (ur_reference_entity u)), (''reference_key'', PStr (ur_reference_key u)),
      (''reference_field'', PStr (ur_reference_field u)), (''classification'', PStr (ur_classification u)),
      (''source_event_id'', PStr (ur_source_event_id u)), (''processing_run_id'', PStr (ur_processing_run_id u)),
      (''observed_at'', PTime (ur_observed_at u))]"

text \<open>One run: its processor, input, id and time.\<close>

record 's silver_job =
  jb_processor :: "'s SilverProcessor"
  jb_input :: InputObject
  jb_run_id :: string
  jb_now :: instant

definition write_rows :: "'s silver_job \<Rightarrow> pyrow list \<Rightarrow> arrow_schema \<Rightarrow> OutputType \<Rightarrow> string \<Rightarrow> string option \<Rightarrow> string option
    \<Rightarrow> string option \<Rightarrow> ('s silver_world, SilverOutput) eff" where
  "write_rows J rows schema ot entity event_date partner_id settlement_date =
     (let P = jb_processor J; S = sx_storage P; X = sx_settings P in
      bindE (liftE (serialize_rows (sl_parquet S) rows schema)) (\<lambda>ser.
        on_objects (silver_put S ser
          (build_silver_object_key ot entity (jb_run_id J) (iso_date (jb_now J)) event_date partner_id settlement_date)
          ot (after_colon entity) (jb_run_id J) (io_checksum_sha256 (jb_input J)) (sv_code_version X)
          (if ot \<noteq> SETTLEMENTS then sv_supported_bronze_schema X else ''settlement-v1'')
          (sv_silver_schema_version X) (jb_now J))))"

definition write_rejections :: "'s silver_job \<Rightarrow> QualityRejection list \<Rightarrow> string \<Rightarrow> ('s silver_world, SilverOutput) eff" where
  "write_rejections J rows entity =
     write_rows J (map rejection_row rows) REJECTION_SCHEMA REJECTIONS (''bronze:'' @ entity) None None None"

definition load_latest_state :: "'s silver_job \<Rightarrow> string \<Rightarrow> string option \<Rightarrow> ('s silver_world, pyrow list) eff" where
  "load_latest_state J entity exclude =
     bindE (on_table (latest_output entity LATEST_ALL exclude)) (\<lambda>output. case output of
       None \<Rightarrow> returnE []
     | Some x \<Rightarrow> bindE (liftE (entity_schema entity)) (\<lambda>schema.
         on_objects (silver_read_table (sx_storage (jb_processor J)) (out_object_uri x) (Some schema))))"

text \<open>\<open>{str(row[key]) for row in rows if row.get(key)}\<close>.\<close>

definition row_keys :: "(pyval \<Rightarrow> string) \<Rightarrow> string \<Rightarrow> pyrow list \<Rightarrow> string list" where
  "row_keys repr key_name rows =
     remdups (map (\<lambda>row. pyval_text repr (row_get row key_name)) (filter (\<lambda>row. truthy (row_get row key_name)) rows))"

fun known_keys_from :: "'s silver_job \<Rightarrow> (string \<times> string) list \<Rightarrow> known_keys \<Rightarrow> ('s silver_world, known_keys) eff" where
  "known_keys_from J [] ks = returnE ks"
| "known_keys_from J ((entity, key_name) # rest) ks =
     (if entity = ''transaction_events'' then known_keys_from J rest ks
      else bindE (on_table (latest_output entity CURRENT None)) (\<lambda>output. case output of
          None \<Rightarrow> known_keys_from J rest ks
        | Some x \<Rightarrow>
            bindE (liftE (entity_schema entity)) (\<lambda>schema.
            bindE (on_objects (silver_read_table (sx_storage (jb_processor J)) (out_object_uri x) (Some schema))) (\<lambda>rows.
              known_keys_from J rest (AList.update entity (row_keys (sx_repr (jb_processor J)) key_name rows) ks)))))"

definition known_reference_keys :: "'s silver_job \<Rightarrow> ('s silver_world, known_keys) eff" where
  "known_reference_keys J = known_keys_from J BUSINESS_KEYS []"

text \<open>A list of writes, in order, with their outputs.\<close>

fun write_all :: "('w, SilverOutput) eff list \<Rightarrow> ('w, SilverOutput list) eff" where
  "write_all [] = returnE []"
| "write_all (m # ms) = bindE m (\<lambda>x. bindE (write_all ms) (\<lambda>xs. returnE (x # xs)))"

definition entity_write :: "'s silver_job \<Rightarrow> string \<Rightarrow> pyrow list \<Rightarrow> OutputType \<Rightarrow> string option \<Rightarrow> ('s silver_world, SilverOutput) eff" where
  "entity_write J entity rows ot event_date =
     bindE (liftE (entity_schema entity)) (\<lambda>schema. write_rows J rows schema ot entity event_date None None)"

text \<open>The writes of a CDC run: history, then events or state, then rejections and unresolved references.\<close>

definition cdc_writes :: "'s silver_job \<Rightarrow> string \<Rightarrow> NormalizedCdcEvent list \<Rightarrow> silver_fold
    \<Rightarrow> ('s silver_world, SilverOutput) eff list" where
  "cdc_writes J entity events sf =
     (let event_date = Some (case events of [] \<Rightarrow> iso_date (jb_now J) | e # _ \<Rightarrow> iso_date (ne_event_time e));
          latest = latest_rows (sf_state sf) in
      (if events \<noteq> [] then [write_rows J (map history_row events) HISTORY_SCHEMA HISTORY entity event_date None None] else [])
      @ (if entity = ''transaction_events''
         then (if sf_event_rows sf \<noteq> [] then [entity_write J entity (sf_event_rows sf) EVENTS event_date] else [])
         else [bindE (liftE (current_rows latest)) (\<lambda>_. entity_write J entity latest LATEST_ALL None),
               bindE (liftE (current_rows latest)) (\<lambda>rows. entity_write J entity rows CURRENT None)])
      @ (if sf_rejections sf \<noteq> [] then [write_rejections J (sf_rejections sf) entity] else [])
      @ (if sf_unresolved sf \<noteq> []
         then [write_rows J (map unresolved_row (sf_unresolved sf)) UNRESOLVED_REFERENCE_SCHEMA UNRESOLVED_REFERENCES entity
                 None None None] else []))"

text \<open>The outputs and the rejections, to which the run appends.\<close>

definition transform_and_write_cdc :: "'s silver_job \<Rightarrow> string \<Rightarrow> NormalizedCdcEvent list \<Rightarrow> QualityRejection list \<Rightarrow> bool
    \<Rightarrow> ('s silver_world, SilverOutput list \<times> QualityRejection list) eff" where
  "transform_and_write_cdc J entity events rejections force_reprocess =
     (let repr = sx_repr (jb_processor J) in
      bindE (load_latest_state J entity (if force_reprocess then Some (io_checksum_sha256 (jb_input J)) else None)) (\<lambda>prior.
      bindE (liftE (prior_state_of repr entity prior)) (\<lambda>state.
      bindE (known_reference_keys J) (\<lambda>ks.
      bindE (liftE (apply_events repr (jb_input J) entity (jb_now J) (sort_key event_order_key events)
               \<lparr>sf_state = state, sf_event_rows = [], sf_unresolved = [], sf_rejections = rejections, sf_known = ks\<rparr>)) (\<lambda>sf.
      seqE (on_table (mark_writing (jb_run_id J)))
        (bindE (write_all (cdc_writes J entity events sf)) (\<lambda>outputs. returnE (outputs, sf_rejections sf))))))))"

definition existing_run :: "'s silver_job \<Rightarrow> string \<Rightarrow> ('s silver_world, ProcessingRun option) eff" where
  "existing_run J pipeline =
     (let X = sx_settings (jb_processor J) in
      on_table (find_latest_identity pipeline (io_checksum_sha256 (jb_input J)) (sv_code_version X) (sv_silver_schema_version X)))"

definition register_job :: "'s silver_job \<Rightarrow> string \<Rightarrow> SourceType \<Rightarrow> string \<Rightarrow> ('s silver_world, ProcessingRun) eff" where
  "register_job J pipeline source entity =
     (let X = sx_settings (jb_processor J); i = jb_input J in
      on_table (register_run (new_run (jb_run_id J) pipeline source entity (io_uri i) (io_checksum_sha256 i)
        (sv_code_version X) (sv_silver_schema_version X) (jb_now J))))"

definition read_job_cdc :: "'s silver_job \<Rightarrow> ('s silver_world, pyrow list) eff" where
  "read_job_cdc J =
     (let P = jb_processor J in
      on_objects (read_cdc (sx_reader P) (sl_parquet (sx_storage P)) (jb_input J) (sv_supported_bronze_schema (sx_settings P))))"

definition normalize_job_cdc :: "'s silver_job \<Rightarrow> pyrow list \<Rightarrow> (NormalizedCdcEvent list \<times> QualityRejection list) result" where
  "normalize_job_cdc J rows =
     normalize_cdc_table (sx_repr (jb_processor J)) rows (jb_input J) (jb_run_id J) (jb_now J)
       (sv_silver_schema_version (sx_settings (jb_processor J)))"

definition duplicate_rejection :: "'s silver_job \<Rightarrow> NormalizedCdcEvent \<times> QualityCode \<Rightarrow> QualityRejection" where
  "duplicate_rejection J d = (case d of (e, code) \<Rightarrow>
     quality_rejection (io_uri (jb_input J)) (Some (ne_event_id e)) (ne_entity_name e) (Some (ne_business_key e)) code
       ''Duplicate CDC identity was excluded from Silver outputs'' (event_reference e) (jb_run_id J) (jb_now J))"

definition outputs_count :: "SilverOutput list \<Rightarrow> int" where
  "outputs_count outputs = sum_list (map out_record_count (filter (\<lambda>x. out_type x \<noteq> REJECTIONS) outputs))"

text \<open>The \<open>try\<close> block of \<open>process_cdc\<close>.\<close>

definition cdc_body :: "'s silver_job \<Rightarrow> string \<Rightarrow> bool \<Rightarrow> ('s silver_world, ProcessingResult) eff" where
  "cdc_body J entity force_reprocess =
     (let i = jb_run_id J in
      seqE (on_table (mark_reading i))
      (bindE (read_job_cdc J) (\<lambda>rows.
       seqE (on_table (mark_validating i (int (length rows))))
       (bindE (liftE (normalize_job_cdc J rows)) (\<lambda>(events, rejections).
        let (accepted, duplicates) = deduplicate_events events in
        seqE (on_table (mark_transforming i))
        (bindE (transform_and_write_cdc J entity accepted (rejections @ map (duplicate_rejection J) duplicates) force_reprocess)
          (\<lambda>(outputs, rejected).
             bindE (on_table (mark_completed i outputs (outputs_count outputs) (int (length rejected)) (jb_now J)))
               (\<lambda>run. returnE (processing_result run)))))))))"

definition fail_job :: "'s silver_job \<Rightarrow> exn \<Rightarrow> ('s silver_world, ProcessingResult) eff" where
  "fail_job J e =
     bindE (on_table (mark_run_failed (jb_run_id J) (exn_name e) (exn_message e))) (\<lambda>run. returnE (processing_result run))"

text \<open>The \<open>except BronzeReadError\<close> clause: an unreadable input is quarantined.\<close>

definition quarantine_job :: "'s silver_job \<Rightarrow> string \<Rightarrow> string \<Rightarrow> ('s silver_world, ProcessingResult) eff" where
  "quarantine_job J code message =
     bindE (on_table (get_run (jb_run_id J))) (\<lambda>current.
       if \<exists>r. current = Some r \<and> pr_status r \<in> {READING, ProcessingStatus.VALIDATING}
       then bindE (on_table (mark_quarantined (jb_run_id J) code message 1 (jb_now J))) (\<lambda>run. returnE (processing_result run))
       else raiseE (Bronze_Read_Error code message))"

definition dry_run_cdc :: "'s silver_job \<Rightarrow> string \<Rightarrow> ('s silver_world, ProcessingResult) eff" where
  "dry_run_cdc J entity =
     bindE (read_job_cdc J) (\<lambda>rows.
     bindE (liftE (normalize_job_cdc J rows)) (\<lambda>(events, rejected).
       let (accepted, duplicates) = deduplicate_events events in
       returnE (dry_result (jb_input J) entity (int (length rows)) (int (length accepted))
         (int (length rejected) + int (length duplicates)))))"

definition process_cdc :: "'s silver_job \<Rightarrow> bool \<Rightarrow> bool \<Rightarrow> ('s silver_world, ProcessingResult) eff" where
  "process_cdc J force_reprocess dry_run =
     bindE (existing_run J CDC_PIPELINE) (\<lambda>prior.
       let entity = entity_from_key (io_object_key (jb_input J)) in
       case (prior, force_reprocess) of
         (Some r, False) \<Rightarrow> returnE (skipped_result r)
       | _ \<Rightarrow>
           if dry_run then dry_run_cdc J entity
           else seqE (register_job J CDC_PIPELINE CDC entity)
                  (catchE (cdc_body J entity force_reprocess)
                    (\<lambda>e. case e of Bronze_Read_Error code message \<Rightarrow> quarantine_job J code message | _ \<Rightarrow> fail_job J e)))"

definition normalize_job_settlement :: "'s silver_job
    \<Rightarrow> ('s silver_world, pyrow list \<times> QualityRejection list \<times> int \<times> string) eff" where
  "normalize_job_settlement J =
     (let P = jb_processor J in
      bindE (on_objects (bronze_read_bytes (sx_reader P) (jb_input J))) (\<lambda>payload.
      bindE (liftE (load_settlement_contract (sx_text P) (sv_settlement_contract_path (sx_settings P)) (sx_contract P))) (\<lambda>C.
        liftE (normalize_settlement_bytes (sx_text P) (sx_spool P) payload (jb_input J) C (jb_run_id J) (jb_now J)))))"

definition settlement_date_of :: "'s silver_job \<Rightarrow> pyrow list \<Rightarrow> int" where
  "settlement_date_of J rows =
     (let fallback = date_from_key (io_object_key (jb_input J)) ''settlement_date'' (jb_now J div (86400 * micros_per_second)) in
      case rows of [] \<Rightarrow> fallback | row # _ \<Rightarrow> (case row_get row ''settlement_date'' of PDate d \<Rightarrow> d | _ \<Rightarrow> fallback))"

definition settlement_writes :: "'s silver_job \<Rightarrow> pyrow list \<Rightarrow> QualityRejection list \<Rightarrow> string
    \<Rightarrow> ('s silver_world, SilverOutput) eff list" where
  "settlement_writes J rows rejections partner_id =
     (if rows \<noteq> []
      then [write_rows J rows SETTLEMENT_SCHEMA SETTLEMENTS ''settlements'' None (Some partner_id)
              (Some (iso_date_of_days (settlement_date_of J rows)))] else [])
     @ (if rejections \<noteq> [] then [write_rejections J rejections ''settlements''] else [])"

definition settlement_body :: "'s silver_job \<Rightarrow> ('s silver_world, ProcessingResult) eff" where
  "settlement_body J =
     (let i = jb_run_id J in
      seqE (on_table (mark_reading i))
      (bindE (normalize_job_settlement J) (\<lambda>(rows, rejections, input_count, partner_id).
       seqE (on_table (mark_validating i input_count))
       (seqE (on_table (mark_transforming i))
       (seqE (on_table (mark_writing i))
       (bindE (write_all (settlement_writes J rows rejections partner_id)) (\<lambda>outputs.
         bindE (on_table (mark_completed i outputs (int (length rows)) (int (length rejections)) (jb_now J)))
           (\<lambda>run. returnE (processing_result run)))))))))"

definition process_settlement :: "'s silver_job \<Rightarrow> bool \<Rightarrow> bool \<Rightarrow> ('s silver_world, ProcessingResult) eff" where
  "process_settlement J force_reprocess dry_run =
     bindE (existing_run J SETTLEMENT_PIPELINE) (\<lambda>prior. case (prior, force_reprocess) of
       (Some r, False) \<Rightarrow> returnE (skipped_result r)
     | _ \<Rightarrow>
         if dry_run
         then bindE (normalize_job_settlement J) (\<lambda>(rows, rejections, input_count, _).
                returnE (dry_result (jb_input J) ''settlements'' input_count (int (length rows)) (int (length rejections))))
         else seqE (register_job J SETTLEMENT_PIPELINE SETTLEMENT ''settlements'')
                (catchE (settlement_body J) (fail_job J)))"

section \<open>What the store promises to a run\<close>

lemma preserves_exn_case [preserves_rules]:
  "(\<And>c m. preserves I (f c m)) \<Longrightarrow> (\<And>e. preserves I (g e)) \<Longrightarrow>
    preserves I (case e of Bronze_Read_Error c m \<Rightarrow> f c m | _ \<Rightarrow> g e)"
  by (cases e) auto

text \<open>An output of a run: the bucket holds bytes with its checksum under a key whose address it records.\<close>

definition output_durable :: "'s SilverProcessor \<Rightarrow> ('s \<Rightarrow> string \<Rightarrow> string \<Rightarrow> bytes option) \<Rightarrow> 's \<Rightarrow> SilverOutput \<Rightarrow> bool" where
  "output_durable P obj s x \<longleftrightarrow>
     (\<exists>k d. sb_build_uri (sl_backend (sx_storage P)) (sl_bucket (sx_storage P)) k = Inr (out_object_uri x)
        \<and> obj s (sl_bucket (sx_storage P)) k = Some d \<and> sha256_hex d = out_checksum_sha256 x)"

text \<open>Completed runs are those of a set, and every completed run has durable outputs.\<close>

definition completed_in :: "ProcessingRun set \<Rightarrow> silver_db \<Rightarrow> bool" where
  "completed_in X db \<longleftrightarrow> (\<forall>r\<in>set (tb_rows db). pr_status r = COMPLETED \<longrightarrow> r \<in> X)"

definition published :: "'s SilverProcessor \<Rightarrow> ('s \<Rightarrow> string \<Rightarrow> string \<Rightarrow> bytes option) \<Rightarrow> 's silver_world \<Rightarrow> bool" where
  "published P obj w \<longleftrightarrow>
     completed_in {r. \<forall>x\<in>set (pr_outputs r). output_durable P obj (sw_store w) x} (sw_db w)"

lemma completed_in_transaction:
  assumes "\<And>rows x rows'. body rows = Inr (x, rows') \<Longrightarrow> \<forall>r\<in>set rows'. pr_status r = COMPLETED \<longrightarrow> r \<in> set rows \<or> r \<in> Y"
    and "completed_in X db"
  shows "wp (transaction body) (\<lambda>_. completed_in (X \<union> Y)) (\<lambda>_. completed_in (X \<union> Y)) db"
proof -
  have "completed_in (X \<union> Y) (db\<lparr>tb_tick := n\<rparr>)" for n using assms(2) by (auto simp: completed_in_def)
  moreover have "completed_in (X \<union> Y) (db\<lparr>tb_tick := n, tb_rows := rows'\<rparr>)" if "body (tb_rows db) = Inr (x, rows')" for n x rows'
    using assms(1) [OF that] assms(2) by (auto simp: completed_in_def)
  ultimately show ?thesis by (auto simp: wp_transaction Let_def split: option.split sum.split prod.split)
qed

lemma completed_in_query: "preserves (completed_in X) (query f)"
  unfolding preserves_iff_wp query_def
  using completed_in_transaction [of "\<lambda>rows. Inr (f rows, rows)" "{}"] by simp

lemma completed_in_reread: "preserves (completed_in X) (reread i)"
  unfolding reread_def get_run_def by (intro preserves_rules completed_in_query)

lemma transition_rows_completed:
  assumes "transition_rows i target us rows = Inr (x, rows')"
  shows "\<forall>r\<in>set rows'. pr_status r = COMPLETED \<longrightarrow>
     r \<in> set rows \<or> target = COMPLETED \<and> (\<exists>r0. r = fold set_run_column us (r0\<lparr>pr_status := COMPLETED\<rparr>))"
  using assms
  by (auto simp: transition_rows_def bindR_eq_Inr update_where_def split: option.split_asm if_split_asm) blast

lemma transition_completed_in:
  assumes "completed_in X db" "\<And>r0. target = COMPLETED \<Longrightarrow> fold set_run_column us (r0\<lparr>pr_status := COMPLETED\<rparr>) \<in> Y"
  shows "wp (transition_run i target us) (\<lambda>_. completed_in (X \<union> Y)) (\<lambda>_. completed_in (X \<union> Y)) db"
proof -
  have "wp (transaction (transition_rows i target us)) (\<lambda>_. completed_in (X \<union> Y)) (\<lambda>_. completed_in (X \<union> Y)) db"
    by (rule completed_in_transaction) (use transition_rows_completed assms in blast)+
  moreover have "wp (reread i) (\<lambda>_. completed_in (X \<union> Y)) (\<lambda>_. completed_in (X \<union> Y)) d" if "completed_in (X \<union> Y) d" for d
    using completed_in_reread that by (simp add: preserves_iff_wp)
  ultimately show ?thesis unfolding transition_run_def wp_seqE by (rule wp_mono)
qed

lemma completed_in_transition: "target \<noteq> COMPLETED \<Longrightarrow> preserves (completed_in X) (transition_run i target us)"
  using transition_completed_in [of X _ target us "{}" i] by (auto simp: preserves_iff_wp)

lemma completed_in_marks [preserves_rules]:
  "preserves (completed_in X) (mark_reading i)" "preserves (completed_in X) (mark_validating i n)"
  "preserves (completed_in X) (mark_transforming i)" "preserves (completed_in X) (mark_writing i)"
  "preserves (completed_in X) (mark_quarantined i c m n t)" "preserves (completed_in X) (mark_run_failed i c m)"
  "preserves (completed_in X) (get_run i)" "preserves (completed_in X) (find_latest_identity p c v sv)"
  "preserves (completed_in X) (latest_output e ot ex)"
  unfolding mark_reading_def mark_validating_def mark_transforming_def mark_writing_def mark_quarantined_def
    mark_run_failed_def get_run_def find_latest_identity_def latest_output_def
  by (intro preserves_rules completed_in_transition completed_in_query; simp)+

lemma completed_in_register [preserves_rules]:
  "preserves (completed_in X) (register_run (new_run i p src e u c cv sv t))"
proof -
  have "preserves (completed_in X) (transaction (insert_run (new_run i p src e u c cv sv t)))"
    unfolding preserves_iff_wp
    using completed_in_transaction [of "insert_run (new_run i p src e u c cv sv t)" "{}"]
    by (fastforce simp: insert_run_def new_run_def split: if_split_asm)
  then show ?thesis unfolding register_run_def by (intro preserves_rules completed_in_reread)
qed

text \<open>
  The contract a run needs: the Silver bucket and the Bronze bucket are immutable backends of one
  store, and reading a local path never changes what the store holds.
\<close>

locale silver_objects =
  fixes P :: "'s SilverProcessor" and ok :: "'s \<Rightarrow> bool" and obj :: "'s \<Rightarrow> string \<Rightarrow> string \<Rightarrow> bytes option"
  assumes storage: "immutable_backend (sl_backend (sx_storage P)) ok obj"
    and reader: "immutable_backend (sx_reader P) ok obj"
    and path_law: "ok s \<Longrightarrow> wp (sl_read_path (sx_storage P) p) (\<lambda>_ t. store_keeps ok obj s t) (\<lambda>_ t. store_keeps ok obj s t) s"
begin

text \<open>The invariant of a run, with the outputs it has written so far.\<close>

definition run_inv :: "SilverOutput list \<Rightarrow> 's silver_world \<Rightarrow> bool" where
  "run_inv outs w \<longleftrightarrow> ok (sw_store w) \<and> published P obj w \<and> (\<forall>x\<in>set outs. output_durable P obj (sw_store w) x)"

lemma durable_keeps: "store_keeps ok obj s t \<Longrightarrow> output_durable P obj s x \<Longrightarrow> output_durable P obj t x"
  unfolding output_durable_def store_keeps_def by blast

lemma run_inv_keeps: "run_inv outs w \<Longrightarrow> store_keeps ok obj (sw_store w) s \<Longrightarrow> run_inv outs (w\<lparr>sw_store := s\<rparr>)"
  using durable_keeps [of "sw_store w" s]
  by (auto simp: run_inv_def published_def completed_in_def store_keeps_def)

lemma run_inv_ok: "run_inv outs w \<Longrightarrow> ok (sw_store w)"
  by (simp add: run_inv_def)

lemma keeps_object_call:
  assumes "\<And>s. ok s \<Longrightarrow> wp m (\<lambda>_ t. store_keeps ok obj s t) (\<lambda>_ t. store_keeps ok obj s t) s"
  shows "preserves (run_inv outs) (on_objects m)"
  by (rule preserves_on_objects, rule wp_mono [OF assms]) (blast intro: run_inv_keeps run_inv_ok)+

lemma keeps_run_call:
  assumes "\<And>X. preserves (completed_in X) m"
  shows "preserves (run_inv outs) (on_table m)"
proof (rule preserves_on_table)
  fix w assume w: "run_inv outs w"
  have "wp m (\<lambda>_. completed_in {r. \<forall>x\<in>set (pr_outputs r). output_durable P obj (sw_store w) x})
      (\<lambda>_. completed_in {r. \<forall>x\<in>set (pr_outputs r). output_durable P obj (sw_store w) x}) (sw_db w)"
    using assms w by (simp add: preserves_iff_wp run_inv_def published_def)
  then show "wp m (\<lambda>_ d. run_inv outs (w\<lparr>sw_db := d\<rparr>)) (\<lambda>_ d. run_inv outs (w\<lparr>sw_db := d\<rparr>)) (sw_db w)"
    by (rule wp_mono) (use w in \<open>auto simp: run_inv_def published_def\<close>)
qed

lemma store_keeps_trans: "store_keeps ok obj a b \<Longrightarrow> store_keeps ok obj b c \<Longrightarrow> store_keeps ok obj a c"
  by (auto simp: store_keeps_def)

lemma silver_read_keeps:
  "ok s \<Longrightarrow> wp (silver_read_table (sx_storage P) uri schema) (\<lambda>_ t. store_keeps ok obj s t) (\<lambda>_ t. store_keeps ok obj s t) s"
  unfolding silver_read_table_def wp_bindE wp_if wp_liftE
  using immutable_backend.read_law [OF storage] path_law
  by (auto simp: store_keeps_def split: sum.split intro!: wp_mono [OF path_law] wp_mono [OF immutable_backend.read_law [OF storage]])

lemma bronze_bytes_keeps:
  "ok s \<Longrightarrow> wp (bronze_read_bytes (sx_reader P) i) (\<lambda>_ t. store_keeps ok obj s t) (\<lambda>_ t. store_keeps ok obj s t) s"
  unfolding bronze_read_bytes_def wp_bindE
  by (rule wp_mono [OF immutable_backend.read_law [OF reader]]) (auto simp: wp_rules bronze_read_error_def)

lemma bronze_read_keeps:
  "ok s \<Longrightarrow> wp (read_cdc (sx_reader P) Q i v) (\<lambda>_ t. store_keeps ok obj s t) (\<lambda>_ t. store_keeps ok obj s t) s"
  unfolding read_cdc_def wp_bindE
  by (rule wp_mono [OF bronze_bytes_keeps]) (auto simp: wp_rules bronze_read_error_def split: sum.split exn.split)

lemma write_rows_durable:
  assumes "run_inv outs w" and "jb_processor J = P"
  shows "wp (write_rows J rows schema ot entity a b c) (\<lambda>x. run_inv (x # outs)) (\<lambda>_. run_inv outs) w"
proof -
  have "plain_metadata (silver_metadata ot2 e r ic cv sv iv t n)" for ot2 e r ic cv sv iv t n
    by (rule plain_metadata_safe) (simp_all add: silver_metadata_def SAFE_METADATA_FIELDS_def)
  note put = immutable_backend.put_law [OF storage _ this]
  have "wp (on_objects (silver_put (sx_storage P) ser k ot e r ic cv sv iv t)) (\<lambda>x. run_inv (x # outs)) (\<lambda>_. run_inv outs) w"
    for ser k e r ic cv sv iv t
    unfolding silver_put_def wp_on_objects wp_bindE
    apply (rule wp_mono [OF put])
    using assms(1) run_inv_keeps [OF assms(1)]
    by (auto simp: wp_rules run_inv_def describes_def output_durable_def)
  then show ?thesis using assms by (auto simp: write_rows_def Let_def wp_rules split: sum.split)
qed

lemma write_all_durable:
  assumes "run_inv outs w"
    and "\<And>m outs w. m \<in> set ms \<Longrightarrow> run_inv outs w \<Longrightarrow> wp m (\<lambda>x. run_inv (x # outs)) (\<lambda>_. run_inv outs) w"
  shows "wp (write_all ms) (\<lambda>xs. run_inv (xs @ outs)) (\<lambda>_. run_inv outs) w"
  using assms
proof (induction ms arbitrary: outs w)
  case (Cons m ms)
  have "wp m (\<lambda>x. run_inv (x # outs)) (\<lambda>_. run_inv outs) w" using Cons.prems by simp
  then have "wp m (\<lambda>x. wp (bindE (write_all ms) (\<lambda>xs. returnE (x # xs))) (\<lambda>xs. run_inv (xs @ outs)) (\<lambda>_. run_inv outs))
      (\<lambda>_. run_inv outs) w"
  proof (rule wp_mono)
    fix x t assume "run_inv (x # outs) t"
    from Cons.IH [OF this Cons.prems(2)]
    show "wp (bindE (write_all ms) (\<lambda>xs. returnE (x # xs))) (\<lambda>xs. run_inv (xs @ outs)) (\<lambda>_. run_inv outs) t"
      by (auto simp: wp_rules run_inv_def elim!: wp_mono)
  qed
  then show ?case by (simp add: wp_rules)
qed (simp add: wp_rules)

lemma run_inv_weaken: "run_inv outs w \<Longrightarrow> run_inv [] w"
  by (simp add: run_inv_def)

lemma mark_completed_inv:
  assumes "run_inv outs w"
  shows "wp (on_table (mark_completed i outs n m t)) (\<lambda>_. run_inv []) (\<lambda>_. run_inv []) w"
proof -
  let ?X = "{r. \<forall>x\<in>set (pr_outputs r). output_durable P obj (sw_store w) x}" and ?Y = "{r. pr_outputs r = outs}"
  have ended: "wp (mark_completed i outs n m t) (\<lambda>_. completed_in (?X \<union> ?Y)) (\<lambda>_. completed_in (?X \<union> ?Y)) (sw_db w)"
    unfolding mark_completed_def
    by (rule transition_completed_in) (use assms in \<open>auto simp: run_inv_def published_def\<close>)
  have same: "?X \<union> ?Y = ?X" using assms by (auto simp: run_inv_def)
  show ?thesis
    unfolding wp_on_table
    by (rule wp_mono [OF ended [unfolded same]]) (use assms in \<open>auto simp: run_inv_def published_def\<close>)
qed

lemma complete_inv:
  assumes "run_inv outs w"
  shows "wp (bindE (on_table (mark_completed i outs n m t)) (\<lambda>run. returnE (f run))) (\<lambda>_. run_inv []) (\<lambda>_. run_inv []) w"
  unfolding wp_bindE by (rule wp_mono [OF mark_completed_inv [OF assms]]) (simp_all add: wp_rules)

text \<open>Calls of a run that write no output.\<close>

lemmas run_call_rules = keeps_run_call [OF completed_in_marks(1)] keeps_run_call [OF completed_in_marks(2)]
  keeps_run_call [OF completed_in_marks(3)] keeps_run_call [OF completed_in_marks(4)] keeps_run_call [OF completed_in_marks(5)]
  keeps_run_call [OF completed_in_marks(6)] keeps_run_call [OF completed_in_marks(7)] keeps_run_call [OF completed_in_marks(8)]
  keeps_run_call [OF completed_in_marks(9)] keeps_run_call [OF completed_in_register]
  keeps_object_call [OF silver_read_keeps] keeps_object_call [OF bronze_bytes_keeps] keeps_object_call [OF bronze_read_keeps]

lemma load_latest_state_inv: "jb_processor J = P \<Longrightarrow> preserves (run_inv outs) (load_latest_state J entity ex)"
  unfolding load_latest_state_def by simp (intro preserves_rules run_call_rules)

lemma known_keys_inv: "jb_processor J = P \<Longrightarrow> preserves (run_inv outs) (known_keys_from J keys ks)"
proof (induction keys arbitrary: ks)
  case (Cons k keys)
  obtain entity key_name where k: "k = (entity, key_name)" by (cases k)
  show ?case
    unfolding k known_keys_from.simps Cons.prems by (intro preserves_rules run_call_rules Cons.IH Cons.prems)
qed (simp add: preserves_rules)

lemma entity_write_durable:
  assumes "run_inv outs w" and "jb_processor J = P"
  shows "wp (entity_write J entity rows ot d) (\<lambda>x. run_inv (x # outs)) (\<lambda>_. run_inv outs) w"
  using assms write_rows_durable by (auto simp: entity_write_def wp_rules split: sum.split)

lemma cdc_writes_durable:
  assumes "m \<in> set (cdc_writes J entity events sf)" and "run_inv outs w" and "jb_processor J = P"
  shows "wp m (\<lambda>x. run_inv (x # outs)) (\<lambda>_. run_inv outs) w"
  using assms write_rows_durable [OF assms(2,3)] entity_write_durable [OF assms(2,3)]
  by (auto simp: cdc_writes_def Let_def write_rejections_def wp_rules split: sum.split if_split_asm)

lemma transform_inv:
  assumes "jb_processor J = P" and "run_inv [] w"
  shows "wp (transform_and_write_cdc J entity events rej force) (\<lambda>x. run_inv (fst x)) (\<lambda>_. run_inv []) w"
proof -
  have step: "wp (bindE m f) Q (\<lambda>_. run_inv []) w" if "preserves (run_inv []) m" "run_inv [] w"
      "\<And>x t. run_inv [] t \<Longrightarrow> wp (f x) Q (\<lambda>_. run_inv []) t" for m :: "('s silver_world, 'x) eff" and f :: "'x \<Rightarrow> ('s silver_world, 'y) eff" and Q w
    using that unfolding preserves_iff_wp wp_bindE by (blast intro: wp_mono)
  have writes: "wp (bindE (write_all (cdc_writes J entity events sf)) (\<lambda>outputs. returnE (outputs, sf_rejections sf)))
      (\<lambda>x. run_inv (fst x)) (\<lambda>_. run_inv []) t" if "run_inv [] t" for sf t
    unfolding wp_bindE
    by (rule wp_mono [OF write_all_durable [OF that cdc_writes_durable [OF _ _ assms(1)]]]) (simp_all add: wp_rules assms(1))
  show ?thesis
    unfolding transform_and_write_cdc_def Let_def seqE_def
    by (intro step load_latest_state_inv assms preserves_liftE run_call_rules writes)
       (simp_all add: known_reference_keys_def known_keys_inv assms(1))
qed

lemma cdc_body_inv:
  assumes "jb_processor J = P" shows "preserves (run_inv []) (cdc_body J entity force)"
proof -
  have finish: "preserves (run_inv []) (bindE (transform_and_write_cdc J entity es rs force) (\<lambda>(outputs, rejected).
      bindE (on_table (mark_completed i outputs (outputs_count outputs) (int (length rejected)) t)) (\<lambda>run. returnE (processing_result run))))"
    for es rs i t
    unfolding preserves_iff_wp wp_bindE
    by (intro allI impI wp_mono [OF transform_inv [OF assms]])
       (auto simp: wp_bindE [symmetric] split: prod.split intro: complete_inv)
  have read: "preserves (run_inv []) (read_job_cdc J)"
    unfolding read_job_cdc_def Let_def assms by (intro run_call_rules)
  show ?thesis
    unfolding cdc_body_def Let_def by (intro preserves_rules run_call_rules finish read)
qed

lemma fail_job_inv: "preserves (run_inv []) (fail_job J e)"
  unfolding fail_job_def by (intro preserves_rules run_call_rules)

lemma quarantine_job_inv: "preserves (run_inv []) (quarantine_job J c m)"
  unfolding quarantine_job_def by (intro preserves_rules run_call_rules)

lemma normalize_settlement_inv:
  "jb_processor J = P \<Longrightarrow> preserves (run_inv outs) (normalize_job_settlement J)"
  unfolding normalize_job_settlement_def Let_def by simp (intro preserves_rules run_call_rules)

lemma settlement_body_inv:
  assumes "jb_processor J = P" shows "preserves (run_inv []) (settlement_body J)"
proof -
  have writes: "wp m (\<lambda>x. run_inv (x # outs)) (\<lambda>_. run_inv outs) w"
    if "m \<in> set (settlement_writes J rows rej partner)" "run_inv outs w" for m rows rej partner outs w
    using that write_rows_durable [OF that(2) assms]
    by (auto simp: settlement_writes_def write_rejections_def split: if_split_asm)
  have finish: "preserves (run_inv []) (bindE (write_all (settlement_writes J rows rej partner)) (\<lambda>outputs.
      bindE (on_table (mark_completed i outputs n m t)) (\<lambda>run. returnE (processing_result run))))" for rows rej partner i n m t
    unfolding preserves_iff_wp wp_bindE
    by (intro allI impI wp_mono [OF write_all_durable [OF _ writes]])
       (auto simp: wp_bindE [symmetric] intro: complete_inv)
  show ?thesis
    unfolding settlement_body_def Let_def
    by (intro finish preserves_rules run_call_rules normalize_settlement_inv assms)
qed

lemma process_cdc_inv:
  assumes "jb_processor J = P" shows "preserves (run_inv []) (process_cdc J force dry)"
  unfolding process_cdc_def existing_run_def register_job_def dry_run_cdc_def read_job_cdc_def Let_def assms
  by (intro preserves_rules run_call_rules cdc_body_inv fail_job_inv quarantine_job_inv assms)

lemma process_settlement_inv:
  assumes "jb_processor J = P" shows "preserves (run_inv []) (process_settlement J force dry)"
  unfolding process_settlement_def existing_run_def register_job_def Let_def assms
  by (intro preserves_rules run_call_rules settlement_body_inv fail_job_inv normalize_settlement_inv assms)

end

section \<open>The life of a run\<close>

abbreviation runs_kept :: "ProcessingRun list \<Rightarrow> 's silver_world \<Rightarrow> bool" where
  "runs_kept rows0 w \<equiv> runs_keep rows0 (sw_db w)"

lemma keeps_silver_queries [preserves_rules]:
  "preserves (runs_keep rows0) (find_latest_identity p c v sv)" "preserves (runs_keep rows0) (latest_output e ot ex)"
  unfolding find_latest_identity_def latest_output_def by (rule runs.keeps_query)+

lemma preserves_write_all: "(\<And>m. m \<in> set ms \<Longrightarrow> preserves I m) \<Longrightarrow> preserves I (write_all ms)"
  by (induction ms) (auto intro!: preserves_rules)

lemma write_rows_kept [preserves_rules]: "preserves (runs_kept rows0) (write_rows J rows s ot e a b c)"
  unfolding write_rows_def Let_def by (intro preserves_rules preserves_table_objects)

lemma entity_write_kept [preserves_rules]: "preserves (runs_kept rows0) (entity_write J e rows ot d)"
  unfolding entity_write_def by (intro preserves_rules)

lemma known_keys_kept: "preserves (runs_kept rows0) (known_keys_from J keys ks)"
  by (induction J keys ks rule: known_keys_from.induct)
     (auto intro!: preserves_rules preserves_table preserves_table_objects)

lemma transform_kept: "preserves (runs_kept rows0) (transform_and_write_cdc J entity events rej force)"
proof -
  have "preserves (runs_kept rows0) m" if "m \<in> set (cdc_writes J entity events sf)" for m sf
    using that by (auto simp: cdc_writes_def Let_def write_rejections_def split: if_split_asm intro!: preserves_rules)
  then show ?thesis
    unfolding transform_and_write_cdc_def Let_def load_latest_state_def known_reference_keys_def
    by (intro preserves_rules preserves_table preserves_table_objects known_keys_kept preserves_write_all)
qed

lemma process_cdc_kept: "preserves (runs_kept rows0) (process_cdc J force dry)"
  unfolding process_cdc_def existing_run_def register_job_def dry_run_cdc_def read_job_cdc_def cdc_body_def
    fail_job_def quarantine_job_def Let_def
  by (intro preserves_rules preserves_table preserves_table_objects transform_kept)

lemma process_settlement_kept: "preserves (runs_kept rows0) (process_settlement J force dry)"
proof -
  have "preserves (runs_kept rows0) m" if "m \<in> set (settlement_writes J rows rej p)" for m rows rej p
    using that by (auto simp: settlement_writes_def write_rejections_def split: if_split_asm intro!: preserves_rules)
  then show ?thesis
    unfolding process_settlement_def existing_run_def register_job_def settlement_body_def normalize_job_settlement_def
      fail_job_def Let_def
    by (intro preserves_rules preserves_table preserves_table_objects preserves_write_all)
qed

text \<open>A run that ends: its result is that of its row, which is in a terminal status.\<close>

definition concluded :: "string \<Rightarrow> ProcessingResult \<Rightarrow> 's silver_world \<Rightarrow> bool" where
  "concluded i res w \<longleftrightarrow> (\<exists>r. find_run i (tb_rows (sw_db w)) = Some r \<and> res = processing_result r \<and> terminal (pr_status r))"

definition concludes :: "string \<Rightarrow> ('s silver_world, ProcessingResult) eff \<Rightarrow> bool" where
  "concludes i m \<longleftrightarrow> (\<forall>w. wp m (concluded i) (\<lambda>_ _. True) w)"

lemma concludes_bindE: "(\<And>x. concludes i (f x)) \<Longrightarrow> concludes i (bindE m f)"
  unfolding concludes_def wp_bindE by (auto intro: wp_mono [OF wp_True])

lemma concludes_seqE: "concludes i k \<Longrightarrow> concludes i (seqE m k)"
  unfolding seqE_def by (rule concludes_bindE)

lemma concludes_catchE: "concludes i m \<Longrightarrow> (\<And>e. concludes i (h e)) \<Longrightarrow> concludes i (catchE m h)"
  unfolding concludes_def wp_catchE by (intro allI, rule wp_mono) auto

lemma concludes_raise: "concludes i (raiseE e)"
  by (simp add: concludes_def wp_rules)

lemma concludes_if: "concludes i m \<Longrightarrow> concludes i k \<Longrightarrow> concludes i (if b then m else k)"
  by simp

lemma concludes_prod: "(\<And>a b. concludes i (f a b)) \<Longrightarrow> concludes i (case p of (a, b) \<Rightarrow> f a b)"
  by (cases p) simp

lemmas concludes_rules = concludes_bindE concludes_seqE concludes_catchE concludes_raise concludes_if concludes_prod

lemma concludes_mark:
  assumes "\<And>db r db'. m db = (Inr r, db') \<Longrightarrow> find_run i (tb_rows db') = Some r \<and> terminal (pr_status r)"
  shows "concludes i (bindE (on_table m) (\<lambda>r. returnE (processing_result r)))"
  by (auto simp: concludes_def wp_def bindE_def on_table_def returnE_def concluded_def dest!: assms
      split: prod.split_asm sum.split_asm prod.split sum.split)

lemma terminal_statuses [simp]: "terminal COMPLETED" "terminal ProcessingStatus.FAILED" "terminal ProcessingStatus.QUARANTINED"
  by (simp_all add: terminal_def)

lemma transition_terminal:
  assumes "transition_run i target us db = (Inr r, db')" "terminal target"
  shows "find_run i (tb_rows db') = Some r \<and> terminal (pr_status r)"
  using transition_run_ok [OF assms(1)] assms(2) by auto

lemma concludes_complete: "concludes i (bindE (on_table (mark_completed i os n m t)) (\<lambda>r. returnE (processing_result r)))"
  by (rule concludes_mark) (simp add: mark_completed_def transition_terminal)

lemma concludes_quarantine: "concludes i (bindE (on_table (mark_quarantined i c m n t)) (\<lambda>r. returnE (processing_result r)))"
  by (rule concludes_mark) (simp add: mark_quarantined_def transition_terminal)

lemma mark_run_failed_terminal:
  assumes "mark_run_failed i c m db = (Inr r, db')"
  shows "find_run i (tb_rows db') = Some r \<and> terminal (pr_status r)"
proof -
  obtain cur db1 where g: "get_run i db = (Inr (Some cur), db1)"
    and rest: "(if pr_status cur \<in> {COMPLETED, ProcessingStatus.QUARANTINED} then returnE cur
       else bindE tb_now (\<lambda>t. transition_run i ProcessingStatus.FAILED
              [Set_completed_at t, Set_error_code (Some c), Set_error_message (Some (take 1000 m))])) db1 = (Inr r, db')"
    using assms by (auto simp: mark_run_failed_def bindE_def raiseE_def split: prod.split_asm sum.split_asm option.split_asm)
  have cur: "find_run i (tb_rows db1) = Some cur"
    using query_result [OF g [unfolded get_run_def]] by simp
  show ?thesis
  proof (cases "pr_status cur \<in> {COMPLETED, ProcessingStatus.QUARANTINED}")
    case True
    with rest cur show ?thesis by (auto simp: returnE_def)
  next
    case False
    with rest obtain t where "transition_run i ProcessingStatus.FAILED
        [Set_completed_at t, Set_error_code (Some c), Set_error_message (Some (take 1000 m))] db1 = (Inr r, db')"
      by (auto simp: bindE_def tb_now_def getE_def)
    then show ?thesis using transition_terminal by simp
  qed
qed

lemma concludes_fail: "concludes (jb_run_id J) (fail_job J e)"
  unfolding fail_job_def by (rule concludes_mark) (rule mark_run_failed_terminal)

lemma cdc_concludes: "concludes (jb_run_id J) (cdc_body J entity force)"
  unfolding cdc_body_def Let_def by (intro concludes_complete concludes_rules)

lemma settlement_concludes: "concludes (jb_run_id J) (settlement_body J)"
  unfolding settlement_body_def Let_def by (intro concludes_complete concludes_rules)

lemma quarantine_concludes: "concludes (jb_run_id J) (quarantine_job J c m)"
  unfolding quarantine_job_def by (intro concludes_quarantine concludes_rules)

subsection \<open>Runs over a database that answers\<close>

definition db_answers :: "silver_db \<Rightarrow> bool" where
  "db_answers db \<longleftrightarrow> (\<forall>n. tb_faults db n = None)"

text \<open>The row of a run is there, and has not failed yet.\<close>

definition run_open :: "string \<Rightarrow> silver_db \<Rightarrow> bool" where
  "run_open i db \<longleftrightarrow> db_answers db \<and> runs_inv (tb_rows db)
     \<and> (\<exists>r. find_run i (tb_rows db) = Some r \<and> pr_status r \<noteq> ProcessingStatus.FAILED)"

lemma find_run_map: "(\<And>r. pr_run_id (g r) = pr_run_id r) \<Longrightarrow> find_run i (map g rows) = map_option g (find_run i rows)"
  by (induction rows) (simp_all add: find_run_def)

lemma fold_run_id [simp]: "pr_run_id (fold set_run_column us (r\<lparr>pr_status := s\<rparr>)) = pr_run_id r"
  using run_identity_id [of "fold set_run_column us (r\<lparr>pr_status := s\<rparr>)" r] by simp

text \<open>The only row of a run is the one a lookup finds.\<close>

lemma only_row:
  assumes "runs_inv rows" "find_run i rows = Some r"
  shows "filter (\<lambda>x. pr_run_id x = i \<and> pr_status x = pr_status r) rows = [r]"
proof -
  obtain xs ys where rows: "rows = xs @ r # ys" and r: "pr_run_id r = i"
    using assms(2) by (auto simp: find_run_def find_Some_iff) (metis id_take_nth_drop)
  have "pr_run_id r \<notin> pr_run_id ` (set xs \<union> set ys)" using assms(1) by (simp add: rows runs_inv_def image_Un)
  then have "\<forall>x\<in>set xs \<union> set ys. pr_run_id x \<noteq> i" using r by (metis imageI)
  then show ?thesis using r by (auto simp: rows filter_empty_conv)
qed

text \<open>With no fault, a transition that is allowed and keeps the checks succeeds.\<close>

lemma wp_reread: "db_answers db \<Longrightarrow> find_run i (tb_rows db) = Some r \<Longrightarrow> Q r (db\<lparr>tb_tick := Suc (tb_tick db)\<rparr>) \<Longrightarrow> wp (reread i) Q E db"
  by (simp add: reread_def get_run_def query_def wp_rules Let_def db_answers_def)

lemma transition_succeeds:
  assumes "db_answers db" "runs_inv (tb_rows db)" "find_run i (tb_rows db) = Some r"
    and "target \<in> set (TRANSITIONS (pr_status r))" "run_checks (fold set_run_column us (r\<lparr>pr_status := target\<rparr>))"
  shows "wp (transition_run i target us) (\<lambda>_ _. True) (\<lambda>_ _. False) db"
proof -
  let ?f = "\<lambda>x. fold set_run_column us (x\<lparr>pr_status := target\<rparr>)"
  let ?rows = "map (\<lambda>x. if pr_run_id x = i \<and> pr_status x = pr_status r then ?f x else x) (tb_rows db)"
  have "transition_rows i target us (tb_rows db) = Inr ((), ?rows)"
    using assms only_row [OF assms(2,3)] by (simp add: transition_rows_def update_where_def bindR_def)
  moreover have "\<exists>x. find_run i ?rows = Some x"
    by (subst find_run_map) (simp_all add: assms(3))
  ultimately show ?thesis
    using assms(1) unfolding transition_run_def
    by (auto simp: wp_rules Let_def db_answers_def intro!: wp_reread)
qed

lemma mark_run_failed_succeeds:
  assumes "run_open i db" shows "wp (mark_run_failed i c m) (\<lambda>_ _. True) (\<lambda>_ _. False) db"
proof -
  obtain r where r: "find_run i (tb_rows db) = Some r" "pr_status r \<noteq> ProcessingStatus.FAILED"
    and db: "db_answers db" "runs_inv (tb_rows db)"
    using assms by (auto simp: run_open_def)
  have "run_ok r" using db(2) r(1) by (auto simp: runs_inv_def find_run_def find_Some_iff)
  then have "run_checks r" by (simp add: run_ok_def)
  let ?db = "db\<lparr>tb_tick := Suc (tb_tick db)\<rparr>"
  have "wp (transition_run i ProcessingStatus.FAILED [Set_completed_at t, Set_error_code (Some c), Set_error_message (Some x)])
      (\<lambda>_ _. True) (\<lambda>_ _. False) ?db" if "pr_status r \<notin> {COMPLETED, ProcessingStatus.QUARANTINED}" for t x
  proof (rule transition_succeeds)
    show "ProcessingStatus.FAILED \<in> set (TRANSITIONS (pr_status r))" using that r(2) by (cases "pr_status r") auto
  qed (use db r \<open>run_checks r\<close> in \<open>simp_all add: db_answers_def run_checks_def\<close>)
  then show ?thesis
    using db r by (simp add: mark_run_failed_def get_run_def query_def wp_rules Let_def db_answers_def)
qed

lemma open_transaction:
  assumes "\<And>rows x rows'. body rows = Inr (x, rows') \<Longrightarrow> runs_inv rows \<Longrightarrow> runs_inv rows'"
    and "\<And>rows x rows' r. body rows = Inr (x, rows') \<Longrightarrow> find_run i rows = Some r \<Longrightarrow> pr_status r \<noteq> ProcessingStatus.FAILED \<Longrightarrow>
      \<exists>r'. find_run i rows' = Some r' \<and> pr_status r' \<noteq> ProcessingStatus.FAILED"
  shows "preserves (run_open i) (transaction body)"
  unfolding preserves_iff_wp
proof (intro allI impI)
  fix db assume db: "run_open i db"
  have "run_open i (db\<lparr>tb_tick := n, tb_rows := rows'\<rparr>)" if "body (tb_rows db) = Inr (x, rows')" for n x rows'
    using db assms(1) [OF that] assms(2) [OF that] by (auto simp: run_open_def db_answers_def)
  moreover have "run_open i (db\<lparr>tb_tick := n\<rparr>)" for n using db by (simp add: run_open_def db_answers_def)
  ultimately show "wp (transaction body) (\<lambda>_. run_open i) (\<lambda>_. run_open i) db"
    by (auto simp: wp_transaction Let_def split: option.split sum.split prod.split)
qed

lemma open_query: "preserves (run_open i) (query f)"
  unfolding query_def by (rule open_transaction) auto

lemma open_reread: "preserves (run_open i) (reread j)"
  unfolding reread_def get_run_def by (intro preserves_rules open_query)

lemma open_transition:
  assumes "good_run_updates target us" "target \<noteq> ProcessingStatus.FAILED"
  shows "preserves (run_open i) (transition_run j target us)"
  unfolding transition_run_def
proof (intro preserves_rules open_reread open_transaction)
  fix rows x rows' r
  assume body: "transition_rows j target us rows = Inr (x, rows')"
  then show "runs_inv rows \<Longrightarrow> runs_inv rows'" using transition_rows_keep [OF assms(1) _ body] by simp
  assume r: "find_run i rows = Some r" "pr_status r \<noteq> ProcessingStatus.FAILED"
  obtain g where g: "rows' = map g rows" "\<And>y. pr_run_id (g y) = pr_run_id y" "\<And>y. pr_status (g y) \<in> {pr_status y, target}"
  proof -
    let ?row = "the (find_run j rows)"
    have "rows' = map (\<lambda>y. if pr_run_id y = j \<and> pr_status y = pr_status ?row
        then fold set_run_column us (y\<lparr>pr_status := target\<rparr>) else y) rows"
      using body by (cases "find_run j rows") (auto simp: transition_rows_def bindR_eq_Inr update_where_def split: if_split_asm)
    then show thesis by (rule that) auto
  qed
  have "pr_status (g r) \<noteq> ProcessingStatus.FAILED" using g(3) [of r] r(2) assms(2) by auto
  then show "\<exists>r'. find_run i rows' = Some r' \<and> pr_status r' \<noteq> ProcessingStatus.FAILED"
    using r g by (simp add: find_run_map)
qed

lemma open_calls [preserves_rules]:
  "preserves (run_open i) (mark_reading j)" "preserves (run_open i) (mark_validating j n)"
  "preserves (run_open i) (mark_transforming j)" "preserves (run_open i) (mark_writing j)"
  "preserves (run_open i) (mark_completed j os n m t)" "preserves (run_open i) (latest_output e ot ex)"
  unfolding mark_reading_def mark_validating_def mark_transforming_def mark_writing_def mark_completed_def latest_output_def
  by (intro open_query open_transition good_run_updatesI; auto simp: run_ok_def terminal_def run_checks_def)+

abbreviation job_open :: "'s silver_job \<Rightarrow> 's silver_world \<Rightarrow> bool" where
  "job_open J w \<equiv> run_open (jb_run_id J) (sw_db w)"

lemma write_rows_open [preserves_rules]: "preserves (job_open K) (write_rows J rows s ot e a b c)"
  unfolding write_rows_def Let_def by (intro preserves_rules preserves_table_objects)

lemma entity_write_open [preserves_rules]: "preserves (job_open K) (entity_write J e rows ot d)"
  unfolding entity_write_def by (intro preserves_rules)

lemma known_keys_open: "preserves (job_open K) (known_keys_from J keys ks)"
  by (induction J keys ks rule: known_keys_from.induct)
     (auto intro!: preserves_rules preserves_table preserves_table_objects)

lemma cdc_body_open: "preserves (job_open K) (cdc_body J entity force)"
proof -
  have "preserves (job_open K) m" if "m \<in> set (cdc_writes J entity events sf)" for m events sf
    using that by (auto simp: cdc_writes_def Let_def write_rejections_def split: if_split_asm intro!: preserves_rules)
  then show ?thesis
    unfolding cdc_body_def read_job_cdc_def transform_and_write_cdc_def Let_def load_latest_state_def known_reference_keys_def
    by (intro preserves_rules preserves_table preserves_table_objects known_keys_open preserves_write_all)
qed

lemma settlement_body_open: "preserves (job_open K) (settlement_body J)"
proof -
  have "preserves (job_open K) m" if "m \<in> set (settlement_writes J rows rej p)" for m rows rej p
    using that by (auto simp: settlement_writes_def write_rejections_def split: if_split_asm intro!: preserves_rules)
  then show ?thesis
    unfolding settlement_body_def normalize_job_settlement_def Let_def
    by (intro preserves_rules preserves_table preserves_table_objects preserves_write_all)
qed

text \<open>Whatever ends the body of a run, its failure is recorded.\<close>

lemma fail_job_returns: "job_open J w \<Longrightarrow> wp (fail_job J e) (concluded (jb_run_id J)) (\<lambda>_ _. False) w"
proof -
  assume w: "job_open J w"
  have "wp (fail_job J e) (\<lambda>_ _. True) (\<lambda>_ _. False) w"
    unfolding fail_job_def wp_bindE wp_on_table by (rule wp_mono [OF mark_run_failed_succeeds [OF w]]) (simp_all add: wp_rules)
  then show ?thesis
    using concludes_fail [of J e] by (auto simp: concludes_def wp_def split: prod.splits sum.splits)
qed

lemma body_concluded:
  assumes "concludes i m" "preserves K m" "K w"
  shows "wp m (concluded i) (\<lambda>_. K) w"
proof -
  have "wp m (\<lambda>x t. concluded i x t \<and> K t) (\<lambda>_ t. True \<and> K t) w"
    unfolding wp_conj using assms by (simp add: concludes_def preserves_iff_wp)
  then show ?thesis by (rule wp_mono) auto
qed

lemma quarantine_job_returns:
  assumes "job_open J w"
  shows "wp (quarantine_job J c m) (concluded (jb_run_id J)) (\<lambda>e _. e = Bronze_Read_Error c m) w"
proof -
  obtain r where r: "find_run (jb_run_id J) (tb_rows (sw_db w)) = Some r"
    and db: "db_answers (sw_db w)" "runs_inv (tb_rows (sw_db w))"
    using assms by (auto simp: run_open_def)
  have "run_ok r" using db(2) r(1) by (auto simp: runs_inv_def find_run_def find_Some_iff)
  then have chk: "run_checks r" by (simp add: run_ok_def)
  let ?db = "(sw_db w)\<lparr>tb_tick := Suc (tb_tick (sw_db w))\<rparr>"
  have "wp (mark_quarantined (jb_run_id J) c m 1 t) (\<lambda>_ _. True) (\<lambda>_ _. False) ?db"
    if "pr_status r \<in> {READING, ProcessingStatus.VALIDATING}" for t
    unfolding mark_quarantined_def
    by (rule transition_succeeds [where r = r]) (use db r chk that in \<open>auto simp: db_answers_def run_checks_def\<close>)
  then have "wp (quarantine_job J c m) (\<lambda>_ _. True) (\<lambda>e _. e = Bronze_Read_Error c m) w"
    using db r unfolding quarantine_job_def get_run_def query_def
    by (auto simp: wp_rules Let_def db_answers_def intro: wp_mono)
  then show ?thesis
    using quarantine_concludes [of J c m] by (auto simp: concludes_def wp_def split: prod.splits sum.splits)
qed

lemma find_run_append: "find_run i (rows @ [r]) = (case find_run i rows of None \<Rightarrow> if pr_run_id r = i then Some r else None | Some x \<Rightarrow> Some x)"
  by (induction rows) (simp_all add: find_run_def)

lemma register_opens:
  assumes "db_answers (sw_db w)" "runs_inv (tb_rows (sw_db w))" "find_run (jb_run_id J) (tb_rows (sw_db w)) = None"
  shows "wp (register_job J p src e) (\<lambda>_. job_open J) (\<lambda>_ _. False) w"
proof -
  let ?r = "new_run (jb_run_id J) p src e (io_uri (jb_input J)) (io_checksum_sha256 (jb_input J))
    (sv_code_version (sx_settings (jb_processor J))) (sv_silver_schema_version (sx_settings (jb_processor J))) (jb_now J)"
  have id: "pr_run_id ?r = jb_run_id J" "pr_status ?r = ProcessingStatus.DISCOVERED" by (simp_all add: new_run_def)
  have found: "find_run (jb_run_id J) (tb_rows (sw_db w) @ [?r]) = Some ?r"
    using assms(3) id by (simp add: find_run_append)
  have "runs_inv (tb_rows (sw_db w) @ [?r])"
    using assms(2,3) id new_run_ok by (auto simp: runs_inv_def find_run_def find_None_iff)
  then show ?thesis
    using assms found id unfolding register_job_def register_run_def Let_def wp_on_table
    by (simp add: wp_rules Let_def db_answers_def insert_run_def)
       (rule wp_reread, auto simp: db_answers_def run_open_def)
qed

text \<open>What a call that writes is: a skipped input, or a run that concludes.\<close>

definition skips :: "'s silver_job \<Rightarrow> string \<Rightarrow> bool \<Rightarrow> 's silver_world \<Rightarrow> ProcessingResult \<Rightarrow> 's silver_world \<Rightarrow> bool" where
  "skips J pipeline force w res w' \<longleftrightarrow> \<not> force \<and> tb_rows (sw_db w') = tb_rows (sw_db w) \<and> sw_store w' = sw_store w
     \<and> (\<exists>r\<in>set (tb_rows (sw_db w)). same_identity pipeline (io_checksum_sha256 (jb_input J))
            (sv_code_version (sx_settings (jb_processor J))) (sv_silver_schema_version (sx_settings (jb_processor J))) r
          \<and> res = skipped_result r)"

lemma wp_existing:
  assumes "db_answers (sw_db w)"
    and "\<And>t. db_answers (sw_db t) \<Longrightarrow> tb_rows (sw_db t) = tb_rows (sw_db w) \<Longrightarrow> sw_store t = sw_store w \<Longrightarrow> Q None t"
    and "\<And>t r. db_answers (sw_db t) \<Longrightarrow> tb_rows (sw_db t) = tb_rows (sw_db w) \<Longrightarrow> sw_store t = sw_store w \<Longrightarrow>
      r \<in> set (tb_rows (sw_db w)) \<Longrightarrow> same_identity pipeline (io_checksum_sha256 (jb_input J))
        (sv_code_version (sx_settings (jb_processor J))) (sv_silver_schema_version (sx_settings (jb_processor J))) r \<Longrightarrow> Q (Some r) t"
  shows "wp (existing_run J pipeline) Q E w"
proof -
  let ?same = "same_identity pipeline (io_checksum_sha256 (jb_input J)) (sv_code_version (sx_settings (jb_processor J)))
    (sv_silver_schema_version (sx_settings (jb_processor J)))"
  let ?found = "last_by (\<lambda>r. (utc_isoformat (pr_started_at r), pr_run_id r)) (filter ?same (tb_rows (sw_db w)))"
  have "Q ?found (w\<lparr>sw_db := (sw_db w)\<lparr>tb_tick := Suc (tb_tick (sw_db w))\<rparr>\<rparr>)"
  proof (cases ?found)
    case None
    then show ?thesis using assms(1,2) by (simp add: db_answers_def)
  next
    case (Some r)
    from last_by_Some [OF this] show ?thesis using Some assms(1,3) by (auto simp: db_answers_def)
  qed
  then show ?thesis
    using assms(1) unfolding existing_run_def find_latest_identity_def query_def Let_def
    by (simp add: wp_rules Let_def db_answers_def)
qed

lemma run_or_skip:
  assumes "db_answers (sw_db w)"
    and "\<And>t. db_answers (sw_db t) \<Longrightarrow> tb_rows (sw_db t) = tb_rows (sw_db w) \<Longrightarrow> wp m (concluded i) E t"
  shows "wp (bindE (existing_run J pipeline) (\<lambda>prior. case (prior, force) of (Some r, False) \<Rightarrow> returnE (skipped_result r) | _ \<Rightarrow> m))
    (\<lambda>res t. skips J pipeline force w res t \<or> concluded i res t) E w"
  unfolding wp_bindE
proof (rule wp_existing [OF assms(1)])
  fix t :: "'a silver_world" assume t: "db_answers (sw_db t)" "tb_rows (sw_db t) = tb_rows (sw_db w)" "sw_store t = sw_store w"
  have run: "wp m (\<lambda>res t. skips J pipeline force w res t \<or> concluded i res t) E t"
    by (rule wp_mono [OF assms(2) [OF t(1,2)]]) auto
  then show "wp (case (None, force) of (Some r, False) \<Rightarrow> returnE (skipped_result r) | _ \<Rightarrow> m)
      (\<lambda>res t. skips J pipeline force w res t \<or> concluded i res t) E t"
    by simp
  fix r assume "r \<in> set (tb_rows (sw_db w))" "same_identity pipeline (io_checksum_sha256 (jb_input J))
      (sv_code_version (sx_settings (jb_processor J))) (sv_silver_schema_version (sx_settings (jb_processor J))) r"
  then show "wp (case (Some r, force) of (Some r, False) \<Rightarrow> returnE (skipped_result r) | _ \<Rightarrow> m)
      (\<lambda>res t. skips J pipeline force w res t \<or> concluded i res t) E t"
    using run t by (cases force) (auto simp: wp_rules skips_def)
qed

lemma settlement_run_wp:
  assumes "db_answers (sw_db w)" "runs_inv (tb_rows (sw_db w))" "find_run (jb_run_id J) (tb_rows (sw_db w)) = None"
  shows "wp (process_settlement J force False)
    (\<lambda>res t. skips J SETTLEMENT_PIPELINE force w res t \<or> concluded (jb_run_id J) res t) (\<lambda>_ _. False) w"
proof -
  have body: "wp (catchE (settlement_body J) (fail_job J)) (concluded (jb_run_id J)) (\<lambda>_ _. False) t" if "job_open J t" for t
    unfolding wp_catchE
    by (rule wp_mono [OF body_concluded [OF settlement_concludes settlement_body_open that]]) (auto intro: fail_job_returns)
  have "wp (seqE (register_job J SETTLEMENT_PIPELINE SETTLEMENT ''settlements'') (catchE (settlement_body J) (fail_job J)))
      (concluded (jb_run_id J)) (\<lambda>_ _. False) t" if "db_answers (sw_db t)" "tb_rows (sw_db t) = tb_rows (sw_db w)" for t
    unfolding wp_seqE by (rule wp_mono [OF register_opens]) (use that assms body in auto)
  from run_or_skip [OF assms(1) this] show ?thesis unfolding process_settlement_def by simp
qed

lemma cdc_run_wp:
  assumes "db_answers (sw_db w)" "runs_inv (tb_rows (sw_db w))" "find_run (jb_run_id J) (tb_rows (sw_db w)) = None"
  shows "wp (process_cdc J force False)
    (\<lambda>res t. skips J CDC_PIPELINE force w res t \<or> concluded (jb_run_id J) res t) (\<lambda>e _. \<exists>c m. e = Bronze_Read_Error c m) w"
proof -
  let ?h = "\<lambda>e. case e of Bronze_Read_Error code message \<Rightarrow> quarantine_job J code message | _ \<Rightarrow> fail_job J e"
  let ?entity = "entity_from_key (io_object_key (jb_input J))"
  have handler: "wp (?h e) (concluded (jb_run_id J)) (\<lambda>e _. \<exists>c m. e = Bronze_Read_Error c m) t" if "job_open J t" for e t
    using that by (cases e) (auto intro: wp_mono [OF fail_job_returns] wp_mono [OF quarantine_job_returns])
  have body: "wp (catchE (cdc_body J ?entity force) ?h) (concluded (jb_run_id J)) (\<lambda>e _. \<exists>c m. e = Bronze_Read_Error c m) t"
    if "job_open J t" for t
    unfolding wp_catchE
    by (rule wp_mono [OF body_concluded [OF cdc_concludes cdc_body_open that]]) (auto intro: handler)
  have "wp (seqE (register_job J CDC_PIPELINE CDC ?entity) (catchE (cdc_body J ?entity force) ?h))
      (concluded (jb_run_id J)) (\<lambda>e _. \<exists>c m. e = Bronze_Read_Error c m) t"
    if "db_answers (sw_db t)" "tb_rows (sw_db t) = tb_rows (sw_db w)" for t
    unfolding wp_seqE by (rule wp_mono [OF register_opens]) (use that assms body in auto)
  from run_or_skip [OF assms(1) this] show ?thesis unfolding process_cdc_def Let_def by simp
qed

section \<open>The processor on the two backends\<close>

text \<open>The processor over the local buckets: \<open>Path(uri).read_bytes()\<close> reads the same file system.\<close>

definition local_read_path :: "string \<Rightarrow> (local_fs, bytes) eff" where
  "local_read_path uri =
     bindE (fs_step (\<lambda>fs. (map_of (lf_objects fs) (posix_parts uri), fs))) (\<lambda>d. case d of
       None \<Rightarrow> raiseE (OS_Error ''No such file or directory'') | Some data \<Rightarrow> returnE data)"

definition local_silver :: "bucket_roots \<Rightarrow> silver_parquet \<Rightarrow> SilverSettings \<Rightarrow> (pyval \<Rightarrow> string) \<Rightarrow> text_env \<Rightarrow> contract_file
    \<Rightarrow> (string \<Rightarrow> bytes \<Rightarrow> (bytes \<times> exn option) result) \<Rightarrow> local_fs SilverProcessor" where
  "local_silver roots parquet settings repr texts contract spool =
     \<lparr>sx_settings = settings, sx_reader = local_backend roots,
      sx_storage = \<lparr>sl_backend = local_backend roots, sl_bucket = ''silver'', sl_read_path = local_read_path, sl_parquet = parquet\<rparr>,
      sx_repr = repr, sx_text = texts, sx_contract = contract, sx_spool = spool\<rparr>"

lemma local_read_path_keeps:
  "wp (local_read_path uri) (\<lambda>_ t. store_keeps local_ok (local_obj roots) s t) (\<lambda>_ t. store_keeps local_ok (local_obj roots) s t) s"
  unfolding local_read_path_def
  by (auto simp: wp_rules intro!: wp_fs_step fs_grows_keeps split: option.splits)

interpretation local_runs: silver_objects "local_silver roots parquet settings repr texts contract spool" local_ok "local_obj roots"
  for roots parquet settings repr texts contract spool
  by unfold_locales (simp_all add: local_silver_def local.stat_law local.put_law local.put_bytes_law local.read_law
      local.list_law local_read_path_keeps)

section \<open>Properties\<close>

text \<open>
  C34. Publication, on MinIO: whatever storage, Parquet, contract or SQLite failures happen, at
  whatever point, a CDC or settlement run leaves every COMPLETED run of the manifest with durable
  outputs only: for each recorded output the Silver bucket holds, under a key whose address the
  output records, bytes whose SHA-256 is the recorded checksum. Stored objects and the rows of other
  runs are kept, and the rows keep the invariant of the manifest.
\<close>

theorem silver_publication:
  assumes "s3_store M contents" and "sl_backend (sx_storage P) = minio_backend M" and "sx_reader P = minio_backend M"
    and "\<And>p s. snd (sl_read_path (sx_storage P) p s) = s" and "jb_processor J = P"
    and "runs_inv (tb_rows (sw_db w))" and "all_sealed contents (sw_store w)" and "published P (minio_obj contents) w"
    and "run = process_cdc J force dry \<or> run = process_settlement J force dry"
  shows "published P (minio_obj contents) (snd (run w))
    \<and> all_sealed contents (sw_store (snd (run w)))
    \<and> runs_inv (tb_rows (sw_db (snd (run w))))
    \<and> table_evolves run_evolves (tb_rows (sw_db w)) (tb_rows (sw_db (snd (run w))))"
proof -
  have path: "wp (sl_read_path (sx_storage P) p) (\<lambda>_ t. store_keeps (all_sealed contents) (minio_obj contents) s t)
      (\<lambda>_ t. store_keeps (all_sealed contents) (minio_obj contents) s t) s" if "all_sealed contents s" for p s
    using assms(4) [of p s] that by (cases "sl_read_path (sx_storage P) p s") (auto simp: wp_def store_keeps_def split: sum.split)
  have runs: "silver_objects P (all_sealed contents) (minio_obj contents)"
    using s3_store.minio_immutable_backend [OF assms(1)] assms(2,3) path by (simp add: silver_objects_def)
  note inv = silver_objects.process_cdc_inv [OF runs assms(5)] silver_objects.process_settlement_inv [OF runs assms(5)]
  have "preserves (silver_objects.run_inv P (all_sealed contents) (minio_obj contents) []) run"
    using assms(9) inv by auto
  moreover have "preserves (runs_kept (tb_rows (sw_db w))) run"
    using assms(9) process_cdc_kept process_settlement_kept by auto
  ultimately show ?thesis
    using assms(6-8) runs.keeps_start [of "sw_db w"]
    by (auto simp: preserves_def silver_objects.run_inv_def [OF runs] table_keeps_def)
qed


definition sample_silver :: "mem_s3 SilverProcessor" where
  "sample_silver =
     \<lparr>sx_settings = \<lparr>sv_storage = \<lparr>sg_backend = MINIO, sg_local_bronze_root = ''b'', sg_local_quarantine_root = ''q'',
          sg_bronze_bucket = ''bronze'', sg_quarantine_bucket = ''quarantine'', sg_local_silver_root = ''s'', sg_silver_bucket = ''silver'',
          sg_minio = None\<rparr>, sv_manifest_path = ''m'', sv_temp_dir = ''t'', sv_code_version = ''v1'',
        sv_silver_schema_version = ''s1'', sv_supported_bronze_schema = ''b1'', sv_settlement_contract_path = ''c'', sv_max_objects = 1\<rparr>,
      sx_reader = minio_backend mem_minio,
      sx_storage = \<lparr>sl_backend = minio_backend mem_minio, sl_bucket = ''silver'',
        sl_read_path = (\<lambda>_ s. (Inl (OS_Error ''No such file or directory''), s)),
        sl_parquet = \<lparr>pq_write = (\<lambda>_ _. Inr ''PAR1''), pq_read = (\<lambda>_. Inr ([], []))\<rparr>\<rparr>,
      sx_repr = (\<lambda>_. []), sx_text = sample_text_env, sx_contract = Missing_File, sx_spool = (\<lambda>_ d. Inr (d, None))\<rparr>"

definition sample_job :: "mem_s3 silver_job" where
  "sample_job = \<lparr>jb_processor = sample_silver, jb_input = sample_input 7, jb_run_id = ''r'', jb_now = 0\<rparr>"

definition fresh_silver :: "mem_s3 silver_world" where
  "fresh_silver = \<lparr>sw_db = empty_silver, sw_store = []\<rparr>"

theorem silver_publication_witness:
  "published sample_silver (minio_obj map_of) (snd (process_cdc sample_job True False fresh_silver))
   \<and> published sample_silver (minio_obj map_of) (snd (process_settlement sample_job True False fresh_silver))"
proof -
  have "sl_backend (sx_storage sample_silver) = minio_backend mem_minio" "sx_reader sample_silver = minio_backend mem_minio"
    "\<And>p s. snd (sl_read_path (sx_storage sample_silver) p s) = s" "jb_processor sample_job = sample_silver"
    "runs_inv (tb_rows (sw_db fresh_silver))" "all_sealed map_of (sw_store fresh_silver)"
    "published sample_silver (minio_obj map_of) fresh_silver"
    by (simp_all add: sample_silver_def sample_job_def fresh_silver_def empty_silver_def runs_inv_def all_sealed_def
        published_def completed_in_def)
  note fresh = silver_publication [OF mem.s3_store_axioms this]
  show ?thesis
    using fresh [of "process_cdc sample_job True False" True False] fresh [of "process_settlement sample_job True False" True False]
    by blast
qed


end
