(* ===== verification/Batch_Ingestion.thy ===== *)
theory Batch_Ingestion
  imports Batch_Validation Storage Sqlite
begin

text \<open>
  \<open>ingestion/batch/manifest.py\<close>, \<open>ingestion/batch/storage.py\<close> and
  \<open>ingestion/batch/settlement_ingestor.py\<close>: the settlement file manifest, the object layout of
  settlements, and the ingestion of files over the two. A file may change or vanish between two
  accesses, so it is the sequence of its observations; SQLite and the store may fail at every call.
  The time and the run id of an attempt are arguments, the values of its clock and id factory.
\<close>

section \<open>The settlement manifest\<close>

definition SOURCE_NAME :: string where
  "SOURCE_NAME = ''banking_partner_settlement''"

fun ALLOWED_TRANSITIONS :: "ManifestStatus \<Rightarrow> ManifestStatus list" where
  "ALLOWED_TRANSITIONS DISCOVERED = [VALIDATING, FAILED]"
| "ALLOWED_TRANSITIONS VALIDATING = [VALIDATING, VALIDATED, QUARANTINED, FAILED]"
| "ALLOWED_TRANSITIONS VALIDATED = [VALIDATING, PROCESSING, QUARANTINED, FAILED]"
| "ALLOWED_TRANSITIONS PROCESSING = [VALIDATING, PROCESSED, QUARANTINED, FAILED]"
| "ALLOWED_TRANSITIONS FAILED = [VALIDATING]"
| "ALLOWED_TRANSITIONS QUARANTINED = []"
| "ALLOWED_TRANSITIONS PROCESSED = []"

fun manifest_status_value :: "ManifestStatus \<Rightarrow> string" where
  "manifest_status_value DISCOVERED = ''DISCOVERED''"
| "manifest_status_value VALIDATING = ''VALIDATING''"
| "manifest_status_value VALIDATED = ''VALIDATED''"
| "manifest_status_value PROCESSING = ''PROCESSING''"
| "manifest_status_value PROCESSED = ''PROCESSED''"
| "manifest_status_value QUARANTINED = ''QUARANTINED''"
| "manifest_status_value FAILED = ''FAILED''"

record ManifestRecord =
  mf_file_id :: string
  mf_source_name :: string
  mf_partner_id :: string
  mf_file_name :: string
  mf_file_path :: string
  mf_file_size_bytes :: int
  mf_checksum_sha256 :: string
  mf_schema_version :: string
  mf_settlement_date :: "string option"
  mf_discovered_at :: string
  mf_processing_started_at :: "string option"
  mf_processed_at :: "string option"
  mf_status :: ManifestStatus
  mf_record_count :: int
  mf_accepted_count :: int
  mf_rejected_count :: int
  mf_error_code :: "string option"
  mf_error_message :: "string option"
  mf_bronze_path :: "string option"
  mf_quarantine_path :: "string option"
  mf_ingestion_run_id :: string

type_synonym batch_db = "ManifestRecord table_db"

text \<open>The \<open>CHECK\<close> constraints.\<close>

definition manifest_checks :: "ManifestRecord \<Rightarrow> bool" where
  "manifest_checks r \<longleftrightarrow> 0 \<le> mf_file_size_bytes r \<and> length (mf_checksum_sha256 r) = 64
     \<and> 0 \<le> mf_record_count r \<and> 0 \<le> mf_accepted_count r \<and> 0 \<le> mf_rejected_count r"

text \<open>Every operation first runs \<open>initialize\<close> on a connection of its own.\<close>

definition manifest_initialize :: "(batch_db, unit) eff" where
  "manifest_initialize = transaction (\<lambda>rows. Inr ((), rows))"

definition manifest_session :: "(ManifestRecord list \<Rightarrow> ('a \<times> ManifestRecord list) result) \<Rightarrow> (batch_db, 'a) eff" where
  "manifest_session body = seqE manifest_initialize (transaction body)"

definition find_file :: "string \<Rightarrow> ManifestRecord list \<Rightarrow> ManifestRecord option" where
  "find_file i rows = find (\<lambda>r. mf_file_id r = i) rows"

definition same_content :: "string \<Rightarrow> string \<Rightarrow> ManifestRecord \<Rightarrow> bool" where
  "same_content partner_id checksum r \<longleftrightarrow>
     mf_source_name r = SOURCE_NAME \<and> mf_partner_id r = partner_id \<and> mf_checksum_sha256 r = checksum"

definition new_manifest_record :: "string \<Rightarrow> string \<Rightarrow> string \<Rightarrow> int \<Rightarrow> string \<Rightarrow> string \<Rightarrow> string option \<Rightarrow> instant \<Rightarrow> string
    \<Rightarrow> ManifestRecord" where
  "new_manifest_record partner_id file_name file_path file_size checksum schema_version settlement_date discovered_at run_id =
     \<lparr>mf_file_id = deterministic_file_id SOURCE_NAME partner_id checksum, mf_source_name = SOURCE_NAME,
      mf_partner_id = partner_id, mf_file_name = file_name, mf_file_path = file_path, mf_file_size_bytes = file_size,
      mf_checksum_sha256 = checksum, mf_schema_version = schema_version, mf_settlement_date = settlement_date,
      mf_discovered_at = utc_isoformat discovered_at, mf_processing_started_at = None, mf_processed_at = None,
      mf_status = DISCOVERED, mf_record_count = 0, mf_accepted_count = 0, mf_rejected_count = 0, mf_error_code = None,
      mf_error_message = None, mf_bronze_path = None, mf_quarantine_path = None, mf_ingestion_run_id = run_id\<rparr>"

text \<open>The insertion with the primary key, the \<open>UNIQUE\<close> and the \<open>CHECK\<close> constraints.\<close>

definition insert_file :: "ManifestRecord \<Rightarrow> ManifestRecord list \<Rightarrow> ManifestRecord list result" where
  "insert_file r rows =
     (if find_file (mf_file_id r) rows \<noteq> None
         \<or> (\<exists>x\<in>set rows. mf_source_name x = mf_source_name r \<and> mf_partner_id x = mf_partner_id r
                \<and> mf_checksum_sha256 x = mf_checksum_sha256 r)
      then Inl (Integrity_Error ''UNIQUE constraint failed'')
      else if \<not> manifest_checks r then Inl (Integrity_Error ''CHECK constraint failed'')
      else Inr (rows @ [r]))"

definition discovery_rows :: "ManifestRecord \<Rightarrow> ManifestRecord list
    \<Rightarrow> ((ManifestRecord \<times> DuplicateKind) \<times> ManifestRecord list) result" where
  "discovery_rows r rows =
     (case find (same_content (mf_partner_id r) (mf_checksum_sha256 r)) rows of
        Some existing \<Rightarrow>
          Inr ((existing, if mf_file_name existing = mf_file_name r then SAME_NAME_SAME_CONTENT else DIFFERENT_NAME_SAME_CONTENT), rows)
      | None \<Rightarrow>
          (let kind = (if \<exists>x\<in>set rows. mf_source_name x = SOURCE_NAME \<and> mf_partner_id x = mf_partner_id r
                            \<and> mf_file_name x = mf_file_name r
                       then SAME_NAME_CHANGED_CONTENT else NEW_FILE) in
           bindR (insert_file r rows) (\<lambda>rows'.
             case find_file (mf_file_id r) rows' of
               None \<Rightarrow> Inl (Manifest_Error (''Manifest insert did not return file_id '' @ mf_file_id r))
             | Some row \<Rightarrow> Inr ((row, kind), rows'))))"

definition register_discovery :: "string \<Rightarrow> string \<Rightarrow> string \<Rightarrow> int \<Rightarrow> string \<Rightarrow> string \<Rightarrow> string option \<Rightarrow> instant \<Rightarrow> string
    \<Rightarrow> (batch_db, ManifestRecord \<times> DuplicateKind) eff" where
  "register_discovery partner_id file_name file_path file_size checksum schema_version settlement_date discovered_at run_id =
     manifest_session (discovery_rows
       (new_manifest_record partner_id file_name file_path file_size checksum schema_version settlement_date discovered_at run_id))"

text \<open>The columns \<open>transition\<close> may update (\<open>UPDATABLE_COLUMNS\<close>); others cannot be written.\<close>

datatype file_update =
    File_path string
  | File_size_bytes int
  | Processing_started_at string
  | Processed_at string
  | Record_count int
  | Accepted_count int
  | Rejected_count int
  | Error_code "string option"
  | Error_message "string option"
  | Bronze_path string
  | Quarantine_path "string option"
  | Ingestion_run_id string

fun set_file_column :: "file_update \<Rightarrow> ManifestRecord \<Rightarrow> ManifestRecord" where
  "set_file_column (File_path v) r = r\<lparr>mf_file_path := v\<rparr>"
| "set_file_column (File_size_bytes v) r = r\<lparr>mf_file_size_bytes := v\<rparr>"
| "set_file_column (Processing_started_at v) r = r\<lparr>mf_processing_started_at := Some v\<rparr>"
| "set_file_column (Processed_at v) r = r\<lparr>mf_processed_at := Some v\<rparr>"
| "set_file_column (Record_count v) r = r\<lparr>mf_record_count := v\<rparr>"
| "set_file_column (Accepted_count v) r = r\<lparr>mf_accepted_count := v\<rparr>"
| "set_file_column (Rejected_count v) r = r\<lparr>mf_rejected_count := v\<rparr>"
| "set_file_column (Error_code v) r = r\<lparr>mf_error_code := v\<rparr>"
| "set_file_column (Error_message v) r = r\<lparr>mf_error_message := v\<rparr>"
| "set_file_column (Bronze_path v) r = r\<lparr>mf_bronze_path := Some v\<rparr>"
| "set_file_column (Quarantine_path v) r = r\<lparr>mf_quarantine_path := v\<rparr>"
| "set_file_column (Ingestion_run_id v) r = r\<lparr>mf_ingestion_run_id := v\<rparr>"

definition file_transition_rows :: "string \<Rightarrow> ManifestStatus \<Rightarrow> file_update list \<Rightarrow> ManifestRecord list
    \<Rightarrow> (ManifestRecord \<times> ManifestRecord list) result" where
  "file_transition_rows i new_status updates rows =
     (case find_file i rows of
        None \<Rightarrow> Inl (Manifest_Error (''Manifest file_id does not exist: '' @ i))
      | Some current \<Rightarrow>
          if new_status \<notin> set (ALLOWED_TRANSITIONS (mf_status current))
          then Inl (Manifest_Error (''Invalid manifest transition ''
                 @ manifest_status_value (mf_status current) @ '' -> '' @ manifest_status_value new_status))
          else bindR (update_where manifest_checks (\<lambda>r. mf_file_id r = i \<and> mf_status r = mf_status current)
                        (\<lambda>r. fold set_file_column updates (r\<lparr>mf_status := new_status\<rparr>)) rows)
                 (\<lambda>(rowcount, rows').
                    if rowcount \<noteq> 1 then Inl (Manifest_Error (''Concurrent manifest update detected for '' @ i))
                    else (case find_file i rows' of
                        None \<Rightarrow> Inl (Manifest_Error (''Manifest update lost file_id '' @ i))
                      | Some updated \<Rightarrow> Inr (updated, rows'))))"

definition file_transition :: "string \<Rightarrow> ManifestStatus \<Rightarrow> file_update list \<Rightarrow> (batch_db, ManifestRecord) eff" where
  "file_transition i new_status updates = manifest_session (file_transition_rows i new_status updates)"

definition manifest_get :: "string \<Rightarrow> (batch_db, ManifestRecord option) eff" where
  "manifest_get i = manifest_session (\<lambda>rows. Inr (find_file i rows, rows))"

definition manifest_list_all :: "(batch_db, ManifestRecord list) eff" where
  "manifest_list_all = manifest_session (\<lambda>rows. Inr (sort_key (\<lambda>r. (mf_discovered_at r, mf_file_id r)) rows, rows))"

section \<open>Settlement objects\<close>

definition SETTLEMENT_PREFIX :: string where "SETTLEMENT_PREFIX = ''settlements''"

definition validate_partition_value :: "string \<Rightarrow> string \<Rightarrow> unit result" where
  "validate_partition_value v name =
     (if safe_token 127 v then Inr () else Inl (Value_Error (name @ '' contains unsafe object-key characters'')))"

definition safe_file_name :: "string \<Rightarrow> string result" where
  "safe_file_name name =
     (if name = [] \<or> path_name name \<noteq> name \<or> CHR ''/'' \<in> set name \<or> char_of (92 :: nat) \<in> set name
      then Inl (Value_Error ''file_name must not contain directory segments'') else Inr name)"

definition build_bronze_object_key :: "string \<Rightarrow> int \<Rightarrow> int \<Rightarrow> string \<Rightarrow> string \<Rightarrow> string result" where
  "build_bronze_object_key partner_id settlement_date ingestion_date checksum file_name =
     bindR (validate_partition_value partner_id ''partner_id'') (\<lambda>_.
     if \<not> (length checksum = 64 \<and> list_all is_hex checksum)
     then Inl (Value_Error ''checksum_sha256 must be 64 lowercase hexadecimal characters'')
     else bindR (safe_file_name file_name) (\<lambda>safe_name.
       Inr (SETTLEMENT_PREFIX @ ''/partner_id='' @ partner_id @ ''/settlement_date='' @ iso_date_of_days settlement_date
            @ ''/ingestion_date='' @ iso_date_of_days ingestion_date @ ''/checksum='' @ checksum @ ''/'' @ safe_name)))"

definition build_quarantine_object_key :: "string \<Rightarrow> int option \<Rightarrow> string \<Rightarrow> string \<Rightarrow> string result" where
  "build_quarantine_object_key partner_id settlement_date run_id file_name =
     bindR (validate_partition_value partner_id ''partner_id'') (\<lambda>_.
     bindR (validate_partition_value run_id ''ingestion_run_id'') (\<lambda>_.
     bindR (safe_file_name file_name) (\<lambda>safe_name.
       Inr (SETTLEMENT_PREFIX @ ''/partner_id='' @ partner_id @ ''/settlement_date=''
            @ (case settlement_date of None \<Rightarrow> ''unknown'' | Some d \<Rightarrow> iso_date_of_days d)
            @ ''/ingestion_run_id='' @ run_id @ ''/'' @ safe_name))))"

record 's SettlementObjectStorage =
  sos_backend :: "'s storage_backend"
  sos_bronze_bucket :: string
  sos_quarantine_bucket :: string

text \<open>
  A file on disk: its path, and what each access to it finds: the bytes read, with the failure
  that ended the reading if there was one.
\<close>

record source_file =
  sf_path :: string
  sf_reads :: "nat \<Rightarrow> bytes \<times> exn option"

definition sf_name :: "source_file \<Rightarrow> string" where
  "sf_name f = path_name (sf_path f)"

definition sf_bytes :: "source_file \<Rightarrow> nat \<Rightarrow> bytes result" where
  "sf_bytes f n = (case sf_reads f n of (data, None) \<Rightarrow> Inr data | (_, Some e) \<Rightarrow> Inl e)"

definition sf_size :: "source_file \<Rightarrow> nat \<Rightarrow> int result" where
  "sf_size f n = bindR (sf_bytes f n) (\<lambda>data. Inr (int (length data)))"

definition put_settlement :: "'s SettlementObjectStorage \<Rightarrow> string \<Rightarrow> string result \<Rightarrow> bytes result \<Rightarrow> string \<Rightarrow> metadata \<Rightarrow> string
    \<Rightarrow> ('s, string) eff" where
  "put_settlement S bucket object_key source checksum md artifact =
     bindE (liftE object_key) (\<lambda>key.
     bindE (liftE source) (\<lambda>data.
     bindE (sb_put_immutable (sos_backend S) bucket key data checksum ''text/csv''
              (AList.update ''artifact_type'' (M_str artifact) md)) (\<lambda>stored. returnE (so_uri stored))))"

definition copy_to_bronze :: "'s SettlementObjectStorage \<Rightarrow> source_file \<Rightarrow> nat \<Rightarrow> string \<Rightarrow> int \<Rightarrow> int \<Rightarrow> string \<Rightarrow> metadata
    \<Rightarrow> ('s, string) eff" where
  "copy_to_bronze S f n partner_id settlement_date ingestion_date checksum md =
     put_settlement S (sos_bronze_bucket S)
       (build_bronze_object_key partner_id settlement_date ingestion_date checksum (sf_name f)) (sf_bytes f n) checksum md
       ''settlement_raw''"

definition quarantine_file :: "'s SettlementObjectStorage \<Rightarrow> source_file \<Rightarrow> nat \<Rightarrow> string \<Rightarrow> int option \<Rightarrow> string \<Rightarrow> string \<Rightarrow> metadata
    \<Rightarrow> ('s, string) eff" where
  "quarantine_file S f n partner_id settlement_date run_id checksum md =
     put_settlement S (sos_quarantine_bucket S) (build_quarantine_object_key partner_id settlement_date run_id (sf_name f))
       (sf_bytes f n) checksum md ''quarantined_raw''"

text \<open>One line of rejected-record evidence: \<open>json.dumps\<close> with sorted keys and the default separators.\<close>

definition dumps_object :: "(string \<times> string) list \<Rightarrow> string" where
  "dumps_object kvs = ''{'' @ join_with '', '' (map (\<lambda>(k, t). json_quote k @ '': '' @ t) (sort_key fst kvs)) @ ''}''"

definition rejected_line :: "RejectedRecord \<Rightarrow> string" where
  "rejected_line r = dumps_object
     [(''source_file'', json_quote (rr_source_file r)), (''source_row_number'', show_nat (rr_source_row_number r)),
      (''raw_record'', dumps_object (map (\<lambda>(k, v). (k, case v of None \<Rightarrow> ''null'' | Some s \<Rightarrow> json_quote s)) (rr_raw_record r))),
      (''error_code'', json_quote (rr_error_code r)), (''error_message'', json_quote (rr_error_message r)),
      (''rejected_at'', json_quote (utc_isoformat (rr_rejected_at r))), (''ingestion_run_id'', json_quote (rr_ingestion_run_id r))]"

definition write_rejected_records :: "'s SettlementObjectStorage \<Rightarrow> RejectedRecord list \<Rightarrow> string \<Rightarrow> string \<Rightarrow> int \<Rightarrow> string \<Rightarrow> metadata
    \<Rightarrow> ('s, string) eff" where
  "write_rejected_records S records source_file_name partner_id settlement_date run_id md =
     bindE (liftE (build_quarantine_object_key partner_id (Some settlement_date) run_id (source_file_name @ ''.rejected.jsonl''))) (\<lambda>key.
     bindE (sb_put_bytes_immutable (sos_backend S) (sos_quarantine_bucket S) key
              (concat (map (\<lambda>r. rejected_line r @ [char_of (10 :: nat)]) records)) ''application/x-ndjson''
              (AList.update ''artifact_type'' (M_str ''rejected_records'') md)) (\<lambda>stored. returnE (so_uri stored)))"

section \<open>Ingestion of a file\<close>

record SettlementResult =
  sr_file_name :: string
  sr_status :: ManifestStatus
  sr_checksum_sha256 :: string
  sr_duplicate_kind :: DuplicateKind
  sr_ingestion_run_id :: string
  sr_file_id :: "string option"
  sr_record_count :: int
  sr_accepted_count :: int
  sr_rejected_count :: int
  sr_bronze_path :: "string option"
  sr_quarantine_path :: "string option"
  sr_error_code :: "string option"
  sr_error_message :: "string option"
  sr_skipped :: bool
  sr_dry_run :: bool

record 's SettlementIngestor =
  si_contract :: SettlementContract
  si_storage :: "'s SettlementObjectStorage"
  si_text :: text_env

type_synonym 's ingest_world = "(batch_db, 's) job_world"

text \<open>One attempt: the file, the expected partner, the time and the run id.\<close>

record attempt =
  at_file :: source_file
  at_partner_id :: string
  at_now :: instant
  at_run_id :: string
  at_dry_run :: bool
  at_strict :: bool

definition calculate_sha256 :: "source_file \<Rightarrow> nat \<Rightarrow> string result" where
  "calculate_sha256 f n = bindR (sf_bytes f n) (\<lambda>data. Inr (sha256_file (1024 * 1024) data))"

definition result_from_manifest :: "ManifestRecord \<Rightarrow> DuplicateKind \<Rightarrow> string \<Rightarrow> bool \<Rightarrow> SettlementResult" where
  "result_from_manifest r kind file_name skipped =
     \<lparr>sr_file_name = file_name, sr_status = mf_status r, sr_checksum_sha256 = mf_checksum_sha256 r, sr_duplicate_kind = kind,
      sr_ingestion_run_id = mf_ingestion_run_id r, sr_file_id = Some (mf_file_id r), sr_record_count = mf_record_count r,
      sr_accepted_count = mf_accepted_count r, sr_rejected_count = mf_rejected_count r, sr_bronze_path = mf_bronze_path r,
      sr_quarantine_path = mf_quarantine_path r, sr_error_code = mf_error_code r, sr_error_message = mf_error_message r,
      sr_skipped = skipped, sr_dry_run = False\<rparr>"

text \<open>A result without a manifest row.\<close>

definition plain_result :: "attempt \<Rightarrow> ManifestStatus \<Rightarrow> string \<Rightarrow> string option \<Rightarrow> string option \<Rightarrow> SettlementResult" where
  "plain_result a status checksum code message =
     \<lparr>sr_file_name = sf_name (at_file a), sr_status = status, sr_checksum_sha256 = checksum, sr_duplicate_kind = NEW_FILE,
      sr_ingestion_run_id = at_run_id a, sr_file_id = None, sr_record_count = 0, sr_accepted_count = 0, sr_rejected_count = 0,
      sr_bronze_path = None, sr_quarantine_path = None, sr_error_code = code, sr_error_message = message, sr_skipped = False,
      sr_dry_run = at_dry_run a\<rparr>"

definition dry_run_result :: "attempt \<Rightarrow> string \<Rightarrow> FileValidationResult \<Rightarrow> SettlementResult" where
  "dry_run_result a checksum v =
     (let quarantined = (\<not> file_is_valid v \<or> at_strict a \<and> fv_rejected_records v \<noteq> []);
          issue = (case fv_file_issues v of [] \<Rightarrow> None | i # _ \<Rightarrow> Some i) in
      (plain_result a (if quarantined then QUARANTINED else VALIDATED) checksum (map_option vi_code issue) (map_option vi_message issue))
        \<lparr>sr_record_count := int (fv_record_count v), sr_accepted_count := int (length (fv_accepted_records v)),
         sr_rejected_count := int (length (fv_rejected_records v)), sr_dry_run := True\<rparr>)"

definition storage_metadata :: "'s SettlementIngestor \<Rightarrow> attempt \<Rightarrow> string \<Rightarrow> string \<Rightarrow> int \<Rightarrow> FileValidationResult option \<Rightarrow> metadata" where
  "storage_metadata G a partner_id checksum file_size v =
     [(''source_name'', M_str SOURCE_NAME), (''partner_id'', M_str partner_id),
      (''schema_version'', M_str (sc_schema_version (si_contract G))), (''checksum_sha256'', M_str checksum),
      (''ingestion_run_id'', M_str (at_run_id a)), (''source_file_name'', M_str (sf_name (at_file a))),
      (''source_file_size'', M_int file_size),
      (''record_count'', M_int (case v of None \<Rightarrow> 0 | Some x \<Rightarrow> int (fv_record_count x))),
      (''accepted_count'', M_int (case v of None \<Rightarrow> 0 | Some x \<Rightarrow> int (length (fv_accepted_records x)))),
      (''rejected_count'', M_int (case v of None \<Rightarrow> 0 | Some x \<Rightarrow> int (length (fv_rejected_records x)))),
      (''ingested_at'', M_str (utc_isoformat (at_now a)))]"

definition fail_manifest :: "attempt \<Rightarrow> ManifestRecord \<Rightarrow> DuplicateKind \<Rightarrow> exn \<Rightarrow> ('s ingest_world, SettlementResult) eff" where
  "fail_manifest a r kind e =
     bindE (on_table (file_transition (mf_file_id r) FAILED
              [Processed_at (utc_isoformat (at_now a)), Error_code (Some ''STORAGE_OR_PROCESSING_FAILED''),
               Error_message (Some (take 1000 (exn_message e)))]))
       (\<lambda>failed. returnE (result_from_manifest failed kind (sf_name (at_file a)) False))"

text \<open>A step in a \<open>try\<close> block that ends with the updated row; what it raises fails the row.\<close>

definition guarded_step :: "attempt \<Rightarrow> ManifestRecord \<Rightarrow> DuplicateKind \<Rightarrow> ('s ingest_world, ManifestRecord) eff
    \<Rightarrow> ('s ingest_world, SettlementResult) eff" where
  "guarded_step a r kind body =
     catchE (bindE body (\<lambda>r'. returnE (result_from_manifest r' kind (sf_name (at_file a)) False))) (fail_manifest a r kind)"

definition quarantine_invalid_file :: "'s SettlementIngestor \<Rightarrow> attempt \<Rightarrow> FilenameMetadata \<Rightarrow> string \<Rightarrow> DuplicateKind \<Rightarrow> ManifestRecord
    \<Rightarrow> FileValidationResult \<Rightarrow> metadata \<Rightarrow> ('s ingest_world, SettlementResult) eff" where
  "quarantine_invalid_file G a fm checksum kind r v md =
     (let i = hd (fv_file_issues v) in
      guarded_step a r kind
        (bindE (on_objects (quarantine_file (si_storage G) (at_file a) 5 (fm_partner_id fm) (Some (fm_settlement_date fm))
                  (mf_ingestion_run_id r) checksum md)) (\<lambda>quarantine_path.
           on_table (file_transition (mf_file_id r) QUARANTINED
             [Processed_at (utc_isoformat (at_now a)), Record_count (int (fv_record_count v)), Error_code (Some (vi_code i)),
              Error_message (Some (vi_message i)), Quarantine_path (Some quarantine_path)]))))"

definition quarantine_strict_file :: "'s SettlementIngestor \<Rightarrow> attempt \<Rightarrow> FilenameMetadata \<Rightarrow> string \<Rightarrow> DuplicateKind \<Rightarrow> ManifestRecord
    \<Rightarrow> FileValidationResult \<Rightarrow> metadata \<Rightarrow> ('s ingest_world, SettlementResult) eff" where
  "quarantine_strict_file G a fm checksum kind r v md =
     guarded_step a r kind
       (bindE (on_objects (quarantine_file (si_storage G) (at_file a) 5 (fm_partner_id fm) (Some (fm_settlement_date fm))
                 (mf_ingestion_run_id r) checksum md)) (\<lambda>quarantine_path.
        bindE (on_objects (write_rejected_records (si_storage G) (fv_rejected_records v) (sf_name (at_file a)) (fm_partner_id fm)
                 (fm_settlement_date fm) (mf_ingestion_run_id r) md)) (\<lambda>_.
          on_table (file_transition (mf_file_id r) QUARANTINED
            [Processed_at (utc_isoformat (at_now a)), Error_code (Some ''REJECTED_RECORDS_PRESENT''),
             Error_message (Some ''Strict mode quarantined a file containing rejected records''),
             Quarantine_path (Some quarantine_path)]))))"

text \<open>The \<open>try\<close> block that copies an accepted file and completes its row.\<close>

definition store_accepted :: "'s SettlementIngestor \<Rightarrow> attempt \<Rightarrow> FilenameMetadata \<Rightarrow> string \<Rightarrow> ManifestRecord \<Rightarrow> FileValidationResult
    \<Rightarrow> metadata \<Rightarrow> ('s ingest_world, ManifestRecord) eff" where
  "store_accepted G a fm checksum r v md =
     bindE (on_objects (copy_to_bronze (si_storage G) (at_file a) 5 (fm_partner_id fm) (fm_settlement_date fm)
              (at_now a div (86400 * micros_per_second)) checksum md)) (\<lambda>bronze_path.
     bindE (if fv_rejected_records v \<noteq> []
            then bindE (on_objects (write_rejected_records (si_storage G) (fv_rejected_records v) (sf_name (at_file a))
                   (fm_partner_id fm) (fm_settlement_date fm) (at_run_id a) md)) (\<lambda>uri. returnE (Some uri))
            else returnE None) (\<lambda>quarantine_path.
       on_table (file_transition (mf_file_id r) PROCESSED
         [Processed_at (utc_isoformat (at_now a)), Bronze_path bronze_path, Quarantine_path quarantine_path])))"

definition validate_attempt :: "'s SettlementIngestor \<Rightarrow> attempt \<Rightarrow> FilenameMetadata \<Rightarrow> nat \<Rightarrow> FileValidationResult result" where
  "validate_attempt G a fm n =
     validate_settlement_file (si_text G) (si_contract G) fm (sf_name (at_file a)) (at_now a) (at_run_id a) (sf_reads (at_file a) n)"

text \<open>What follows the registration of a discovered file that is not finished yet.\<close>

definition ingest_registered :: "'s SettlementIngestor \<Rightarrow> attempt \<Rightarrow> FilenameMetadata \<Rightarrow> string \<Rightarrow> DuplicateKind \<Rightarrow> ManifestRecord
    \<Rightarrow> ('s ingest_world, SettlementResult) eff" where
  "ingest_registered G a fm checksum kind r0 =
     bindE (liftE (sf_size (at_file a) 2)) (\<lambda>file_size.
     bindE (on_table (file_transition (mf_file_id r0) VALIDATING
              [File_path (sf_path (at_file a)), File_size_bytes file_size, Ingestion_run_id (at_run_id a), Error_code None,
               Error_message None])) (\<lambda>r1.
     bindE (liftE (validate_attempt G a fm 3)) (\<lambda>v.
     bindE (liftE (sf_size (at_file a) 4)) (\<lambda>md_size.
       let md = storage_metadata G a (fm_partner_id fm) checksum md_size (Some v) in
       if \<not> file_is_valid v then quarantine_invalid_file G a fm checksum kind r1 v md
       else bindE (on_table (file_transition (mf_file_id r1) VALIDATED
                [Record_count (int (fv_record_count v)), Accepted_count (int (length (fv_accepted_records v))),
                 Rejected_count (int (length (fv_rejected_records v)))])) (\<lambda>r2.
            if fv_rejected_records v \<noteq> [] \<and> at_strict a then quarantine_strict_file G a fm checksum kind r2 v md
            else bindE (on_table (file_transition (mf_file_id r2) PROCESSING [Processing_started_at (utc_isoformat (at_now a))])) (\<lambda>r3.
              guarded_step a r3 kind (store_accepted G a fm checksum r3 v md)))))))"

definition quarantine_name :: "'s SettlementIngestor \<Rightarrow> attempt \<Rightarrow> string \<Rightarrow> string \<Rightarrow> string \<Rightarrow> DuplicateKind \<Rightarrow> ManifestRecord
    \<Rightarrow> ('s ingest_world, SettlementResult) eff" where
  "quarantine_name G a checksum code message kind r =
     guarded_step a r kind
       (bindE (liftE (sf_size (at_file a) 2)) (\<lambda>md_size.
        bindE (on_objects (quarantine_file (si_storage G) (at_file a) 5 (at_partner_id a) None (at_run_id a) checksum
                 (storage_metadata G a (at_partner_id a) checksum md_size None))) (\<lambda>quarantine_path.
          on_table (file_transition (mf_file_id r) QUARANTINED
            [Processed_at (utc_isoformat (at_now a)), Error_code (Some code), Error_message (Some message),
             Quarantine_path (Some quarantine_path)]))))"

definition handle_filename_rejection :: "'s SettlementIngestor \<Rightarrow> attempt \<Rightarrow> string \<Rightarrow> string
    \<Rightarrow> ('s ingest_world, SettlementResult) eff" where
  "handle_filename_rejection G a code message =
     (case calculate_sha256 (at_file a) 0 of
        Inl (OS_Error m) \<Rightarrow> returnE (plain_result a FAILED [] (Some ''CHECKSUM_FAILED'') (Some m))
      | Inl e \<Rightarrow> raiseE e
      | Inr checksum \<Rightarrow>
          if at_dry_run a then returnE (plain_result a QUARANTINED checksum (Some code) (Some message))
          else
            bindE (liftE (sf_size (at_file a) 1)) (\<lambda>file_size.
            bindE (on_table (register_discovery (at_partner_id a) (sf_name (at_file a)) (sf_path (at_file a)) file_size checksum
                     (sc_schema_version (si_contract G)) None (at_now a) (at_run_id a))) (\<lambda>(r0, kind).
              if mf_status r0 = QUARANTINED then returnE (result_from_manifest r0 kind (sf_name (at_file a)) True)
              else bindE (on_table (file_transition (mf_file_id r0) VALIDATING [Ingestion_run_id (at_run_id a)]))
                     (quarantine_name G a checksum code message kind))))"

definition ingest_file :: "'s SettlementIngestor \<Rightarrow> attempt \<Rightarrow> ('s ingest_world, SettlementResult) eff" where
  "ingest_file G a =
     (case parse_settlement_filename (si_text G) (sf_name (at_file a)) (sc_naming_pattern (si_contract G)) (at_partner_id a) of
        Inl (Discovery_Error code message) \<Rightarrow> handle_filename_rejection G a code message
      | Inl e \<Rightarrow> raiseE e
      | Inr fm \<Rightarrow>
          bindE (liftE (calculate_sha256 (at_file a) 0)) (\<lambda>checksum.
          if at_dry_run a
          then bindE (liftE (validate_attempt G a fm 1)) (\<lambda>v. returnE (dry_run_result a checksum v))
          else
            bindE (liftE (sf_size (at_file a) 1)) (\<lambda>file_size.
            bindE (on_table (register_discovery (fm_partner_id fm) (sf_name (at_file a)) (sf_path (at_file a)) file_size checksum
                     (sc_schema_version (si_contract G)) (Some (iso_date_of_days (fm_settlement_date fm))) (at_now a) (at_run_id a)))
              (\<lambda>(r0, kind).
                if mf_status r0 \<in> {PROCESSED, QUARANTINED} then returnE (result_from_manifest r0 kind (sf_name (at_file a)) True)
                else ingest_registered G a fm checksum kind r0))))"

text \<open>The loop over the files: a failure is the result of its file, under the run id drawn then.\<close>

fun ingest_many :: "'s SettlementIngestor \<Rightarrow> (attempt \<times> string) list \<Rightarrow> ('s ingest_world, SettlementResult list) eff" where
  "ingest_many G [] = returnE []"
| "ingest_many G ((a, retry_run_id) # rest) =
     bindE (catchE (ingest_file G a)
              (\<lambda>e. returnE ((plain_result a FAILED [] (Some ''UNHANDLED_FILE_ERROR'') (Some (exn_message e)))
                       \<lparr>sr_ingestion_run_id := retry_run_id\<rparr>))) (\<lambda>x.
     bindE (ingest_many G rest) (\<lambda>xs. returnE (x # xs)))"

section \<open>The manifest keeps its rows\<close>

definition file_identity :: "ManifestRecord \<Rightarrow> string \<times> string \<times> string \<times> string \<times> string \<times> string \<times> string option \<times> string" where
  "file_identity r = (mf_file_id r, mf_source_name r, mf_partner_id r, mf_file_name r, mf_checksum_sha256 r, mf_schema_version r,
     mf_settlement_date r, mf_discovered_at r)"

abbreviation finished :: "ManifestRecord \<Rightarrow> bool" where
  "finished r \<equiv> mf_status r \<in> {PROCESSED, QUARANTINED}"

text \<open>A row keeps its identity, and never changes once it is finished.\<close>

definition file_evolves :: "ManifestRecord \<Rightarrow> ManifestRecord \<Rightarrow> bool" where
  "file_evolves r r' \<longleftrightarrow> file_identity r' = file_identity r \<and> (finished r \<longrightarrow> r' = r)"

text \<open>File ids and contents are unique, and the constraints hold.\<close>

definition files_inv :: "ManifestRecord list \<Rightarrow> bool" where
  "files_inv rows \<longleftrightarrow> distinct (map mf_file_id rows)
     \<and> distinct (map (\<lambda>r. (mf_source_name r, mf_partner_id r, mf_checksum_sha256 r)) rows) \<and> (\<forall>r\<in>set rows. manifest_checks r)"

interpretation files: evolving_table files_inv file_evolves
  by unfold_locales (auto simp: file_evolves_def file_identity_def)

lemma set_file_column_identity [simp]: "file_identity (set_file_column u r) = file_identity r"
  by (cases u) (simp_all add: file_identity_def)

lemma set_file_column_status [simp]: "mf_status (set_file_column u r) = mf_status r"
  by (cases u) simp_all

lemma fold_file_identity [simp]: "file_identity (fold set_file_column us r) = file_identity r"
  by (induction us arbitrary: r) simp_all

lemma fold_file_status [simp]: "mf_status (fold set_file_column us r) = mf_status r"
  by (induction us arbitrary: r) simp_all

lemma file_identity_fields:
  "file_identity r' = file_identity r \<Longrightarrow> mf_file_id r' = mf_file_id r \<and> mf_checksum_sha256 r' = mf_checksum_sha256 r
     \<and> mf_source_name r' = mf_source_name r \<and> mf_partner_id r' = mf_partner_id r"
  by (simp add: file_identity_def)

text \<open>The row a transition writes.\<close>

abbreviation moved :: "ManifestStatus \<Rightarrow> file_update list \<Rightarrow> ManifestRecord \<Rightarrow> ManifestRecord" where
  "moved target us r \<equiv> fold set_file_column us (r\<lparr>mf_status := target\<rparr>)"

lemma file_identity_status [simp]: "file_identity (r\<lparr>mf_status := s\<rparr>) = file_identity r"
  by (simp add: file_identity_def)

lemma find_file_Some: "find_file i rows = Some r \<Longrightarrow> r \<in> set rows \<and> mf_file_id r = i"
  by (auto simp: find_file_def find_Some_iff)

lemma transition_file_cases:
  assumes "file_transition_rows i target us rows = Inr (x, rows')"
  obtains (moved) s where "s \<notin> {PROCESSED, QUARANTINED}" "target \<in> set (ALLOWED_TRANSITIONS s)" "mf_file_id x = i"
    "x \<in> set rows'" "rows' = map (\<lambda>r. if mf_file_id r = i \<and> mf_status r = s then moved target us r else r) rows"
    "\<forall>r\<in>set rows. mf_file_id r = i \<and> mf_status r = s \<longrightarrow> manifest_checks (moved target us r)"
proof (cases "find_file i rows")
  case None
  then show thesis using assms by (simp add: file_transition_rows_def)
next
  case (Some current)
  let ?s = "mf_status current"
  have *: "target \<in> set (ALLOWED_TRANSITIONS ?s)" "find_file i rows' = Some x"
    "rows' = map (\<lambda>r. if mf_file_id r = i \<and> mf_status r = ?s then moved target us r else r) rows"
    "\<forall>r\<in>set rows. mf_file_id r = i \<and> mf_status r = ?s \<longrightarrow> manifest_checks (moved target us r)"
    using assms Some
    by (auto simp: file_transition_rows_def bindR_eq_Inr update_where_def list_all_iff split: if_split_asm option.split_asm)
  have "?s \<notin> {PROCESSED, QUARANTINED}" using *(1) by (cases ?s) auto
  then show thesis using find_file_Some [OF *(2)] by (intro moved [of ?s] *) simp_all
qed

lemma keeps_file_transition:
  assumes "files_inv rows" "file_transition_rows i target us rows = Inr (x, rows')"
  shows "files_inv rows' \<and> table_evolves file_evolves rows rows'"
  using assms(2)
proof (cases rule: transition_file_cases)
  case (moved s)
  let ?g = "\<lambda>r. if mf_file_id r = i \<and> mf_status r = s then moved target us r else r"
  have id: "file_identity (?g r) = file_identity r" for r by simp
  have "map mf_file_id rows' = map mf_file_id rows"
    "map (\<lambda>r. (mf_source_name r, mf_partner_id r, mf_checksum_sha256 r)) rows' = map (\<lambda>r. (mf_source_name r, mf_partner_id r, mf_checksum_sha256 r)) rows"
    unfolding moved(5) using file_identity_fields [OF id] by (simp_all del: fold_simps)
  moreover have "\<forall>r\<in>set rows'. manifest_checks r" using assms(1) moved(6) by (auto simp: moved(5) files_inv_def)
  moreover have "table_evolves file_evolves rows rows'"
    unfolding moved(5) by (rule files.grows_map) (use moved(1) in \<open>auto simp: file_evolves_def\<close>)
  ultimately show ?thesis using assms(1) by (simp add: files_inv_def)
qed

text \<open>A discovered file: its content has a row, the one with its checksum.\<close>

lemma keeps_discovery:
  assumes "files_inv rows" "discovery_rows r rows = Inr ((x, kind), rows')" "mf_source_name r = SOURCE_NAME"
  shows "files_inv rows' \<and> table_evolves file_evolves rows rows' \<and> x \<in> set rows' \<and> mf_checksum_sha256 x = mf_checksum_sha256 r
    \<and> (rows' = rows \<or> rows' = rows @ [r])"
proof (cases "find (same_content (mf_partner_id r) (mf_checksum_sha256 r)) rows")
  case None
  then have rows': "rows' = rows @ [r]" and x: "find_file (mf_file_id r) rows' = Some x" and new: "find_file (mf_file_id r) rows = None"
    "\<forall>x\<in>set rows. \<not> (mf_source_name x = mf_source_name r \<and> mf_partner_id x = mf_partner_id r \<and> mf_checksum_sha256 x = mf_checksum_sha256 r)"
    "manifest_checks r"
    using assms(2) by (auto simp: discovery_rows_def Let_def bindR_eq_Inr insert_file_def split: if_split_asm option.split_asm)
  have ids: "\<forall>y\<in>set rows. mf_file_id y \<noteq> mf_file_id r" using new(1) by (auto simp: find_file_def find_None_iff)
  then have "x = r" using find_file_Some [OF x] by (auto simp: rows')
  then show ?thesis
    using assms(1) new ids files.grows_append [OF files.grows_refl] by (auto simp: rows' files_inv_def)
next
  case (Some y)
  have "y \<in> set rows" "mf_checksum_sha256 y = mf_checksum_sha256 r"
    using Some by (auto simp: find_Some_iff same_content_def)
  moreover have "x = y" "rows' = rows" using assms(2) Some by (auto simp: discovery_rows_def)
  ultimately show ?thesis using assms(1) files.grows_refl by simp
qed

lemma wp_manifest_session:
  assumes "\<And>n. E (db\<lparr>tb_tick := n\<rparr>)"
    and "\<And>x rows' n. body (tb_rows db) = Inr (x, rows') \<Longrightarrow> Q x (db\<lparr>tb_tick := n, tb_rows := rows'\<rparr>)"
  shows "wp (manifest_session body) Q (\<lambda>_. E) db"
  using assms unfolding manifest_session_def manifest_initialize_def
  by (auto simp: wp_rules Let_def split: option.split sum.split prod.split)

section \<open>What the manifest promises about the store\<close>

text \<open>A recorded address: the bucket holds bytes with the checksum under a key of that address.\<close>

definition addressed :: "'s storage_backend \<Rightarrow> ('s \<Rightarrow> string \<Rightarrow> string \<Rightarrow> bytes option) \<Rightarrow> string \<Rightarrow> string \<Rightarrow> string option \<Rightarrow> 's \<Rightarrow> bool" where
  "addressed B obj bucket checksum uri s \<longleftrightarrow>
     (\<exists>u k d. uri = Some u \<and> sb_build_uri B bucket k = Inr u \<and> obj s bucket k = Some d \<and> sha256_hex d = checksum)"

definition file_durable :: "'s SettlementObjectStorage \<Rightarrow> ('s \<Rightarrow> string \<Rightarrow> string \<Rightarrow> bytes option) \<Rightarrow> 's \<Rightarrow> ManifestRecord \<Rightarrow> bool" where
  "file_durable S obj s r \<longleftrightarrow>
     (mf_status r = PROCESSED \<longrightarrow> addressed (sos_backend S) obj (sos_bronze_bucket S) (mf_checksum_sha256 r) (mf_bronze_path r) s)
     \<and> (mf_status r = QUARANTINED \<longrightarrow>
          addressed (sos_backend S) obj (sos_quarantine_bucket S) (mf_checksum_sha256 r) (mf_quarantine_path r) s)"

definition files_durable :: "'s SettlementObjectStorage \<Rightarrow> ('s \<Rightarrow> string \<Rightarrow> string \<Rightarrow> bytes option) \<Rightarrow> 's ingest_world \<Rightarrow> bool" where
  "files_durable S obj w \<longleftrightarrow> (\<forall>r\<in>set (tb_rows (sw_db w)). file_durable S obj (sw_store w) r)"

locale settlement_objects =
  fixes G :: "'s SettlementIngestor" and ok :: "'s \<Rightarrow> bool" and obj :: "'s \<Rightarrow> string \<Rightarrow> string \<Rightarrow> bytes option"
  assumes storage: "immutable_backend (sos_backend (si_storage G)) ok obj"
begin

abbreviation B :: "'s storage_backend" where "B \<equiv> sos_backend (si_storage G)"

text \<open>The invariant of ingestion, over the rows the manifest had before.\<close>

definition ingest_inv :: "ManifestRecord list \<Rightarrow> 's ingest_world \<Rightarrow> bool" where
  "ingest_inv rows0 w \<longleftrightarrow> ok (sw_store w) \<and> files_durable (si_storage G) obj w \<and> table_keeps files_inv file_evolves rows0 (sw_db w)"

text \<open>The rows of an attempt: the file it registered has the checksum it computed.\<close>

definition attempt_inv :: "ManifestRecord list \<Rightarrow> string \<Rightarrow> string \<Rightarrow> 's ingest_world \<Rightarrow> bool" where
  "attempt_inv rows0 i c w \<longleftrightarrow> ingest_inv rows0 w
     \<and> (\<forall>r\<in>set (tb_rows (sw_db w)). mf_file_id r = i \<longrightarrow> mf_checksum_sha256 r = c)"

lemma addressed_keeps: "store_keeps ok obj s t \<Longrightarrow> addressed B obj b c uri s \<Longrightarrow> addressed B obj b c uri t"
  unfolding addressed_def store_keeps_def by blast

lemma attempt_keeps: "attempt_inv rows0 i c w \<Longrightarrow> store_keeps ok obj (sw_store w) s \<Longrightarrow> attempt_inv rows0 i c (w\<lparr>sw_store := s\<rparr>)"
  using addressed_keeps [of "sw_store w" s]
  by (auto simp: attempt_inv_def ingest_inv_def files_durable_def file_durable_def store_keeps_def)

lemma metadata_plain: "plain_metadata (AList.update ''artifact_type'' (M_str x) (storage_metadata G a p c n v))"
  by (rule plain_metadata_safe) (simp_all add: storage_metadata_def SAFE_METADATA_FIELDS_def)

lemma put_settlement_addressed:
  assumes "attempt_inv rows0 i c w"
  shows "wp (on_objects (put_settlement (si_storage G) b key src c (storage_metadata G a p c0 n v) art))
    (\<lambda>uri t. attempt_inv rows0 i c t \<and> addressed B obj b c (Some uri) (sw_store t)) (\<lambda>_. attempt_inv rows0 i c) w"
proof -
  have ok: "ok (sw_store w)" using assms by (simp add: attempt_inv_def ingest_inv_def)
  note put = immutable_backend.put_law [OF storage ok metadata_plain]
  have stored: "wp (sb_put_immutable B b k d c ct (AList.update ''artifact_type'' (M_str art) (storage_metadata G a p c0 n v)))
      (\<lambda>x s. attempt_inv rows0 i c (w\<lparr>sw_store := s\<rparr>) \<and> addressed B obj b c (Some (so_uri x)) s)
      (\<lambda>_ s. attempt_inv rows0 i c (w\<lparr>sw_store := s\<rparr>)) (sw_store w)" for k d ct
    by (rule wp_mono [OF put]) (use attempt_keeps [OF assms] in \<open>auto simp: addressed_def describes_def\<close>)
  then show ?thesis
    using assms unfolding put_settlement_def
    by (auto simp: wp_rules split: sum.split intro!: wp_mono [OF stored])
qed

lemma write_rejected_keeps:
  assumes "attempt_inv rows0 i c w" "addressed B obj b c u (sw_store w)"
  shows "wp (on_objects (write_rejected_records (si_storage G) rs name p d run (storage_metadata G a p' c' n v)))
    (\<lambda>_ t. attempt_inv rows0 i c t \<and> addressed B obj b c u (sw_store t)) (\<lambda>_. attempt_inv rows0 i c) w"
proof -
  have ok: "ok (sw_store w)" using assms by (simp add: attempt_inv_def ingest_inv_def)
  have stored: "wp (sb_put_bytes_immutable B b' k data ct (AList.update ''artifact_type'' (M_str ''rejected_records'') (storage_metadata G a p' c' n v)))
      (\<lambda>_ s. attempt_inv rows0 i c (w\<lparr>sw_store := s\<rparr>) \<and> addressed B obj b c u s)
      (\<lambda>_ s. attempt_inv rows0 i c (w\<lparr>sw_store := s\<rparr>)) (sw_store w)" for b' k data ct
    by (rule wp_mono [OF immutable_backend.put_bytes_law [OF storage ok metadata_plain]])
       (use attempt_keeps [OF assms(1)] addressed_keeps [OF _ assms(2)] in auto)
  then show ?thesis
    using assms unfolding write_rejected_records_def
    by (auto simp: wp_rules split: sum.split intro!: wp_mono [OF stored])
qed

text \<open>A transition of the attempt's row keeps the invariant when the row it writes is durable.\<close>

lemma transition_keeps:
  assumes "attempt_inv rows0 i c w"
    and "\<And>r. mf_checksum_sha256 r = c \<Longrightarrow> file_durable (si_storage G) obj (sw_store w) (moved target us r)"
  shows "wp (on_table (file_transition i target us)) (\<lambda>r t. attempt_inv rows0 i c t \<and> mf_file_id r = i \<and> sw_store t = sw_store w)
    (\<lambda>_ t. attempt_inv rows0 i c t \<and> sw_store t = sw_store w) w"
proof -
  let ?E = "\<lambda>d. attempt_inv rows0 i c (w\<lparr>sw_db := d\<rparr>)"
  have "wp (manifest_session (file_transition_rows i target us)) (\<lambda>x d. ?E d \<and> mf_file_id x = i) (\<lambda>_. ?E) (sw_db w)"
  proof (rule wp_manifest_session)
    show "?E ((sw_db w)\<lparr>tb_tick := n\<rparr>)" for n
      using assms(1) by (simp add: attempt_inv_def ingest_inv_def files_durable_def table_keeps_def)
  next
    fix x rows' n assume body: "file_transition_rows i target us (tb_rows (sw_db w)) = Inr (x, rows')"
    have inv: "files_inv (tb_rows (sw_db w))" "table_evolves file_evolves rows0 (tb_rows (sw_db w))"
      using assms(1) by (auto simp: attempt_inv_def ingest_inv_def table_keeps_def)
    have kept: "files_inv rows'" "table_evolves file_evolves rows0 rows'"
      using keeps_file_transition [OF inv(1) body] files.grows_trans [OF inv(2)] by auto
    from body show "?E ((sw_db w)\<lparr>tb_tick := n, tb_rows := rows'\<rparr>) \<and> mf_file_id x = i"
    proof (cases rule: transition_file_cases)
      case (moved s)
      have same: "mf_checksum_sha256 (moved target us r) = mf_checksum_sha256 r \<and> mf_file_id (moved target us r) = mf_file_id r" for r
        using file_identity_fields [of "moved target us r" r] by simp
      have "\<forall>r\<in>set rows'. file_durable (si_storage G) obj (sw_store w) r \<and> (mf_file_id r = i \<longrightarrow> mf_checksum_sha256 r = c)"
        using assms same by (auto simp: moved(5) attempt_inv_def ingest_inv_def files_durable_def)
      then show ?thesis
        using assms(1) kept moved(3) by (auto simp: attempt_inv_def ingest_inv_def files_durable_def table_keeps_def)
    qed
  qed
  then show ?thesis unfolding file_transition_def wp_on_table by (rule wp_mono) auto
qed

lemma open_transition_keeps:
  assumes "attempt_inv rows0 i c w" "target \<notin> {PROCESSED, QUARANTINED}"
  shows "wp (on_table (file_transition i target us)) (\<lambda>r t. attempt_inv rows0 i c t \<and> mf_file_id r = i) (\<lambda>_. attempt_inv rows0 i c) w"
  by (rule wp_mono [OF transition_keeps [OF assms(1)]]) (use assms(2) in \<open>auto simp: file_durable_def\<close>)

lemma fail_manifest_keeps:
  "mf_file_id r = i \<Longrightarrow> attempt_inv rows0 i c w \<Longrightarrow>
    wp (fail_manifest a r kind e) (\<lambda>_. attempt_inv rows0 i c) (\<lambda>_. attempt_inv rows0 i c) w"
  unfolding fail_manifest_def wp_bindE
  by (simp, rule wp_mono [OF open_transition_keeps]) (auto simp: wp_rules)

lemma guarded_keeps:
  assumes "mf_file_id r = i" "wp body (\<lambda>_. attempt_inv rows0 i c) (\<lambda>_. attempt_inv rows0 i c) w"
  shows "wp (guarded_step a r kind body) (\<lambda>_. attempt_inv rows0 i c) (\<lambda>_. attempt_inv rows0 i c) w"
  unfolding guarded_step_def wp_catchE wp_bindE
  by (rule wp_mono [OF assms(2)]) (auto simp: wp_rules intro: fail_manifest_keeps [OF assms(1)])

lemma finish_quarantine:
  assumes "attempt_inv rows0 i c w" "addressed B obj (sos_quarantine_bucket (si_storage G)) c (Some u) (sw_store w)"
  shows "wp (on_table (file_transition i QUARANTINED (us @ [Quarantine_path (Some u)]))) (\<lambda>_. attempt_inv rows0 i c) (\<lambda>_. attempt_inv rows0 i c) w"
proof -
  have "mf_checksum_sha256 (moved QUARANTINED (us @ [Quarantine_path (Some u)]) r) = mf_checksum_sha256 r" for r
    using file_identity_fields [of "moved QUARANTINED us r" r] by simp
  then show ?thesis
    by (intro wp_mono [OF transition_keeps [OF assms(1)]]) (use assms(2) in \<open>auto simp: file_durable_def\<close>)
qed

lemma quarantine_invalid_keeps:
  assumes "mf_file_id r = i" "attempt_inv rows0 i c w"
  shows "wp (quarantine_invalid_file G a fm c kind r v (storage_metadata G a p c0 n x)) (\<lambda>_. attempt_inv rows0 i c) (\<lambda>_. attempt_inv rows0 i c) w"
  unfolding quarantine_invalid_file_def Let_def quarantine_file_def
  by (intro guarded_keeps assms(1), unfold wp_bindE, rule wp_mono [OF put_settlement_addressed [OF assms(2)]])
     (auto simp: assms(1) intro!: finish_quarantine [where us = "[_, _, _, _]", simplified])

lemma quarantine_strict_keeps:
  assumes "mf_file_id r = i" "attempt_inv rows0 i c w"
  shows "wp (quarantine_strict_file G a fm c kind r v (storage_metadata G a p c0 n x)) (\<lambda>_. attempt_inv rows0 i c) (\<lambda>_. attempt_inv rows0 i c) w"
  unfolding quarantine_strict_file_def quarantine_file_def
  by (intro guarded_keeps assms(1), unfold wp_bindE, rule wp_mono [OF put_settlement_addressed [OF assms(2)]])
     (auto simp: assms(1) intro!: wp_mono [OF write_rejected_keeps] finish_quarantine [where us = "[_, _, _]", simplified])

lemma quarantine_name_keeps:
  assumes "mf_file_id r = i" "attempt_inv rows0 i c w"
  shows "wp (quarantine_name G a c code message kind r) (\<lambda>_. attempt_inv rows0 i c) (\<lambda>_. attempt_inv rows0 i c) w"
proof -
  have "wp (bindE (on_objects (quarantine_file (si_storage G) (at_file a) 5 (at_partner_id a) None (at_run_id a) c
            (storage_metadata G a (at_partner_id a) c n None)))
      (\<lambda>u. on_table (file_transition (mf_file_id r) QUARANTINED
         [Processed_at (utc_isoformat (at_now a)), Error_code (Some code), Error_message (Some message), Quarantine_path (Some u)])))
      (\<lambda>_. attempt_inv rows0 i c) (\<lambda>_. attempt_inv rows0 i c) w" for n
    unfolding wp_bindE quarantine_file_def
    by (rule wp_mono [OF put_settlement_addressed [OF assms(2)]])
       (auto simp: assms(1) intro!: finish_quarantine [where us = "[_, _, _]", simplified])
  then show ?thesis
    unfolding quarantine_name_def
    by (intro guarded_keeps assms(1)) (auto simp: wp_bindE [of "liftE _"] wp_liftE assms(2) split: sum.split)
qed

lemma store_accepted_keeps:
  assumes "mf_file_id r = i" "attempt_inv rows0 i c w"
  shows "wp (store_accepted G a fm c r v (storage_metadata G a p c0 n x)) (\<lambda>_. attempt_inv rows0 i c) (\<lambda>_. attempt_inv rows0 i c) w"
proof -
  let ?ok = "\<lambda>u t. attempt_inv rows0 i c t \<and> addressed B obj (sos_bronze_bucket (si_storage G)) c (Some u) (sw_store t)"
  have finish: "wp (on_table (file_transition (mf_file_id r) PROCESSED [Processed_at t, Bronze_path u, Quarantine_path q]))
      (\<lambda>_. attempt_inv rows0 i c) (\<lambda>_. attempt_inv rows0 i c) s" if "?ok u s" for t u q s
    using that unfolding assms(1) by (intro wp_mono [OF transition_keeps]) (auto simp: file_durable_def)
  have copy: "wp (on_objects (copy_to_bronze (si_storage G) f k pid sd d c (storage_metadata G a p c0 n x))) ?ok (\<lambda>_. attempt_inv rows0 i c) w" for f k pid sd d
    unfolding copy_to_bronze_def by (rule put_settlement_addressed [OF assms(2)])
  show ?thesis
    unfolding store_accepted_def wp_bindE
    by (rule wp_mono [OF copy]) (auto simp: wp_bindE wp_if wp_returnE intro!: wp_mono [OF write_rejected_keeps] finish)
qed

lemma ingest_registered_keeps:
  assumes "attempt_inv rows0 (mf_file_id r0) c w"
  shows "wp (ingest_registered G a fm c kind r0) (\<lambda>_. attempt_inv rows0 (mf_file_id r0) c) (\<lambda>_. attempt_inv rows0 (mf_file_id r0) c) w"
proof -
  let ?I = "attempt_inv rows0 (mf_file_id r0) c" and ?md = "\<lambda>n v. storage_metadata G a (fm_partner_id fm) c n (Some v)"
  have processing: "wp (bindE (on_table (file_transition (mf_file_id r2) PROCESSING us)) (\<lambda>r3. guarded_step a r3 kind (store_accepted G a fm c r3 v (?md n v))))
      (\<lambda>_. ?I) (\<lambda>_. ?I) t" if "?I t" "mf_file_id r2 = mf_file_id r0" for r2 us v n t
    unfolding wp_bindE that(2)
    by (rule wp_mono [OF open_transition_keeps [OF that(1)]]) (auto intro!: guarded_keeps store_accepted_keeps)
  have validated: "wp (bindE (on_table (file_transition (mf_file_id r1) VALIDATED us)) (\<lambda>r2.
        if fv_rejected_records v \<noteq> [] \<and> at_strict a then quarantine_strict_file G a fm c kind r2 v (?md n v)
        else bindE (on_table (file_transition (mf_file_id r2) PROCESSING us')) (\<lambda>r3. guarded_step a r3 kind (store_accepted G a fm c r3 v (?md n v)))))
      (\<lambda>_. ?I) (\<lambda>_. ?I) t" if "?I t" "mf_file_id r1 = mf_file_id r0" for r1 us us' v n t
    unfolding wp_bindE [of "on_table (file_transition _ VALIDATED _)"] that(2)
    by (rule wp_mono [OF open_transition_keeps [OF that(1)]]) (auto intro!: quarantine_strict_keeps processing)
  show ?thesis
    unfolding ingest_registered_def Let_def wp_bindE [of "liftE _"] wp_liftE
    using assms
    by (auto split: sum.split simp: wp_bindE [of "on_table (file_transition _ VALIDATING _)"] wp_bindE [of "liftE _"] wp_liftE wp_if
        intro!: wp_mono [OF open_transition_keeps] validated quarantine_invalid_keeps)
qed

lemma register_keeps:
  assumes "ingest_inv rows0 w"
  shows "wp (on_table (register_discovery p name path n c sv sd t run)) (\<lambda>x. attempt_inv rows0 (mf_file_id (fst x)) c) (\<lambda>_. ingest_inv rows0) w"
proof -
  let ?r = "new_manifest_record p name path n c sv sd t run"
  have inv: "files_inv (tb_rows (sw_db w))" "table_evolves file_evolves rows0 (tb_rows (sw_db w))"
    using assms by (auto simp: ingest_inv_def table_keeps_def)
  have r: "mf_source_name ?r = SOURCE_NAME" "mf_checksum_sha256 ?r = c" "file_durable (si_storage G) obj s ?r" for s
    by (simp_all add: new_manifest_record_def file_durable_def)
  have "wp (manifest_session (discovery_rows ?r)) (\<lambda>x d. attempt_inv rows0 (mf_file_id (fst x)) c (w\<lparr>sw_db := d\<rparr>))
      (\<lambda>_ d. ingest_inv rows0 (w\<lparr>sw_db := d\<rparr>)) (sw_db w)"
  proof (rule wp_manifest_session)
    show "ingest_inv rows0 (w\<lparr>sw_db := (sw_db w)\<lparr>tb_tick := n\<rparr>\<rparr>)" for n
      using assms by (simp add: ingest_inv_def files_durable_def table_keeps_def)
  next
    fix x rows' m assume body: "discovery_rows ?r (tb_rows (sw_db w)) = Inr (x, rows')"
    obtain y kind where x: "x = (y, kind)" by (cases x)
    note kept = keeps_discovery [OF inv(1) body [unfolded x] r(1)]
    have "\<forall>z\<in>set rows'. mf_file_id z = mf_file_id y \<longrightarrow> z = y"
      using kept by (auto simp: files_inv_def distinct_map inj_on_def)
    then have "\<forall>z\<in>set rows'. mf_file_id z = mf_file_id y \<longrightarrow> mf_checksum_sha256 z = c" using kept r(2) by auto
    moreover have "\<forall>z\<in>set rows'. file_durable (si_storage G) obj (sw_store w) z"
      using kept assms r(3) by (auto simp: ingest_inv_def files_durable_def)
    moreover have "table_evolves file_evolves rows0 rows'" using kept files.grows_trans [OF inv(2)] by blast
    ultimately show "attempt_inv rows0 (mf_file_id (fst x)) c (w\<lparr>sw_db := (sw_db w)\<lparr>tb_tick := m, tb_rows := rows'\<rparr>\<rparr>)"
      using kept assms x by (simp add: attempt_inv_def ingest_inv_def files_durable_def table_keeps_def)
  qed
  then show ?thesis unfolding register_discovery_def wp_on_table .
qed

lemma attempt_ingest: "attempt_inv rows0 i c w \<Longrightarrow> ingest_inv rows0 w"
  by (simp add: attempt_inv_def)

lemma wp_attempt: "wp m (\<lambda>_. attempt_inv rows0 i c) (\<lambda>_. attempt_inv rows0 i c) w \<Longrightarrow> wp m (\<lambda>_. ingest_inv rows0) (\<lambda>_. ingest_inv rows0) w"
  by (erule wp_mono; erule attempt_ingest)

lemma registered_keeps:
  assumes "\<And>r0 kind t. attempt_inv rows0 (mf_file_id r0) c t \<Longrightarrow> wp (f r0 kind) (\<lambda>_. ingest_inv rows0) (\<lambda>_. ingest_inv rows0) t"
  shows "preserves (ingest_inv rows0) (bindE (on_table (register_discovery p name path n c sv sd t run)) (\<lambda>(r0, kind). f r0 kind))"
  unfolding preserves_iff_wp wp_bindE
  by (intro allI impI wp_mono [OF register_keeps]) (auto intro: assms)

lemma name_rejection_keeps: "preserves (ingest_inv rows0) (handle_filename_rejection G a code message)"
proof -
  have "wp (bindE (on_table (file_transition (mf_file_id r0) VALIDATING us)) (quarantine_name G a c code message kind))
      (\<lambda>_. ingest_inv rows0) (\<lambda>_. ingest_inv rows0) t" if "attempt_inv rows0 (mf_file_id r0) c t" for r0 c us kind t
    by (rule wp_attempt [of _ _ "mf_file_id r0" c])
       (use that in \<open>auto simp: wp_bindE intro!: wp_mono [OF open_transition_keeps] quarantine_name_keeps\<close>)
  then show ?thesis
    unfolding handle_filename_rejection_def
    by (auto simp: wp_returnE split: sum.split exn.split intro!: preserves_rules registered_keeps) (erule attempt_ingest)
qed

lemma ingest_file_keeps: "preserves (ingest_inv rows0) (ingest_file G a)"
proof -
  have "wp (ingest_registered G a fm c kind r0)
      (\<lambda>_. ingest_inv rows0) (\<lambda>_. ingest_inv rows0) t" if "attempt_inv rows0 (mf_file_id r0) c t" for r0 c fm kind t
    by (rule wp_attempt [of _ _ "mf_file_id r0" c]) (rule ingest_registered_keeps [OF that])
  then show ?thesis
    unfolding ingest_file_def
    by (auto simp: wp_returnE split: sum.split exn.split intro!: preserves_rules registered_keeps name_rejection_keeps elim: attempt_ingest)
qed

lemma ingest_many_keeps: "preserves (ingest_inv rows0) (ingest_many G attempts)"
proof (induction attempts)
  case (Cons x rest)
  obtain a run where x: "x = (a, run)" by (cases x)
  show ?case unfolding x ingest_many.simps by (intro preserves_rules ingest_file_keeps Cons.IH)
qed (simp add: preserves_rules)

end

lemma ingest_many_returns: "wp (ingest_many G attempts) (\<lambda>xs _. length xs = length attempts) (\<lambda>_ _. False) w"
proof (induction attempts arbitrary: w)
  case (Cons x rest)
  obtain a run where x: "x = (a, run)" by (cases x)
  have step: "wp (bindE (ingest_many G rest) (\<lambda>xs. returnE (y # xs))) (\<lambda>xs _. length xs = Suc (length rest)) (\<lambda>_ _. False) t" for y t
    unfolding wp_bindE by (rule wp_mono [OF Cons.IH]) (simp_all add: wp_returnE)
  show ?case
    unfolding x ingest_many.simps wp_bindE [of "catchE _ _"] wp_catchE
    by (rule wp_mono [OF wp_True]) (simp_all add: wp_returnE step)
qed (simp add: wp_returnE)

lemma find_only:
  assumes "x \<in> set xs" "P x" "\<And>y. y \<in> set xs \<Longrightarrow> P y \<Longrightarrow> y = x"
  shows "find P xs = Some x"
proof (cases "find P xs")
  case None
  then show ?thesis using assms(1,2) by (auto simp: find_None_iff)
next
  case (Some z)
  then have "z \<in> set xs" "P z" by (auto simp: find_Some_iff)
  then show ?thesis using assms(3) Some by simp
qed

lemma calculate_whole: "sf_reads f n = (data, None) \<Longrightarrow> calculate_sha256 f n = Inr (sha256_hex data)"
  by (simp add: calculate_sha256_def sf_bytes_def bindR_def sha256_file_hex)

lemma size_readable: "snd (sf_reads f n) = None \<Longrightarrow> \<exists>k. sf_size f n = Inr k"
  by (cases "sf_reads f n") (simp add: sf_size_def sf_bytes_def bindR_def)

lemma content_found:
  assumes "files_inv rows" "r \<in> set rows" "same_content p c r" shows "find (same_content p c) rows = Some r"
  by (rule find_only) (use assms in \<open>auto simp: files_inv_def distinct_map inj_on_def same_content_def\<close>)

text \<open>
  A file with a rejected name whose content is already PROCESSED is not skipped: its row cannot
  be validated again, and the error leaves \<open>ingest_file\<close>.
\<close>

lemma misnamed_processed_raises:
  assumes "\<forall>n. tb_faults (sw_db w) n = None" and "files_inv (tb_rows (sw_db w))" and "\<not> at_dry_run a"
    and "sf_reads (at_file a) 0 = (data, None)" and "snd (sf_reads (at_file a) 1) = None"
    and "r \<in> set (tb_rows (sw_db w))" and "same_content (at_partner_id a) (sha256_hex data) r" and "mf_status r = PROCESSED"
  shows "fst (handle_filename_rejection G a code message w) = Inl (Manifest_Error ''Invalid manifest transition PROCESSED -> VALIDATING'')"
proof -
  note sum = calculate_whole [OF assms(4)]
  obtain n where size: "sf_size (at_file a) 1 = Inr n" using size_readable [OF assms(5)] ..
  have found: "find (same_content (at_partner_id a) (sha256_hex data)) (tb_rows (sw_db w)) = Some r"
    by (rule content_found [OF assms(2,6,7)])
  have row: "find_file (mf_file_id r) (tb_rows (sw_db w)) = Some r"
    unfolding find_file_def by (rule find_only) (use assms(2,6) in \<open>auto simp: files_inv_def distinct_map inj_on_def\<close>)
  show ?thesis
    using assms(1,3,8) sum size found row
    by (simp add: handle_filename_rejection_def bindE_def liftE_def on_table_def register_discovery_def file_transition_def manifest_session_def
        manifest_initialize_def seqE_def transaction_def Let_def discovery_rows_def new_manifest_record_def file_transition_rows_def)
qed

section \<open>The local wrapper\<close>

definition LOCAL_BRONZE_BUCKET :: string where "LOCAL_BRONZE_BUCKET = ''local-bronze''"

definition LOCAL_QUARANTINE_BUCKET :: string where "LOCAL_QUARANTINE_BUCKET = ''local-quarantine''"

definition LocalSettlementStorage :: "path \<Rightarrow> path \<Rightarrow> local_fs SettlementObjectStorage" where
  "LocalSettlementStorage bronze_root quarantine_root =
     \<lparr>sos_backend = local_backend [(LOCAL_BRONZE_BUCKET, bronze_root), (LOCAL_QUARANTINE_BUCKET, quarantine_root)],
      sos_bronze_bucket = LOCAL_BRONZE_BUCKET, sos_quarantine_bucket = LOCAL_QUARANTINE_BUCKET\<rparr>"

definition local_ingestor :: "SettlementContract \<Rightarrow> text_env \<Rightarrow> path \<Rightarrow> path \<Rightarrow> local_fs SettlementIngestor" where
  "local_ingestor C T bronze_root quarantine_root =
     \<lparr>si_contract = C, si_storage = LocalSettlementStorage bronze_root quarantine_root, si_text = T\<rparr>"

interpretation local_settlements: settlement_objects "local_ingestor C T bronze_root quarantine_root" local_ok
  "local_obj [(LOCAL_BRONZE_BUCKET, bronze_root), (LOCAL_QUARANTINE_BUCKET, quarantine_root)]"
  for C T bronze_root quarantine_root
  by unfold_locales (simp_all add: local_ingestor_def LocalSettlementStorage_def local.stat_law local.put_law local.put_bytes_law
      local.read_law local.list_law)

section \<open>Properties\<close>


text \<open>
  C38. Replays are skipped: while SQLite answers, ingesting a well-named, readable file whose content
  the manifest already records as PROCESSED or QUARANTINED for that partner returns that row as a
  skipped duplicate, whatever the name of the file, and changes neither the rows nor the store.
\<close>

theorem settlement_replay_skipped:
  assumes "\<forall>n. tb_faults (sw_db w) n = None" and "files_inv (tb_rows (sw_db w))" and "\<not> at_dry_run a"
    and "parse_settlement_filename (si_text G) (sf_name (at_file a)) (sc_naming_pattern (si_contract G)) (at_partner_id a) = Inr fm"
    and "sf_reads (at_file a) 0 = (data, None)" and "snd (sf_reads (at_file a) 1) = None"
    and "r \<in> set (tb_rows (sw_db w))" and "same_content (fm_partner_id fm) (sha256_hex data) r"
    and "mf_status r \<in> {PROCESSED, QUARANTINED}"
  shows "\<exists>w'. ingest_file G a w =
       (Inr (result_from_manifest r (if mf_file_name r = sf_name (at_file a) then SAME_NAME_SAME_CONTENT else DIFFERENT_NAME_SAME_CONTENT)
               (sf_name (at_file a)) True), w')
     \<and> tb_rows (sw_db w') = tb_rows (sw_db w) \<and> sw_store w' = sw_store w"
proof -
  note sum = calculate_whole [OF assms(5)]
  obtain n where size: "sf_size (at_file a) 1 = Inr n" using size_readable [OF assms(6)] ..
  have found: "find (same_content (fm_partner_id fm) (sha256_hex data)) (tb_rows (sw_db w)) = Some r"
    by (rule content_found [OF assms(2,7,8)])
  show ?thesis
    using assms(1,3,4,9) sum size found
    by (simp add: ingest_file_def bindE_def liftE_def on_table_def register_discovery_def manifest_session_def manifest_initialize_def
        seqE_def transaction_def Let_def discovery_rows_def new_manifest_record_def returnE_def)
qed

definition sample_ingestor :: "mem_s3 SettlementIngestor" where
  "sample_ingestor = \<lparr>si_contract = sample_contract,
     si_storage = \<lparr>sos_backend = minio_backend mem_minio, sos_bronze_bucket = ''bronze'', sos_quarantine_bucket = ''quarantine''\<rparr>,
     si_text = sample_text_env\<lparr>te_fullmatch := (\<lambda>_ _. Some [(''partner_id'', ''P1''), (''settlement_date'', ''2026-01-02''), (''sequence'', ''001'')])\<rparr>\<rparr>"

definition sample_attempt :: attempt where
  "sample_attempt = \<lparr>at_file = \<lparr>sf_path = ''in/f.csv'', sf_reads = (\<lambda>_. (sample_file, None))\<rparr>, at_partner_id = ''P1'', at_now = 0,
     at_run_id = ''r1'', at_dry_run = False, at_strict = False\<rparr>"

definition manifest_with :: "ManifestRecord list \<Rightarrow> mem_s3 ingest_world" where
  "manifest_with rows = \<lparr>sw_db = \<lparr>tb_rows = rows, tb_faults = (\<lambda>_. None), tb_tick = 0, tb_clock = (\<lambda>_. 0)\<rparr>, sw_store = []\<rparr>"


definition processed_row :: ManifestRecord where
  "processed_row = (new_manifest_record ''P1'' ''old.csv'' ''in/old.csv'' 7 (sha256_hex sample_file) ''v1'' None 0 ''r0'')
     \<lparr>mf_status := PROCESSED\<rparr>"

theorem settlement_replay_skipped_witness:
  "\<exists>w'. ingest_file sample_ingestor sample_attempt (manifest_with [processed_row]) =
       (Inr (result_from_manifest processed_row DIFFERENT_NAME_SAME_CONTENT ''f.csv'' True), w')
     \<and> tb_rows (sw_db w') = [processed_row] \<and> sw_store w' = []"
proof -
  have name: "sf_name (at_file sample_attempt) = ''f.csv''"
    by (simp add: sf_name_def sample_attempt_def path_name_def posix_parts_def)
  have date: "date_fromisoformat ''2026-01-02'' = Inr 20455" and num: "int_of_text ''001'' = Inr 1" by code_simp+
  have parse: "parse_settlement_filename (si_text sample_ingestor) (sf_name (at_file sample_attempt))
      (sc_naming_pattern (si_contract sample_ingestor)) (at_partner_id sample_attempt)
      = Inr \<lparr>fm_partner_id = ''P1'', fm_settlement_date = 20455, fm_sequence = 1, fm_file_name = ''f.csv''\<rparr>"
    unfolding name by (simp add: parse_settlement_filename_def sample_ingestor_def sample_attempt_def path_suffix_def Let_def match_group_def
        bindR_def date num)
  have row: "files_inv (tb_rows (sw_db (manifest_with [processed_row])))" "processed_row \<in> set (tb_rows (sw_db (manifest_with [processed_row])))"
    "same_content ''P1'' (sha256_hex sample_file) processed_row" "mf_status processed_row \<in> {PROCESSED, QUARANTINED}"
    "mf_file_name processed_row = ''old.csv''"
    by (simp_all add: manifest_with_def files_inv_def manifest_checks_def processed_row_def new_manifest_record_def same_content_def)
  have "\<forall>n. tb_faults (sw_db (manifest_with [processed_row])) n = None" "\<not> at_dry_run sample_attempt"
    "sf_reads (at_file sample_attempt) 0 = (sample_file, None)" "snd (sf_reads (at_file sample_attempt) 1) = None"
    by (simp_all add: manifest_with_def sample_attempt_def)
  from settlement_replay_skipped [OF this(1) row(1) this(2) parse this(3,4) row(2) _ row(4)] row(3,5) name
  show ?thesis by (simp add: manifest_with_def)
qed

end
