(* ===== verification/Spec2Isabelle.thy ===== *)
theory Spec2Isabelle
  imports Cdc_Delivery Silver_Processor Batch_Ingestion
begin

text \<open>
  Verification library of the payments data platform.
\<close>

end
